(* ===== verification/Prelude.thy ===== *)
theory Prelude
  imports Main "HOL-Library.List_Lexorder" "HOL-Library.Product_Lexorder" "HOL-Library.Word"
begin

text \<open>
  Shared vocabulary of the development: texts, results, named collections of facts and the
  list lemmas several components use.

  A Rust \<open>char\<close> is its Unicode scalar value, and a \<open>String\<close> or \<open>&str\<close> is the list of its
  characters, so the lexicographic order on \<^typ>\<open>nat list\<close> is the byte order of UTF-8 that
  \<open>BTreeMap<String, _>\<close> sorts by. A \<open>Result<T, E>\<close> is the sum type with the error on the left.
\<close>

section \<open>Texts\<close>

type_synonym str = "nat list"

text \<open>A string literal of the source; only ASCII literals are written this way.\<close>

definition lit :: "string \<Rightarrow> str" where
  "lit s = map of_char s"

text \<open>\<open>format!("{n}")\<close> of an unsigned integer: its decimal digits.\<close>

fun dec :: "nat \<Rightarrow> str" where
  "dec n = (if n < 10 then [48 + n] else dec (n div 10) @ [48 + n mod 10])"

declare dec.simps [simp del]

text \<open>\<open>format!("{n:02}")\<close>: at least two digits.\<close>

definition dec2 :: "nat \<Rightarrow> str" where
  "dec2 n = (if n < 10 then 48 # dec n else dec n)"

text \<open>The number a digit string denotes; only used to show that \<open>dec\<close> loses nothing.\<close>

definition undec :: "str \<Rightarrow> nat" where
  "undec ds = foldl (\<lambda>a d. 10 * a + (d - 48)) 0 ds"

lemma undec_snoc: "undec (ds @ [d]) = 10 * undec ds + (d - 48)"
  by (simp add: undec_def)

lemma undec_dec: "undec (dec n) = n"
proof (induction n rule: dec.induct)
  case (1 n)
  show ?case
  proof (cases "n < 10")
    case True
    then show ?thesis by (simp add: dec.simps [of n] undec_def)
  next
    case False
    then show ?thesis using 1 by (simp add: dec.simps [of n] undec_snoc)
  qed
qed

lemma dec_inject [simp]: "dec m = dec n \<longleftrightarrow> m = n"
  by (metis undec_dec)

lemma dec2_two: "n < 100 \<Longrightarrow> dec2 n = [48 + n div 10, 48 + n mod 10]"
proof -
  assume "n < 100"
  then have "n div 10 < 10" by (rule less_mult_imp_div_less [of n 10 10, simplified])
  then show ?thesis by (cases "n < 10") (simp_all add: dec2_def dec.simps [of n] dec.simps [of "n div 10"])
qed

section \<open>Results\<close>

abbreviation Ok :: "'a \<Rightarrow> 'e + 'a" where
  "Ok \<equiv> Inr"

abbreviation Err :: "'e \<Rightarrow> 'e + 'a" where
  "Err \<equiv> Inl"

text \<open>The \<open>?\<close> operator: an error returns at once, a value goes on.\<close>

definition res_bind :: "'e + 'a \<Rightarrow> ('a \<Rightarrow> 'e + 'b) \<Rightarrow> 'e + 'b" where
  "res_bind r k = (case r of Inl e \<Rightarrow> Inl e | Inr a \<Rightarrow> k a)"

text \<open>\<open>map_err\<close> and the \<open>From\<close> conversions \<open>?\<close> applies.\<close>

definition res_map_err :: "('e \<Rightarrow> 'f) \<Rightarrow> 'e + 'a \<Rightarrow> 'f + 'a" where
  "res_map_err f r = (case r of Inl e \<Rightarrow> Inl (f e) | Inr a \<Rightarrow> Inr a)"

text \<open>\<open>ok_or\<close>.\<close>

definition ok_or :: "'e \<Rightarrow> 'a option \<Rightarrow> 'e + 'a" where
  "ok_or e x = (case x of None \<Rightarrow> Inl e | Some a \<Rightarrow> Inr a)"

text \<open>\<open>is_ok_and\<close>.\<close>

definition is_ok_and :: "('a \<Rightarrow> bool) \<Rightarrow> 'e + 'a \<Rightarrow> bool" where
  "is_ok_and p r = (case r of Inl _ \<Rightarrow> False | Inr a \<Rightarrow> p a)"

named_theorems res_simps "evaluation of results"

lemma res_bind_simps [simp, res_simps]:
  "res_bind (Inl e) k = Inl e"
  "res_bind (Inr a) k = k a"
  by (simp_all add: res_bind_def)

lemma res_map_err_simps [simp, res_simps]:
  "res_map_err f (Inl e) = Inl (f e)"
  "res_map_err f (Inr a) = Inr a"
  by (simp_all add: res_map_err_def)

lemma ok_or_simps [simp, res_simps]:
  "ok_or e None = Inl e"
  "ok_or e (Some a) = Inr a"
  by (simp_all add: ok_or_def)

lemma is_ok_and_simps [simp, res_simps]:
  "is_ok_and p (Inl e) = False"
  "is_ok_and p (Inr a) = p a"
  by (simp_all add: is_ok_and_def)

lemma res_bind_OkE:
  assumes "res_bind r k = Inr b"
  obtains a where "r = Inr a" "k a = Inr b"
  using assms by (cases r) auto

lemma res_bind_Ok_iff: "res_bind r k = Inr b \<longleftrightarrow> (\<exists>a. r = Inr a \<and> k a = Inr b)"
  by (cases r) auto

lemma res_map_err_Ok_iff [simp]: "res_map_err f r = Inr a \<longleftrightarrow> r = Inr a"
  by (cases r) auto

lemma ok_or_Ok_iff [simp]: "ok_or e x = Inr a \<longleftrightarrow> x = Some a"
  by (cases x) auto

lemma option_iffI: "(\<And>v. x = Some v \<longleftrightarrow> y = Some v) \<Longrightarrow> x = y"
  by (cases x; cases y) auto

section \<open>Lists\<close>

text \<open>The first element satisfying \<open>p\<close> (\<open>Iterator::find\<close>) is \<open>List.find\<close>; \<open>contains\<close>
  on a slice, \<open>any\<close> and \<open>all\<close> are list membership and \<open>list_ex\<close>/\<open>list_all\<close>.\<close>

definition contains :: "'a list \<Rightarrow> 'a \<Rightarrow> bool" where
  "contains xs x = List.member xs x"

lemma contains_iff [simp]: "contains xs x \<longleftrightarrow> x \<in> set xs"
  by (simp add: contains_def)

text \<open>\<open>if !out.contains(x) { out.push(x) }\<close>.\<close>

definition push_new :: "'a list \<Rightarrow> 'a \<Rightarrow> 'a list" where
  "push_new xs x = (if contains xs x then xs else xs @ [x])"

lemma set_push_new [simp]: "set (push_new xs x) = insert x (set xs)"
  by (auto simp: push_new_def)

lemma distinct_push_new [simp]: "distinct (push_new xs x) = distinct xs"
  by (simp add: push_new_def)

lemma set_foldl_push_new [simp]: "set (foldl push_new xs ys) = set xs \<union> set ys"
  by (induction ys arbitrary: xs) auto

lemma distinct_foldl_push_new [simp]: "distinct (foldl push_new xs ys) = distinct xs"
  by (induction ys arbitrary: xs) auto

lemma foldl_push_new_absorb: "set ys \<subseteq> set xs \<Longrightarrow> foldl push_new xs ys = xs"
  by (induction ys arbitrary: xs) (auto simp: push_new_def)

lemma find_Some_in: "find p xs = Some x \<Longrightarrow> x \<in> set xs \<and> p x"
  by (induction xs) (auto split: if_splits)

lemma find_cong_all: "(\<And>x. x \<in> set xs \<Longrightarrow> p x = q x) \<Longrightarrow> find p xs = find q xs"
  by (induction xs) auto

lemma filter_id_all: "(\<And>x. x \<in> set xs \<Longrightarrow> p x) \<Longrightarrow> filter p xs = xs"
  by (induction xs) auto

end
