(* ===== verification/Calendar.thy ===== *)
theory Calendar
  imports Prelude
begin

text \<open>
  The values of the \<open>chrono\<close> types the source computes with, in chrono's documented meaning:
  the proleptic Gregorian calendar at nanosecond resolution. An instant (\<open>DateTime<Utc>\<close>) and a
  wall clock (\<open>NaiveDateTime\<close>) are nanoseconds since 1970-01-01T00:00:00, a date
  (\<open>NaiveDate\<close>) is a day number since 1970-01-01, a \<open>NaiveTime\<close> is nanoseconds since midnight
  and a \<open>TimeDelta\<close> is a number of nanoseconds. Leap-second values are not modelled.
  Unchecked \<open>+\<close> and \<open>-\<close> on instants panic in chrono beyond the years -262143..262142 only; the
  checked operations carry those limits.
\<close>

section \<open>Durations\<close>

type_synonym instant = int
type_synonym wall = int
type_synonym date = int
type_synonym clock = int
type_synonym delta = int

definition seconds :: "int \<Rightarrow> delta" where
  "seconds n = n * 1000000000"

definition minutes :: "int \<Rightarrow> delta" where
  "minutes n = n * 60000000000"

definition hours :: "int \<Rightarrow> delta" where
  "hours n = n * 3600000000000"

definition days :: "int \<Rightarrow> delta" where
  "days n = n * 86400000000000"

lemmas delta_defs = seconds_def minutes_def hours_def days_def

section \<open>Weekdays\<close>

datatype weekday = Mon | Tue | Wed | Thu | Fri | Sat | Sun

fun num_days_from_monday :: "weekday \<Rightarrow> nat" where
  "num_days_from_monday Mon = 0"
| "num_days_from_monday Tue = 1"
| "num_days_from_monday Wed = 2"
| "num_days_from_monday Thu = 3"
| "num_days_from_monday Fri = 4"
| "num_days_from_monday Sat = 5"
| "num_days_from_monday Sun = 6"

text \<open>Weekdays in the order weekly timings are stored in, Monday first.\<close>

instantiation weekday :: linorder
begin

definition less_eq_weekday :: "weekday \<Rightarrow> weekday \<Rightarrow> bool" where
  "less_eq_weekday a b \<longleftrightarrow> num_days_from_monday a \<le> num_days_from_monday b"

definition less_weekday :: "weekday \<Rightarrow> weekday \<Rightarrow> bool" where
  "less_weekday a b \<longleftrightarrow> num_days_from_monday a < num_days_from_monday b"

instance
proof
  fix a b :: weekday
  assume "a \<le> b" "b \<le> a"
  then show "a = b"
    by (cases a; cases b) (simp_all add: less_eq_weekday_def)
qed (auto simp: less_eq_weekday_def less_weekday_def)

end

lemma num_days_less [simp]: "num_days_from_monday d < 7"
  by (cases d) auto

lemma num_days_inject [simp]: "num_days_from_monday a = num_days_from_monday b \<longleftrightarrow> a = b"
  by (cases a; cases b) auto

fun weekday_of_index :: "nat \<Rightarrow> weekday" where
  "weekday_of_index n =
     (if n = 0 then Mon else if n = 1 then Tue else if n = 2 then Wed else if n = 3 then Thu
      else if n = 4 then Fri else if n = 5 then Sat else Sun)"

text \<open>1970-01-01 was a Thursday.\<close>

definition date_weekday :: "date \<Rightarrow> weekday" where
  "date_weekday d = weekday_of_index (nat ((d + 3) mod 7))"

lemma num_days_weekday_of_index: "n < 7 \<Longrightarrow> num_days_from_monday (weekday_of_index n) = n"
  by auto

lemma num_days_date_weekday: "int (num_days_from_monday (date_weekday d)) = (d + 3) mod 7"
proof -
  have "nat ((d + 3) mod 7) < 7" by (simp add: nat_less_iff)
  then have "num_days_from_monday (date_weekday d) = nat ((d + 3) mod 7)"
    unfolding date_weekday_def by (rule num_days_weekday_of_index)
  then show ?thesis by simp
qed

lemma date_weekday_eq_iff: "date_weekday d = date_weekday e \<longleftrightarrow> (d - e) mod 7 = 0"
proof -
  have "date_weekday d = date_weekday e \<longleftrightarrow>
      int (num_days_from_monday (date_weekday d)) = int (num_days_from_monday (date_weekday e))"
    by simp
  also have "\<dots> \<longleftrightarrow> (d + 3) mod 7 = (e + 3) mod 7"
    by (simp only: num_days_date_weekday)
  also have "\<dots> \<longleftrightarrow> (d - e) mod 7 = 0"
    by (simp add: mod_eq_dvd_iff dvd_eq_mod_eq_0)
  finally show ?thesis .
qed

section \<open>Wall clocks\<close>

definition wall_date :: "wall \<Rightarrow> date" where
  "wall_date w = w div 86400000000000"

definition wall_time :: "wall \<Rightarrow> clock" where
  "wall_time w = w mod 86400000000000"

definition and_time :: "date \<Rightarrow> clock \<Rightarrow> wall" where
  "and_time d t = d * 86400000000000 + t"

definition wall_weekday :: "wall \<Rightarrow> weekday" where
  "wall_weekday w = date_weekday (wall_date w)"

definition is_clock :: "clock \<Rightarrow> bool" where
  "is_clock t \<longleftrightarrow> 0 \<le> t \<and> t < 86400000000000"

text \<open>\<open>NaiveTime::MIN\<close>, midnight.\<close>

definition midnight :: clock where
  "midnight = 0"

lemma wall_date_and_time [simp]: "is_clock t \<Longrightarrow> wall_date (and_time d t) = d"
  by (simp add: wall_date_def and_time_def is_clock_def)

lemma wall_time_and_time [simp]: "is_clock t \<Longrightarrow> wall_time (and_time d t) = t"
  by (simp add: wall_time_def and_time_def is_clock_def)

lemma and_time_wall [simp]: "and_time (wall_date w) (wall_time w) = w"
  by (simp add: and_time_def wall_date_def wall_time_def)

lemma is_clock_wall_time [simp]: "is_clock (wall_time w)"
  by (simp add: is_clock_def wall_time_def)

lemma is_clock_midnight [simp]: "is_clock midnight"
  by (simp add: is_clock_def midnight_def)

lemma wall_date_add_days [simp]: "wall_date (w + days n) = wall_date w + n"
  by (simp add: wall_date_def days_def)

lemma wall_time_add_days [simp]: "wall_time (w + days n) = wall_time w"
  by (simp add: wall_time_def days_def)

lemma and_time_add_days: "and_time d t + days n = and_time (d + n) t"
  by (simp add: and_time_def days_def algebra_simps)

section \<open>Years\<close>

text \<open>The civil date of a day number: year, month 1..12, day 1..31.\<close>

definition civil_of_date :: "date \<Rightarrow> int \<times> int \<times> int" where
  "civil_of_date d =
     (let z = d + 719468;
          era = z div 146097;
          doe = z mod 146097;
          yoe = (doe - doe div 1460 + doe div 36524 - doe div 146096) div 365;
          doy = doe - (365 * yoe + yoe div 4 - yoe div 100);
          mp = (5 * doy + 2) div 153;
          day = doy - (153 * mp + 2) div 5 + 1;
          month = (if mp < 10 then mp + 3 else mp - 9);
          year = yoe + era * 400 + (if month \<le> 2 then 1 else 0)
      in (year, month, day))"

definition date_of_civil :: "int \<Rightarrow> int \<Rightarrow> int \<Rightarrow> date" where
  "date_of_civil y m d =
     (let y' = (if m \<le> 2 then y - 1 else y);
          era = y' div 400;
          yoe = y' mod 400;
          doy = (153 * (if m > 2 then m - 3 else m + 9) + 2) div 5 + d - 1;
          doe = yoe * 365 + yoe div 4 - yoe div 100 + doy
      in era * 146097 + doe - 719468)"

definition wall_year :: "wall \<Rightarrow> int" where
  "wall_year w = fst (civil_of_date (wall_date w))"

definition wall_month0 :: "wall \<Rightarrow> nat" where
  "wall_month0 w = nat (fst (snd (civil_of_date (wall_date w))) - 1)"

definition wall_day :: "wall \<Rightarrow> nat" where
  "wall_day w = nat (snd (snd (civil_of_date (wall_date w))))"

definition wall_hour :: "wall \<Rightarrow> nat" where
  "wall_hour w = nat (wall_time w div 3600000000000)"

definition wall_minute :: "wall \<Rightarrow> nat" where
  "wall_minute w = nat (wall_time w div 60000000000 mod 60)"

text \<open>\<open>NaiveDateTime::MIN\<close> and \<open>MAX\<close>: the years -262143..262142.\<close>

definition chrono_min :: wall where
  "chrono_min = and_time (date_of_civil (-262143) 1 1) 0"

definition chrono_max :: wall where
  "chrono_max = and_time (date_of_civil 262142 12 31) 86399999999999"

text \<open>\<open>checked_add_signed\<close>, \<open>checked_sub_signed\<close>, \<open>checked_add_offset\<close> and
  \<open>checked_sub_offset\<close>: \<open>None\<close> beyond those years.\<close>

definition checked_add :: "wall \<Rightarrow> delta \<Rightarrow> wall option" where
  "checked_add w d = (if chrono_min \<le> w + d \<and> w + d \<le> chrono_max then Some (w + d) else None)"

text \<open>\<open>NaiveDate::succ_opt\<close>.\<close>

definition date_succ :: "date \<Rightarrow> date option" where
  "date_succ d = (if d + 1 \<le> date_of_civil 262142 12 31 then Some (d + 1) else None)"

text \<open>\<open>(1..=9999).contains(&wall.year())\<close>: the years v4 can represent.\<close>

definition python_year :: "wall \<Rightarrow> bool" where
  "python_year w \<longleftrightarrow> 1 \<le> wall_year w \<and> wall_year w \<le> 9999"

lemma checked_add_SomeD: "checked_add w d = Some v \<Longrightarrow> v = w + d"
  by (auto simp: checked_add_def split: if_splits)

text \<open>A year v4 can represent is far inside chrono's own limits.\<close>

lemma chrono_limits:
  "chrono_min = - 8334601228800000000000"
  "chrono_max = 8210266876799999999999"
  by code_simp+

lemma div_bounds:
  fixes n :: int
  shows "0 \<le> n \<Longrightarrow> n < 146097 \<Longrightarrow> 0 \<le> n div 1460 \<and> n div 1460 \<le> 101"
    "0 \<le> n \<Longrightarrow> n < 146097 \<Longrightarrow> 0 \<le> n div 36524 \<and> n div 36524 \<le> 4"
    "0 \<le> n \<Longrightarrow> n < 146097 \<Longrightarrow> 0 \<le> n div 146096 \<and> n div 146096 \<le> 1"
    "-365 \<le> n \<Longrightarrow> n \<le> 146364 \<Longrightarrow> -1 \<le> n div 365 \<and> n div 365 \<le> 400"
  by linarith+

text \<open>The year is a year of its 400-year era, give or take one.\<close>

lemma wall_year_era:
  obtains y where "-1 \<le> y" "y \<le> 401" "wall_year w = y + (wall_date w + 719468) div 146097 * 400"
proof -
  define doe where "doe = (wall_date w + 719468) mod 146097"
  define yoe where "yoe = (doe - doe div 1460 + doe div 36524 - doe div 146096) div 365"
  have d: "0 \<le> doe" "doe < 146097" unfolding doe_def by simp_all
  note div_bounds(1-3) [OF d]
  then have "-365 \<le> doe - doe div 1460 + doe div 36524 - doe div 146096"
    "doe - doe div 1460 + doe div 36524 - doe div 146096 \<le> 146364"
    using d by linarith+
  from div_bounds(4) [OF this] have y: "-1 \<le> yoe" "yoe \<le> 400" unfolding yoe_def by auto
  have "\<exists>P. wall_year w = yoe + (wall_date w + 719468) div 146097 * 400 + (if P then 1 else 0)"
    unfolding wall_year_def civil_of_date_def Let_def yoe_def doe_def
    by (simp only: fst_conv, rule exI, rule refl)
  then obtain k where "k = 0 \<or> k = (1::int)"
    "wall_year w = yoe + (wall_date w + 719468) div 146097 * 400 + k"
    by (auto split: if_splits)
  then show thesis using y that [of "yoe + k"] by auto
qed

lemma python_year_date_bounds:
  assumes "python_year w"
  shows "- 900000 \<le> wall_date w" "wall_date w \<le> 3200000"
proof -
  obtain y where y: "-1 \<le> y" "y \<le> 401"
    "wall_year w = y + (wall_date w + 719468) div 146097 * 400"
    by (rule wall_year_era)
  define era where "era = (wall_date w + 719468) div 146097"
  have e: "-1 \<le> era" "era \<le> 25"
    using assms y unfolding python_year_def era_def by linarith+
  have q: "wall_date w + 719468 = 146097 * era + (wall_date w + 719468) mod 146097"
    unfolding era_def by simp
  have r: "0 \<le> (wall_date w + 719468) mod 146097" "(wall_date w + 719468) mod 146097 < 146097"
    by simp_all
  show "- 900000 \<le> wall_date w" using e(1) q r(1) by linarith
  show "wall_date w \<le> 3200000" using e(2) q r(2) by linarith
qed

lemma python_year_bounds:
  assumes "python_year w"
  shows "- 77760000000000000000 \<le> w" "w < 276480086400000000000"
proof -
  have w: "w = wall_date w * 86400000000000 + wall_time w"
    using and_time_wall [of w] by (simp add: and_time_def)
  have "is_clock (wall_time w)" by simp
  then show "- 77760000000000000000 \<le> w" "w < 276480086400000000000"
    using w python_year_date_bounds [OF assms] unfolding is_clock_def by linarith+
qed

text \<open>The calendar loses no day: a day number is the date of its own year, month and day.\<close>

lemma civil_year_of_era:
  fixes doe :: int
  assumes "0 \<le> doe" "doe < 146097"
  defines "yoe \<equiv> (doe - doe div 1460 + doe div 36524 - doe div 146096) div 365"
  shows "0 \<le> yoe" "yoe < 400" "0 \<le> doe - (365 * yoe + yoe div 4 - yoe div 100)"
    "doe - (365 * yoe + yoe div 4 - yoe div 100) \<le> 365"
proof -
  define a b c where "a = doe div 1460" and "b = doe div 36524" and "c = doe div 146096"
  have a: "1460 * a \<le> doe" "doe < 1460 * a + 1460"
    and b: "36524 * b \<le> doe" "doe < 36524 * b + 36524"
    and c: "146096 * c \<le> doe" "doe < 146096 * c + 146096"
    unfolding a_def b_def c_def by linarith+
  have y: "365 * yoe \<le> doe - a + b - c" "doe - a + b - c < 365 * yoe + 365"
    unfolding yoe_def a_def b_def c_def by linarith+
  have b': "b = 0 \<or> b = 1 \<or> b = 2 \<or> b = 3 \<or> b = 4" using b assms by linarith
  have c': "c = 0 \<or> c = 1" using c assms by linarith
  show "0 \<le> yoe" using y a b' c' b c assms by linarith
  show lt: "yoe < 400"
  proof (cases "a \<le> 99")
    case True then show ?thesis using y a b' c' b c assms by linarith
  next
    case False then show ?thesis using y a b' c' b c assms by linarith
  qed
  define q h where "q = yoe div 4" and "h = yoe div 100"
  have q: "4 * q \<le> yoe" "yoe < 4 * q + 4" unfolding q_def by linarith+
  have h: "100 * h \<le> yoe" "yoe < 100 * h + 100" unfolding h_def by linarith+
  have h': "h = 0 \<or> h = 1 \<or> h = 2 \<or> h = 3" using h lt \<open>0 \<le> yoe\<close> by linarith
  note facts = y a b c q h assms(1,2)
  show "0 \<le> doe - (365 * yoe + yoe div 4 - yoe div 100)"
    unfolding q_def [symmetric] h_def [symmetric]
    using b' c' h' facts by (elim disjE) (simp_all only:)
  show "doe - (365 * yoe + yoe div 4 - yoe div 100) \<le> 365"
    unfolding q_def [symmetric] h_def [symmetric]
    using b' c' h' facts by (elim disjE) (simp_all only:)
qed

lemma civil_of_date_fields:
  assumes "civil_of_date d = (y, m, day)"
  shows "1 \<le> m" "m \<le> 12" "1 \<le> day" "day \<le> 31" "date_of_civil y m day = d"
proof -
  define z where "z = d + 719468"
  define era where "era = z div 146097"
  define doe where "doe = z mod 146097"
  define yoe where "yoe = (doe - doe div 1460 + doe div 36524 - doe div 146096) div 365"
  define doy where "doy = doe - (365 * yoe + yoe div 4 - yoe div 100)"
  define mp where "mp = (5 * doy + 2) div 153"
  have doe: "0 \<le> doe" "doe < 146097" by (simp_all add: doe_def)
  note year = civil_year_of_era [OF doe, folded yoe_def, folded doy_def]
  have mp: "0 \<le> mp" "mp \<le> 11" "153 * mp \<le> 5 * doy + 2" "5 * doy + 2 < 153 * mp + 153"
    using year unfolding mp_def by linarith+
  have civ: "civil_of_date d = (yoe + era * 400 + (if (if mp < 10 then mp + 3 else mp - 9) \<le> 2 then 1 else 0),
      if mp < 10 then mp + 3 else mp - 9, doy - (153 * mp + 2) div 5 + 1)"
    by (simp only: civil_of_date_def Let_def z_def era_def doe_def yoe_def doy_def mp_def)
  have eqs: "m = (if mp < 10 then mp + 3 else mp - 9)" "day = doy - (153 * mp + 2) div 5 + 1"
    "y = yoe + era * 400 + (if m \<le> 2 then 1 else 0)"
    using assms unfolding civ by auto
  show "1 \<le> m" "m \<le> 12" using eqs(1) mp by (auto split: if_splits)
  show "1 \<le> day" "day \<le> 31" using eqs(2) mp by linarith+
  have "(if m > 2 then m - 3 else m + 9) = mp" using eqs(1) mp by auto
  moreover have "(if m \<le> 2 then y - 1 else y) = yoe + era * 400" using eqs(3) by auto
  ultimately have "date_of_civil y m day = era * 146097 + doe - 719468"
    unfolding date_of_civil_def Let_def using year(1,2) eqs(2)
    by (simp add: doy_def)
  then show "date_of_civil y m day = d" unfolding era_def doe_def z_def by simp
qed

text \<open>Ten days either way of such a wall clock is representable, so are all zone offsets.\<close>

lemma checked_add_near:
  assumes "python_year w" "- days 10 \<le> x" "x \<le> days 10"
  shows "checked_add w x = Some (w + x)"
  using python_year_bounds [OF assms(1)] assms(2,3)
  by (simp add: checked_add_def chrono_limits days_def)

lemma civil_examples:
  "civil_of_date (date_of_civil 2026 9 10) = (2026, 9, 10)"
  "date_weekday (date_of_civil 2026 9 10) = Thu"
  "civil_of_date (-719162) = (1, 1, 1)"
  "civil_of_date 2932896 = (9999, 12, 31)"
  by code_simp+

end
