(* ===== verification/Zoned.thy ===== *)
theory Zoned
  imports Calendar
begin

text \<open>
  Aware datetimes with v4 zoneinfo semantics (\<open>time/zoned.rs\<close>, and \<open>utc_instant\<close> of
  \<open>schedule/policy.rs\<close>). The zone database is not part of the repository: a zone is a parameter
  of the model, given by its name and by chrono-tz's two look-ups, the offset in force at a UTC
  instant and the offsets a local wall clock can have. What those look-ups promise each other is
  \<open>tz_coherent\<close>, a hypothesis of the lemmas that need it.
\<close>

section \<open>Zones\<close>

text \<open>\<open>MappedLocalTime<FixedOffset>\<close>, offsets in seconds east of UTC.\<close>

datatype mapped_local = Single int | Ambiguous int int | Gap

record tz =
  tz_name :: str
  tz_from_utc :: "instant \<Rightarrow> int"
  tz_from_local :: "wall \<Rightarrow> mapped_local"

definition same_zone :: "tz \<Rightarrow> tz \<Rightarrow> bool" where
  "same_zone a b \<longleftrightarrow> tz_name a = tz_name b"

text \<open>\<open>chrono_tz::UTC\<close>.\<close>

definition utc_zone :: tz where
  "utc_zone = \<lparr>tz_name = lit ''UTC'', tz_from_utc = \<lambda>_. 0, tz_from_local = \<lambda>_. Single 0\<rparr>"

text \<open>
  The contract of \<open>chrono::TimeZone\<close>: the offsets listed for a wall clock are exactly those
  under which it names an instant that has this offset.
\<close>

definition tz_coherent :: "tz \<Rightarrow> bool" where
  "tz_coherent z \<longleftrightarrow> (\<forall>w.
     case tz_from_local z w of
       Single a \<Rightarrow> (\<forall>x. tz_from_utc z (w - seconds x) = x \<longleftrightarrow> x = a)
     | Ambiguous a b \<Rightarrow> (\<forall>x. tz_from_utc z (w - seconds x) = x \<longleftrightarrow> x = a \<or> x = b)
     | Gap \<Rightarrow> (\<forall>x. tz_from_utc z (w - seconds x) \<noteq> x))"

lemma tz_coherent_utc: "tz_coherent utc_zone"
  by (auto simp: tz_coherent_def utc_zone_def)

section \<open>Zoned datetimes\<close>

datatype date_out_of_range = DateOutOfRange

record zoned =
  zd_wall :: wall
  zd_zone :: tz
  zd_fold :: bool

text \<open>Equality ignores the fold.\<close>

definition zoned_eq :: "zoned \<Rightarrow> zoned \<Rightarrow> bool" where
  "zoned_eq a b \<longleftrightarrow> zd_wall a = zd_wall b \<and> same_zone (zd_zone a) (zd_zone b)"

definition zoned_new :: "wall \<Rightarrow> tz \<Rightarrow> date_out_of_range + zoned" where
  "zoned_new w z =
     (if python_year w then Ok \<lparr>zd_wall = w, zd_zone = z, zd_fold = False\<rparr>
      else Err DateOutOfRange)"

text \<open>\<open>local_offsets\<close>: the offsets before and after the transition that makes a wall clock
  ambiguous or skipped.\<close>

definition probe_offset :: "tz \<Rightarrow> wall \<Rightarrow> int \<Rightarrow> int" where
  "probe_offset z w off =
     (case checked_add w (- seconds off) of Some utc \<Rightarrow> tz_from_utc z utc | None \<Rightarrow> off)"

definition local_offsets :: "tz \<Rightarrow> wall \<Rightarrow> int \<times> int" where
  "local_offsets z w =
     (case tz_from_local z w of
        Single off \<Rightarrow> (off, off)
      | Ambiguous a b \<Rightarrow> (if a \<ge> b then (a, b) else (b, a))
      | Gap \<Rightarrow>
          let first = probe_offset z w (tz_from_utc z w);
              second = probe_offset z w first
          in if first \<le> second then (first, second) else (second, first))"

definition from_instant :: "instant \<Rightarrow> tz \<Rightarrow> date_out_of_range + zoned" where
  "from_instant utc z =
     (if \<not> python_year utc then Err DateOutOfRange
      else
        let off = tz_from_utc z utc in
        res_bind (ok_or DateOutOfRange (checked_add utc (seconds off))) (\<lambda>w.
        res_bind (zoned_new w z) (\<lambda>zd.
        let (ahead, behind) = local_offsets z w in
        Ok (zd\<lparr>zd_fold := ahead \<noteq> behind \<and> off = behind\<rparr>))))"

definition zoned_offset :: "zoned \<Rightarrow> int" where
  "zoned_offset zd =
     (let (ahead, behind) = local_offsets (zd_zone zd) (zd_wall zd)
      in if zd_fold zd then behind else ahead)"

text \<open>
  \<open>to_fixed\<close>, read as the instant it denotes: every use in the modelled code converts the
  \<open>DateTime<FixedOffset>\<close> to UTC or compares it, and such values compare by instant.
\<close>

definition to_fixed :: "zoned \<Rightarrow> instant" where
  "to_fixed zd = zd_wall zd - seconds (zoned_offset zd)"

text \<open>
  The types that implement \<open>AwareDateTime\<close>: instants, zoned datetimes, and the
  \<open>WeekStart\<close> of \<open>schedule/op.rs\<close> (its UTC instant and its possibly failed guild-zone view).
\<close>

record week_start =
  ws_instant :: instant
  ws_zoned :: "date_out_of_range + zoned"

datatype aware = AtInstant instant | AtZoned zoned | AtWeek week_start

definition zoned_astimezone :: "zoned \<Rightarrow> tz \<Rightarrow> date_out_of_range + zoned" where
  "zoned_astimezone zd z =
     (if same_zone (zd_zone zd) z then Ok zd else from_instant (to_fixed zd) z)"

fun astimezone :: "aware \<Rightarrow> tz \<Rightarrow> date_out_of_range + zoned" where
  "astimezone (AtInstant at) z = from_instant at z"
| "astimezone (AtZoned zd) z = zoned_astimezone zd z"
| "astimezone (AtWeek w) z = res_bind (ws_zoned w) (\<lambda>zd. zoned_astimezone zd z)"

definition utc_instant :: "aware \<Rightarrow> date_out_of_range + instant" where
  "utc_instant at = res_bind (astimezone at utc_zone) (\<lambda>zd. Ok (to_fixed zd))"

definition week_start_new :: "aware \<Rightarrow> tz \<Rightarrow> date_out_of_range + week_start" where
  "week_start_new week z =
     res_bind (utc_instant week) (\<lambda>i. Ok \<lparr>ws_instant = i, ws_zoned = astimezone week z\<rparr>)"

section \<open>Round trips\<close>

lemma zoned_new_Ok_iff:
  "zoned_new w z = Ok zd \<longleftrightarrow>
     python_year w \<and> zd = \<lparr>zd_wall = w, zd_zone = z, zd_fold = False\<rparr>"
  by (auto simp: zoned_new_def)

lemma zoned_new_wall [dest]: "zoned_new w z = Ok zd \<Longrightarrow> zd_wall zd = w \<and> zd_zone zd = z \<and> \<not> zd_fold zd"
  by (simp add: zoned_new_Ok_iff)

text \<open>Where a conversion lands: the instant plus the offset in force, with the fold telling
  the second pass through a repeated hour.\<close>

lemma from_instant_Ok:
  assumes "from_instant i z = Ok zd"
  shows "zd_zone zd = z" "zd_wall zd = i + seconds (tz_from_utc z i)" "python_year (zd_wall zd)"
    "zd_fold zd \<longleftrightarrow> fst (local_offsets z (zd_wall zd)) \<noteq> snd (local_offsets z (zd_wall zd))
       \<and> tz_from_utc z i = snd (local_offsets z (zd_wall zd))"
  using assms
  by (auto simp: from_instant_def Let_def res_bind_Ok_iff zoned_new_Ok_iff checked_add_def
      split: if_splits prod.splits)

lemma local_offsets_has_offset:
  assumes coh: "tz_coherent z" and o: "tz_from_utc z i = off"
  shows "off = fst (local_offsets z (i + seconds off)) \<or> off = snd (local_offsets z (i + seconds off))"
proof -
  let ?w = "i + seconds off"
  have hit: "tz_from_utc z (?w - seconds off) = off" using o by simp
  have law: "case tz_from_local z ?w of
       Single a \<Rightarrow> (\<forall>x. tz_from_utc z (?w - seconds x) = x \<longleftrightarrow> x = a)
     | Ambiguous a b \<Rightarrow> (\<forall>x. tz_from_utc z (?w - seconds x) = x \<longleftrightarrow> x = a \<or> x = b)
     | Gap \<Rightarrow> (\<forall>x. tz_from_utc z (?w - seconds x) \<noteq> x)"
    using coh unfolding tz_coherent_def by (rule spec)
  show ?thesis
  proof (cases "tz_from_local z ?w")
    case (Single a)
    then have "\<forall>x. tz_from_utc z (?w - seconds x) = x \<longleftrightarrow> x = a" using law by simp
    then have "off = a" using hit by blast
    moreover have "local_offsets z ?w = (a, a)" by (simp add: local_offsets_def Single)
    ultimately show ?thesis by simp
  next
    case (Ambiguous a b)
    then have "\<forall>x. tz_from_utc z (?w - seconds x) = x \<longleftrightarrow> x = a \<or> x = b" using law by simp
    then have "off = a \<or> off = b" using hit by blast
    moreover have "local_offsets z ?w = (a, b) \<or> local_offsets z ?w = (b, a)"
      by (simp add: local_offsets_def Ambiguous)
    ultimately show ?thesis by fastforce
  next
    case Gap
    then have "\<forall>x. tz_from_utc z (?w - seconds x) \<noteq> x" using law by simp
    then show ?thesis using hit by blast
  qed
qed

lemma from_instant_roundtrip:
  assumes coh: "tz_coherent z" and ok: "from_instant i z = Ok zd"
  shows "to_fixed zd = i"
proof -
  note f = from_instant_Ok [OF ok]
  let ?off = "tz_from_utc z i"
  have "?off = fst (local_offsets z (zd_wall zd)) \<or> ?off = snd (local_offsets z (zd_wall zd))"
    using local_offsets_has_offset [OF coh refl] f(2) by simp
  then have "zoned_offset zd = ?off"
    using f(1,4) by (auto simp: zoned_offset_def split: prod.splits)
  then show ?thesis using f(2) by (simp add: to_fixed_def)
qed

text \<open>UTC needs no coherence hypothesis.\<close>

lemma utc_instant_AtInstant:
  "utc_instant (AtInstant i) = (if python_year i then Ok i else Err DateOutOfRange)"
proof (cases "python_year i")
  case True
  then have "checked_add i 0 = Some i" using checked_add_near [of i 0] by (simp add: days_def)
  with True show ?thesis
    by (simp add: utc_instant_def from_instant_def utc_zone_def zoned_new_def seconds_def
        local_offsets_def to_fixed_def zoned_offset_def)
next
  case False
  then show ?thesis by (simp add: utc_instant_def from_instant_def)
qed

end
