(* ===== verification/Pytext.thy ===== *)
theory Pytext
  imports Prelude
begin

text \<open>
  Python string semantics (\<open>pytext.rs\<close>) and row identifiers (\<open>ids.rs\<close>). Characters are
  Unicode scalar values. Full Unicode lowercasing (\<open>str::to_lowercase\<close>) is a table of the
  standard library and a parameter \<open>lower\<close> of the functions that call it.
\<close>

section \<open>Characters\<close>

text \<open>The Unicode property \<open>White_Space\<close> (\<open>char::is_whitespace\<close>) and the category Cc
  (\<open>char::is_control\<close>).\<close>

definition is_whitespace :: "nat \<Rightarrow> bool" where
  "is_whitespace c \<longleftrightarrow>
     9 \<le> c \<and> c \<le> 13 \<or> c = 32 \<or> c = 133 \<or> c = 160 \<or> c = 5760 \<or> 8192 \<le> c \<and> c \<le> 8202 \<or>
     c = 8232 \<or> c = 8233 \<or> c = 8239 \<or> c = 8287 \<or> c = 12288"

definition is_control :: "nat \<Rightarrow> bool" where
  "is_control c \<longleftrightarrow> c \<le> 31 \<or> 127 \<le> c \<and> c \<le> 159"

definition is_space :: "nat \<Rightarrow> bool" where
  "is_space c \<longleftrightarrow> is_whitespace c \<or> 28 \<le> c \<and> c \<le> 31"

definition strip :: "str \<Rightarrow> str" where
  "strip s = rev (dropWhile is_space (rev (dropWhile is_space s)))"

fun split_on :: "(nat \<Rightarrow> bool) \<Rightarrow> str \<Rightarrow> str \<Rightarrow> str list" where
  "split_on p acc [] = [rev acc]"
| "split_on p acc (c # cs) =
     (if p c then rev acc # split_on p [] cs else split_on p (c # acc) cs)"

definition split_whitespace :: "str \<Rightarrow> str list" where
  "split_whitespace s = filter (\<lambda>word. word \<noteq> []) (split_on is_space [] s)"

definition decimal_zeros :: "nat list" where
  "decimal_zeros =
     [0x30, 0x660, 0x6f0, 0x7c0, 0x966, 0x9e6, 0xa66, 0xae6, 0xb66, 0xbe6, 0xc66, 0xce6, 0xd66,
      0xde6, 0xe50, 0xed0, 0xf20, 0x1040, 0x1090, 0x17e0, 0x1810, 0x1946, 0x19d0, 0x1a80, 0x1a90,
      0x1b50, 0x1bb0, 0x1c40, 0x1c50, 0xa620, 0xa8d0, 0xa900, 0xa9d0, 0xa9f0, 0xaa50, 0xabf0, 0xff10,
      0x104a0, 0x10d30, 0x11066, 0x110f0, 0x11136, 0x111d0, 0x112f0, 0x11450, 0x114d0, 0x11650,
      0x116c0, 0x11730, 0x118e0, 0x11950, 0x11c50, 0x11d50, 0x11da0, 0x11f50, 0x16a60, 0x16ac0,
      0x16b50, 0x1d7ce, 0x1d7d8, 0x1d7e2, 0x1d7ec, 0x1d7f6, 0x1e140, 0x1e2f0, 0x1e4f0, 0x1e950,
      0x1fbf0]"

text \<open>The run is the last zero at or below the code point (\<open>partition_point\<close> minus one).\<close>

definition decimal :: "nat \<Rightarrow> nat option" where
  "decimal c =
     (case rev (takeWhile (\<lambda>zero. zero \<le> c) decimal_zeros) of
        [] \<Rightarrow> None
      | zero # _ \<Rightarrow> (if c - zero < 10 then Some (c - zero) else None))"

definition digit_only :: "(nat \<times> nat) list" where
  "digit_only =
     [(0xb2, 0xb3), (0xb9, 0xb9), (0x1369, 0x1371), (0x19da, 0x19da), (0x2070, 0x2070),
      (0x2074, 0x2079), (0x2080, 0x2089), (0x2460, 0x2468), (0x2474, 0x247c), (0x2488, 0x2490),
      (0x24ea, 0x24ea), (0x24f5, 0x24fd), (0x24ff, 0x24ff), (0x2776, 0x277e), (0x2780, 0x2788),
      (0x278a, 0x2792), (0x10a40, 0x10a43), (0x10e60, 0x10e68), (0x11052, 0x1105a),
      (0x1f100, 0x1f10a)]"

definition is_digit :: "nat \<Rightarrow> bool" where
  "is_digit c \<longleftrightarrow> decimal c \<noteq> None \<or> list_ex (\<lambda>(low, high). low \<le> c \<and> c \<le> high) digit_only"

lemma decimal_lt_10: "decimal c = Some d \<Longrightarrow> d < 10"
  by (auto simp: decimal_def split: list.splits if_splits)

lemma decimal_ascii: "d < 10 \<Longrightarrow> decimal (48 + d) = Some d"
  by (simp add: decimal_def decimal_zeros_def)

section \<open>repr\<close>

text \<open>\<open>{n:0wx}\<close> for a code point that fits \<open>w\<close> hexadecimal digits.\<close>

definition hex_digit :: "nat \<Rightarrow> nat" where
  "hex_digit d = (if d < 10 then 48 + d else 87 + d)"

fun hex_fixed :: "nat \<Rightarrow> nat \<Rightarrow> str" where
  "hex_fixed 0 n = []"
| "hex_fixed (Suc w) n = hex_fixed w (n div 16) @ [hex_digit (n mod 16)]"

definition is_printable :: "nat \<Rightarrow> bool" where
  "is_printable c =
     (if c = 32 then True
      else if is_control c \<or> is_space c then False
      else \<not> (c = 0xad \<or> 0x600 \<le> c \<and> c \<le> 0x605 \<or> c = 0x61c \<or> c = 0x6dd \<or> c = 0x70f \<or>
              c = 0x180e \<or> 0x200b \<le> c \<and> c \<le> 0x200f \<or> 0x202a \<le> c \<and> c \<le> 0x202e \<or>
              0x2060 \<le> c \<and> c \<le> 0x2064 \<or> 0x2066 \<le> c \<and> c \<le> 0x206f \<or>
              0xe000 \<le> c \<and> c \<le> 0xf8ff \<or> c = 0xfeff \<or> 0xfff9 \<le> c \<and> c \<le> 0xfffb \<or>
              0xf0000 \<le> c))"

definition repr_quote :: "str \<Rightarrow> nat" where
  "repr_quote s = (if contains s 39 \<and> \<not> contains s 34 then 34 else 39)"

definition repr_char :: "nat \<Rightarrow> nat \<Rightarrow> str" where
  "repr_char quote c =
     (if c = 92 then [92, 92]
      else if c = 9 then [92, 116]
      else if c = 10 then [92, 110]
      else if c = 13 then [92, 114]
      else if c = quote then [92, c]
      else if is_printable c then [c]
      else if c \<le> 0xff then [92, 120] @ hex_fixed 2 c
      else if c \<le> 0xffff then [92, 117] @ hex_fixed 4 c
      else [92, 85] @ hex_fixed 8 c)"

definition repr :: "str \<Rightarrow> str" where
  "repr s = [repr_quote s] @ concat (map (repr_char (repr_quote s)) s) @ [repr_quote s]"

fun join :: "str \<Rightarrow> str list \<Rightarrow> str" where
  "join sep [] = []"
| "join sep [x] = x"
| "join sep (x # y # xs) = x @ sep @ join sep (y # xs)"

definition list_repr :: "str list \<Rightarrow> str" where
  "list_repr items = lit ''['' @ join (lit '', '') (map repr items) @ lit '']''"

lemma repr_examples:
  "repr (lit ''caturday'') = [39] @ lit ''caturday'' @ [39]"
  "repr [105, 116, 39, 115] = [34, 105, 116, 39, 115, 34]"
  "repr [39, 34] = [39, 92, 39, 34, 39]"
  by (simp_all add: repr_def repr_quote_def repr_char_def is_printable_def is_control_def
      is_space_def is_whitespace_def lit_def)

section \<open>Identifiers\<close>

definition min_prefix :: nat where
  "min_prefix = 4"

definition short_length :: nat where
  "short_length = 8"

datatype id_error =
    TooShort str
  | NotFound str
  | AmbiguousId str "str list"

definition canonical :: "(str \<Rightarrow> str) \<Rightarrow> str \<Rightarrow> str" where
  "canonical lower value =
     lower (filter (\<lambda>c. c \<noteq> 45) (dropWhile (\<lambda>c. c = 35) (strip value)))"

definition short_id :: "(str \<Rightarrow> str) \<Rightarrow> str \<Rightarrow> str" where
  "short_id lower value = take short_length (canonical lower value)"

definition tag :: "(str \<Rightarrow> str) \<Rightarrow> str \<Rightarrow> str" where
  "tag lower value = lit ''#'' @ short_id lower value"

definition starts_with :: "str \<Rightarrow> str \<Rightarrow> bool" where
  "starts_with s p \<longleftrightarrow> take (length p) s = p"

text \<open>The loop over the candidates: an exact match returns at once, the prefix matches are
  collected in order.\<close>

fun match_ids :: "(str \<Rightarrow> str) \<Rightarrow> str \<Rightarrow> str list \<Rightarrow> str list \<Rightarrow> str + str list" where
  "match_ids lower prefix matches [] = Inr matches"
| "match_ids lower prefix matches (c # cs) =
     (if canonical lower c = prefix then Inl c
      else match_ids lower prefix
        (if starts_with (canonical lower c) prefix then matches @ [c] else matches) cs)"

definition resolve_id :: "(str \<Rightarrow> str) \<Rightarrow> str \<Rightarrow> str list \<Rightarrow> id_error + str" where
  "resolve_id lower txt candidates =
     (let prefix = canonical lower txt in
      if length prefix < min_prefix then Err (TooShort txt)
      else
        case match_ids lower prefix [] candidates of
          Inl exact \<Rightarrow> Ok exact
        | Inr matches \<Rightarrow>
            (case matches of
               [] \<Rightarrow> Err (NotFound txt)
             | [only] \<Rightarrow> Ok only
             | _ \<Rightarrow> Err (AmbiguousId txt matches)))"

subsection \<open>Resolution\<close>

lemma match_ids_eq:
  "match_ids lower p ms cs =
     (case find (\<lambda>c. canonical lower c = p) cs of
        Some c \<Rightarrow> Inl c
      | None \<Rightarrow> Inr (ms @ filter (\<lambda>c. starts_with (canonical lower c) p) cs))"
  by (induction cs arbitrary: ms) (auto split: option.splits)

text \<open>The reference reading of \<open>resolve_id\<close>: the exact match if there is one, else the only
  candidate with the prefix.\<close>

definition id_spec :: "(str \<Rightarrow> str) \<Rightarrow> str \<Rightarrow> str list \<Rightarrow> id_error + str" where
  "id_spec lower txt cs =
     (let p = canonical lower txt; ms = filter (\<lambda>c. starts_with (canonical lower c) p) cs in
      if length p < 4 then Err (TooShort txt)
      else if \<exists>c \<in> set cs. canonical lower c = p
        then Ok (hd (filter (\<lambda>c. canonical lower c = p) cs))
      else if ms = [] then Err (NotFound txt)
      else if length ms = 1 then Ok (hd ms)
      else Err (AmbiguousId txt ms))"

lemma find_filter: "find p xs = (if \<exists>x \<in> set xs. p x then Some (hd (filter p xs)) else None)"
  by (induction xs) auto

text \<open>C36. Resolving an id a person typed: too short a prefix is refused, an exact match wins
  over longer ids with that prefix, a unique prefix is resolved, an ambiguous or unknown one is
  refused with the candidates it matched.\<close>

theorem resolve_id_meets_spec: "resolve_id lower txt cs = id_spec lower txt cs"
proof -
  let ?p = "canonical lower txt"
  let ?ms = "filter (\<lambda>c. starts_with (canonical lower c) ?p) cs"
  have "(case ?ms of [] \<Rightarrow> Err (NotFound txt) | [only] \<Rightarrow> Ok only | _ \<Rightarrow> Err (AmbiguousId txt ?ms)) =
    (if ?ms = [] then Err (NotFound txt) else if length ?ms = 1 then Ok (hd ?ms)
     else Err (AmbiguousId txt ?ms))"
    by (cases ?ms rule: list.exhaust; cases "tl ?ms") (auto split: list.splits)
  then show ?thesis
    unfolding resolve_id_def id_spec_def Let_def match_ids_eq find_filter min_prefix_def
    by simp
qed

end
