(* ===== verification/Weeks.thy ===== *)
theory Weeks
  imports Zoned Pytext
begin

text \<open>
  Boss weeks and calendar weeks (\<open>weeks/boundaries.rs\<close>) and the weekday and clock-time inputs
  people type (\<open>weeks/parse.rs\<close>). Week arithmetic is on wall clocks, so a change of offset
  inside a week moves no boundary.
\<close>

section \<open>Boundaries\<close>

definition days_after :: "weekday \<Rightarrow> weekday \<Rightarrow> int" where
  "days_after from to =
     int ((7 + num_days_from_monday to - num_days_from_monday from) mod 7)"

definition shift_days :: "wall \<Rightarrow> int \<Rightarrow> date_out_of_range + wall" where
  "shift_days w n = ok_or DateOutOfRange (checked_add w (days n))"

definition week_start :: "aware \<Rightarrow> tz \<Rightarrow> weekday \<Rightarrow> clock \<Rightarrow> date_out_of_range + zoned" where
  "week_start at zone reset_weekday reset_time =
     res_bind (astimezone at zone) (\<lambda>zd.
     let local = zd_wall zd;
         back = days_after reset_weekday (wall_weekday local)
     in res_bind (shift_days (and_time (wall_date local) reset_time) (- back)) (\<lambda>candidate.
        res_bind (if candidate > local then shift_days candidate (-7) else Ok candidate)
          (\<lambda>candidate. zoned_new candidate zone)))"

definition week_end :: "aware \<Rightarrow> tz \<Rightarrow> date_out_of_range + zoned" where
  "week_end start zone =
     res_bind (astimezone start zone) (\<lambda>zd.
     res_bind (shift_days (zd_wall zd) 7) (\<lambda>w. zoned_new w zone))"

definition materialised_week_starts ::
  "tz \<Rightarrow> weekday \<Rightarrow> clock \<Rightarrow> aware \<Rightarrow> date_out_of_range + zoned list" where
  "materialised_week_starts zone reset_weekday reset_time now =
     res_bind (week_start now zone reset_weekday reset_time) (\<lambda>current.
     res_bind (week_end (AtZoned current) zone) (\<lambda>following.
     res_bind (week_end (AtZoned following) zone) (\<lambda>third.
     Ok [current, following, third])))"

definition calendar_week_start :: "aware \<Rightarrow> tz \<Rightarrow> date_out_of_range + zoned" where
  "calendar_week_start at zone =
     res_bind (astimezone at zone) (\<lambda>zd.
     let local = zd_wall zd;
         back = int (num_days_from_monday (wall_weekday local))
     in res_bind (shift_days (and_time (wall_date local) midnight) (- back))
          (\<lambda>w. zoned_new w zone))"

definition calendar_week_end :: "aware \<Rightarrow> tz \<Rightarrow> date_out_of_range + zoned" where
  "calendar_week_end start zone = week_end start zone"

definition slot_in_week ::
  "aware \<Rightarrow> tz \<Rightarrow> weekday \<Rightarrow> clock \<Rightarrow> date_out_of_range + zoned" where
  "slot_in_week start zone day at =
     res_bind (astimezone start zone) (\<lambda>zd.
     let local = zd_wall zd;
         ahead = days_after (wall_weekday local) day
     in res_bind (shift_days (and_time (wall_date local) at) ahead) (\<lambda>candidate.
        res_bind (if candidate < local then shift_days candidate 7 else Ok candidate)
          (\<lambda>candidate. zoned_new candidate zone)))"

section \<open>Input\<close>

definition int_max_str_digits :: nat where
  "int_max_str_digits = 4300"

definition weekdays :: "weekday list" where
  "weekdays = [Mon, Tue, Wed, Thu, Fri, Sat, Sun]"

datatype week_parse_error =
    UnknownWeekday str
  | WeekdayOutOfRange str
  | InvalidTime str
  | InvalidIntLiteral str
  | IntTooLong nat

text \<open>\<open>i64::to_string\<close>.\<close>

definition int_dec :: "int \<Rightarrow> str" where
  "int_dec n = (if n < 0 then lit ''-'' @ dec (nat (- n)) else dec (nat n))"

definition weekday_from_index :: "int \<Rightarrow> week_parse_error + weekday" where
  "weekday_from_index index =
     (if 0 \<le> index \<and> nat index < length weekdays then Ok (weekdays ! nat index)
      else Err (WeekdayOutOfRange (int_dec index)))"

text \<open>Digit values when every character is a decimal digit (\<open>collect::<Option<Vec<_>>>\<close>).\<close>

fun decimal_digits :: "str \<Rightarrow> nat list option" where
  "decimal_digits [] = Some []"
| "decimal_digits (c # cs) =
     (case decimal c of None \<Rightarrow> None | Some d \<Rightarrow> map_option ((#) d) (decimal_digits cs))"

definition number :: "nat list \<Rightarrow> nat" where
  "number digits = foldl (\<lambda>total digit. total * 10 + digit) 0 digits"

definition weekday_word :: "str \<Rightarrow> weekday option" where
  "weekday_word key =
     (if key \<in> set [lit ''mon'', lit ''monday''] then Some Mon
      else if key \<in> set [lit ''tue'', lit ''tuesday''] then Some Tue
      else if key \<in> set [lit ''wed'', lit ''wednesday'', lit ''weds''] then Some Wed
      else if key \<in> set [lit ''thu'', lit ''thursday'', lit ''thurs''] then Some Thu
      else if key \<in> set [lit ''fri'', lit ''friday''] then Some Fri
      else if key \<in> set [lit ''sat'', lit ''saturday''] then Some Sat
      else if key \<in> set [lit ''sun'', lit ''sunday''] then Some Sun
      else None)"

definition parse_weekday :: "(str \<Rightarrow> str) \<Rightarrow> str \<Rightarrow> week_parse_error + weekday" where
  "parse_weekday lower value =
     (let key = lower (strip value) in
      if key \<noteq> [] \<and> list_all is_digit key then
        (case decimal_digits key of
           None \<Rightarrow> Err (InvalidIntLiteral key)
         | Some digits \<Rightarrow>
             if length digits > int_max_str_digits then Err (IntTooLong (length digits))
             else
               (let significant = dropWhile (\<lambda>d. d = 0) digits in
                case significant of
                  [] \<Rightarrow> Ok (weekdays ! 0)
                | [digit] \<Rightarrow>
                    if digit < length weekdays then Ok (weekdays ! digit)
                    else Err (WeekdayOutOfRange (map (\<lambda>d. 48 + d) significant))
                | _ \<Rightarrow> Err (WeekdayOutOfRange (map (\<lambda>d. 48 + d) significant))))
      else ok_or (UnknownWeekday value) (weekday_word key))"

datatype meridiem = Am | Pm

definition ascii_lower :: "str \<Rightarrow> str" where
  "ascii_lower s = map (\<lambda>c. if 65 \<le> c \<and> c \<le> 90 then c + 32 else c) s"

definition meridiem_tail :: "str \<Rightarrow> meridiem option option" where
  "meridiem_tail rest =
     (let suffix = dropWhile is_space rest in
      if suffix = [] then Some None
      else
        (let lowered = ascii_lower suffix in
         if lowered = lit ''am'' \<or> lowered = lit ''a'' then Some (Some Am)
         else if lowered = lit ''pm'' \<or> lowered = lit ''p'' then Some (Some Pm)
         else None))"

text \<open>The minutes after \<open>:\<close> or \<open>.\<close>: exactly two decimal digits, then the tail.\<close>

definition minute_part :: "str \<Rightarrow> (nat \<times> str) option" where
  "minute_part rest =
     (case rest of
        c # t \<Rightarrow>
          (if c = 58 \<or> c = 46 then
             (case t of
                x # y # t' \<Rightarrow>
                  (case (decimal x, decimal y) of
                     (Some tens, Some ones) \<Rightarrow> Some (number [tens, ones], t')
                   | _ \<Rightarrow> None)
              | _ \<Rightarrow> None)
           else Some (0, rest))
      | [] \<Rightarrow> Some (0, rest))"

definition from_hms :: "nat \<Rightarrow> nat \<Rightarrow> clock option" where
  "from_hms h m = (if h < 24 \<and> m < 60 then Some (hours (int h) + minutes (int m)) else None)"

definition parse_hhmm :: "str \<Rightarrow> week_parse_error + clock" where
  "parse_hhmm value =
     (let invalid = InvalidTime value;
          txt = strip value;
          head = takeWhile (\<lambda>c. decimal c \<noteq> None) txt;
          rest = dropWhile (\<lambda>c. decimal c \<noteq> None) txt
      in
      res_bind (ok_or invalid (decimal_digits head)) (\<lambda>digits.
      res_bind
        (if length digits = 3 \<or> length digits = 4 then
           res_bind (ok_or invalid (meridiem_tail rest)) (\<lambda>suffix.
           Ok (number (take (length digits - 2) digits),
               number (drop (length digits - 2) digits), suffix))
         else if length digits = 1 \<or> length digits = 2 then
           res_bind (ok_or invalid (minute_part rest)) (\<lambda>(minute, rest).
           res_bind (ok_or invalid (meridiem_tail rest)) (\<lambda>suffix.
           Ok (number digits, minute, suffix)))
         else Err invalid) (\<lambda>(hour, minute, suffix).
      res_bind
        (case suffix of
           None \<Rightarrow> Ok hour
         | Some m \<Rightarrow>
             if \<not> (1 \<le> hour \<and> hour \<le> 12) then Err invalid
             else if m = Pm \<and> 1 \<le> hour \<and> hour \<le> 11 then Ok (hour + 12)
             else if m = Am \<and> hour = 12 then Ok 0
             else Ok hour) (\<lambda>hour.
      ok_or invalid (from_hms hour minute)))))"

section \<open>Facts\<close>

named_theorems week_defs "definitions of the week arithmetic"

lemmas [week_defs] = week_start_def week_end_def slot_in_week_def shift_days_def

lemma days_after_range [simp]: "0 \<le> days_after a b" "days_after a b < 7"
  by (simp_all add: days_after_def)

lemma days_after_mod:
  "days_after a b = (int (num_days_from_monday b) - int (num_days_from_monday a)) mod 7"
  by (cases a; cases b) (simp_all add: days_after_def)

lemma mod7_forward:
  fixes b d :: int
  assumes "0 \<le> b" "b < 7"
  shows "(d + (b - (d + 3) mod 7) mod 7 + 3) mod 7 = b"
proof -
  have "(d + (b - (d + 3) mod 7) mod 7 + 3) mod 7 = ((b - (d + 3) mod 7) mod 7 + (d + 3)) mod 7"
    by (simp add: algebra_simps)
  also have "\<dots> = b mod 7"
    by (metis mod_add_left_eq mod_diff_right_eq diff_add_cancel)
  finally show ?thesis using assms by simp
qed

lemma mod7_back:
  fixes b d :: int
  assumes "0 \<le> b" "b < 7"
  shows "(d - ((d + 3) mod 7 - b) mod 7 + 3) mod 7 = b"
proof -
  have "(d - ((d + 3) mod 7 - b) mod 7 + 3) mod 7 = ((d + 3) - ((d + 3) mod 7 - b) mod 7) mod 7"
    by (simp add: algebra_simps)
  also have "\<dots> = ((d + 3) - ((d + 3) - b)) mod 7"
    by (metis mod_diff_left_eq mod_diff_right_eq)
  finally show ?thesis using assms by simp
qed

lemma weekday_plus_days_after: "date_weekday (d + days_after (date_weekday d) b) = b"
proof -
  have "int (num_days_from_monday (date_weekday (d + days_after (date_weekday d) b))) =
      int (num_days_from_monday b)"
    unfolding num_days_date_weekday days_after_mod by (rule mod7_forward) simp_all
  then show ?thesis by simp
qed

lemma weekday_minus_days_after: "date_weekday (d - days_after a (date_weekday d)) = a"
proof -
  have "int (num_days_from_monday (date_weekday (d - days_after a (date_weekday d)))) =
      int (num_days_from_monday a)"
    unfolding num_days_date_weekday days_after_mod by (rule mod7_back) simp_all
  then show ?thesis by simp
qed

lemma shift_days_Ok_iff: "shift_days w n = Ok v \<longleftrightarrow> checked_add w (days n) = Some v"
  by (simp add: shift_days_def)

lemma shift_daysD: "shift_days w n = Ok v \<Longrightarrow> v = w + days n"
  by (auto simp: shift_days_Ok_iff dest: checked_add_SomeD)

text \<open>Where a reset or a slot lands, as dates and clocks.\<close>

lemma week_start_Ok:
  assumes clk: "is_clock t" and loc: "astimezone at z = Ok l" and ok: "week_start at z wd t = Ok ws"
  shows "zd_wall ws \<le> zd_wall l" "zd_wall l < zd_wall ws + days 7"
    "wall_weekday (zd_wall ws) = wd" "wall_time (zd_wall ws) = t"
    "zd_zone ws = z" "\<not> zd_fold ws" "python_year (zd_wall ws)"
proof -
  let ?l = "zd_wall l"
  let ?b = "days_after wd (wall_weekday ?l)"
  let ?c = "and_time (wall_date ?l) t + days (- ?b)"
  have new: "zoned_new (if ?c > ?l then ?c + days (-7) else ?c) z = Ok ws"
    using ok loc by (auto simp: week_start_def Let_def res_bind_Ok_iff dest!: shift_daysD split: if_splits)
  then have w: "zd_wall ws = (if ?c > ?l then ?c + days (-7) else ?c)"
    and "zd_zone ws = z" "\<not> zd_fold ws" "python_year (zd_wall ws)"
    by (auto simp: zoned_new_Ok_iff)
  then show "zd_zone ws = z" "\<not> zd_fold ws" "python_year (zd_wall ws)" by simp_all
  have l: "?l = wall_date ?l * 86400000000000 + wall_time ?l" "is_clock (wall_time ?l)"
    using and_time_wall [of ?l] by (simp_all add: and_time_def)
  have b: "0 \<le> ?b" "?b < 7" by simp_all
  have c: "?c = (wall_date ?l - ?b) * 86400000000000 + t"
    by (simp add: and_time_def days_def algebra_simps)
  have dates: "wall_date ?c = wall_date ?l - ?b" "wall_time ?c = t" using clk by simp_all
  have t: "0 \<le> t" "t < 86400000000000" "0 \<le> wall_time ?l" "wall_time ?l < 86400000000000"
    using clk l(2) by (simp_all add: is_clock_def)
  have up: "?c < ?l + days 1" unfolding and_time_def days_def using l(1) b t by linarith
  have dn: "?l < ?c + days 7" unfolding and_time_def days_def using l(1) b t by linarith
  have one: "days 1 \<le> days 7" "days (-7) = - days 7" by (simp_all add: days_def)
  show "zd_wall ws \<le> ?l" using w up one by (auto split: if_splits)
  show "?l < zd_wall ws + days 7" using w dn one by (auto split: if_splits)
  have "wall_date (zd_wall ws) = wall_date ?l - ?b \<or> wall_date (zd_wall ws) = wall_date ?l - ?b - 7"
    using w dates by (simp split: if_splits)
  then have "date_weekday (wall_date (zd_wall ws)) = date_weekday (wall_date ?l - ?b)"
    by (auto simp: date_weekday_eq_iff)
  then show "wall_weekday (zd_wall ws) = wd"
    by (simp add: wall_weekday_def weekday_minus_days_after)
  show "wall_time (zd_wall ws) = t" using w dates by (simp split: if_splits)
qed

lemma slot_in_week_Ok:
  assumes clk: "is_clock t" and loc: "astimezone start z = Ok l"
    and ok: "slot_in_week start z wd t = Ok s"
  shows "zd_wall l \<le> zd_wall s" "zd_wall s < zd_wall l + days 7"
    "wall_weekday (zd_wall s) = wd" "wall_time (zd_wall s) = t"
    "zd_zone s = z" "\<not> zd_fold s" "python_year (zd_wall s)"
proof -
  let ?l = "zd_wall l"
  let ?a = "days_after (wall_weekday ?l) wd"
  let ?c = "and_time (wall_date ?l) t + days ?a"
  have new: "zoned_new (if ?c < ?l then ?c + days 7 else ?c) z = Ok s"
    using ok loc by (auto simp: slot_in_week_def Let_def res_bind_Ok_iff dest!: shift_daysD split: if_splits)
  then have w: "zd_wall s = (if ?c < ?l then ?c + days 7 else ?c)"
    and "zd_zone s = z" "\<not> zd_fold s" "python_year (zd_wall s)"
    by (auto simp: zoned_new_Ok_iff)
  then show "zd_zone s = z" "\<not> zd_fold s" "python_year (zd_wall s)" by simp_all
  have l: "?l = wall_date ?l * 86400000000000 + wall_time ?l" "is_clock (wall_time ?l)"
    using and_time_wall [of ?l] by (simp_all add: and_time_def)
  have a: "0 \<le> ?a" "?a < 7" by simp_all
  have c: "?c = (wall_date ?l + ?a) * 86400000000000 + t"
    by (simp add: and_time_def days_def algebra_simps)
  have dates: "wall_date ?c = wall_date ?l + ?a" "wall_time ?c = t" using clk by simp_all
  have t: "0 \<le> t" "t < 86400000000000" "0 \<le> wall_time ?l" "wall_time ?l < 86400000000000"
    using clk l(2) by (simp_all add: is_clock_def)
  have up: "?c < ?l + days 7" unfolding and_time_def days_def using l(1) a t by linarith
  have dn: "?l < ?c + days 1" unfolding and_time_def days_def using l(1) a t by linarith
  have one: "days 1 \<le> days 7" by (simp add: days_def)
  show "?l \<le> zd_wall s" using w dn one by (auto split: if_splits)
  show "zd_wall s < ?l + days 7" using w up one by (auto split: if_splits)
  have "wall_date (zd_wall s) = wall_date ?l + ?a \<or> wall_date (zd_wall s) = wall_date ?l + ?a + 7"
    using w dates by (simp split: if_splits)
  then have "date_weekday (wall_date (zd_wall s)) = date_weekday (wall_date ?l + ?a)"
    by (auto simp: date_weekday_eq_iff)
  then show "wall_weekday (zd_wall s) = wd"
    by (simp add: wall_weekday_def weekday_plus_days_after)
  show "wall_time (zd_wall s) = t" using w dates by (simp split: if_splits)
qed

text \<open>A wall clock fixes the date once its weekday and its distance are known: two slots of one
  week on the same weekday and clock are the same slot.\<close>

lemma wall_unique_in_week:
  assumes "wall_weekday v = wall_weekday w" "wall_time v = wall_time w"
    "l \<le> v" "v < l + days 7" "l \<le> w" "w < l + days 7"
  shows "v = w"
proof -
  have v: "v = wall_date v * 86400000000000 + wall_time v"
    and w: "w = wall_date w * 86400000000000 + wall_time w"
    using and_time_wall [of v] and_time_wall [of w] by (simp_all add: and_time_def)
  have "(wall_date v - wall_date w) mod 7 = 0"
    using assms(1) by (simp add: wall_weekday_def date_weekday_eq_iff)
  moreover have "\<bar>wall_date v - wall_date w\<bar> < 7"
    using v w assms by (simp add: days_def)
  ultimately have "wall_date v = wall_date w" by presburger
  then show ?thesis using v w assms(2) by simp
qed

lemma astimezone_same_zone: "zd_zone zd = z \<Longrightarrow> astimezone (AtZoned zd) z = Ok zd"
  by (simp add: zoned_astimezone_def same_zone_def)

lemma week_end_Ok:
  assumes "astimezone start z = Ok l" "week_end start z = Ok e"
  shows "zd_wall e = zd_wall l + days 7" "zd_zone e = z" "\<not> zd_fold e"
  using assms by (auto simp: week_end_def res_bind_Ok_iff zoned_new_Ok_iff dest!: shift_daysD)

end
