(* ===== verification/Rows.thy ===== *)
theory Rows
  imports Weeks
begin

text \<open>
  The scheduler's rows and their enumerations (\<open>schedule/run.rs\<close>, \<open>schedule/state.rs\<close>,
  \<open>schedule/error.rs\<close>, the data types of \<open>attendance\<close>, \<open>members.rs\<close> and \<open>ownership\<close>).
  Every \<open>spelled!\<close> enumeration is a datatype with its stored spelling; unsigned counters that
  only identify things are naturals.
\<close>

section \<open>Spelled enumerations\<close>

text \<open>\<open>parse\<close> of the \<open>spelled!\<close> macro: the first variant with that spelling.\<close>

definition spelled_parse :: "'v list \<Rightarrow> ('v \<Rightarrow> str) \<Rightarrow> str \<Rightarrow> 'v option" where
  "spelled_parse all as_str value = find (\<lambda>item. as_str item = value) all"

datatype run_status = Planned | Confirmed | AtRisk | Otot | Done | Cancelled

definition run_statuses :: "run_status list" where
  "run_statuses = [Planned, Confirmed, AtRisk, Otot, Done, Cancelled]"

fun run_status_str :: "run_status \<Rightarrow> str" where
  "run_status_str Planned = lit ''planned''"
| "run_status_str Confirmed = lit ''confirmed''"
| "run_status_str AtRisk = lit ''at_risk''"
| "run_status_str Otot = lit ''otot''"
| "run_status_str Done = lit ''done''"
| "run_status_str Cancelled = lit ''cancelled''"

datatype run_source = FixedSource | Amend

definition run_sources :: "run_source list" where
  "run_sources = [FixedSource, Amend]"

fun run_source_str :: "run_source \<Rightarrow> str" where
  "run_source_str FixedSource = lit ''fixed''"
| "run_source_str Amend = lit ''amend''"

datatype rsvp_state = Yes | No | Maybe

definition rsvp_states :: "rsvp_state list" where
  "rsvp_states = [Yes, No, Maybe]"

fun rsvp_state_str :: "rsvp_state \<Rightarrow> str" where
  "rsvp_state_str Yes = lit ''yes''"
| "rsvp_state_str No = lit ''no''"
| "rsvp_state_str Maybe = lit ''maybe''"

datatype rsvp_source = Reaction | Chat | Slash

definition rsvp_sources :: "rsvp_source list" where
  "rsvp_sources = [Reaction, Chat, Slash]"

fun rsvp_source_str :: "rsvp_source \<Rightarrow> str" where
  "rsvp_source_str Reaction = lit ''reaction''"
| "rsvp_source_str Chat = lit ''chat''"
| "rsvp_source_str Slash = lit ''slash''"

datatype fixed_field =
  OwnerId | ChannelId | Bosses | Weekday | Time | Participants | Note

definition fixed_fields :: "fixed_field list" where
  "fixed_fields = [OwnerId, ChannelId, Bosses, Weekday, Time, Participants, Note]"

fun fixed_field_str :: "fixed_field \<Rightarrow> str" where
  "fixed_field_str OwnerId = lit ''owner_id''"
| "fixed_field_str ChannelId = lit ''channel_id''"
| "fixed_field_str Bosses = lit ''bosses''"
| "fixed_field_str Weekday = lit ''weekday''"
| "fixed_field_str Time = lit ''time''"
| "fixed_field_str Participants = lit ''participants''"
| "fixed_field_str Note = lit ''note''"

definition is_live :: "run_status \<Rightarrow> bool" where
  "is_live s \<longleftrightarrow> s \<in> {Planned, Confirmed, AtRisk, Otot}"

definition is_terminal :: "run_status \<Rightarrow> bool" where
  "is_terminal s \<longleftrightarrow> s \<in> {Done, Cancelled}"

lemma live_simps [simp]:
  "is_live Planned" "is_live Confirmed" "is_live AtRisk" "is_live Otot"
  "\<not> is_live Done" "\<not> is_live Cancelled"
  "is_terminal Done" "is_terminal Cancelled"
  "\<not> is_terminal Planned" "\<not> is_terminal Confirmed" "\<not> is_terminal AtRisk" "\<not> is_terminal Otot"
  by (simp_all add: is_live_def is_terminal_def)

lemma terminal_iff_not_live: "is_terminal s \<longleftrightarrow> \<not> is_live s"
  by (cases s) simp_all

section \<open>Attendance data\<close>

record attendance_policy =
  unknown_window :: delta

text \<open>\<open>AttendancePolicy::V5\<close>, with the default window of 12 hours.\<close>

definition attendance_v5 :: attendance_policy where
  "attendance_v5 = \<lparr>unknown_window = hours 12\<rparr>"

datatype attendance_default = OptIn | AssumeComing

definition attendance_defaults :: "attendance_default list" where
  "attendance_defaults = [OptIn, AssumeComing]"

fun attendance_default_str :: "attendance_default \<Rightarrow> str" where
  "attendance_default_str OptIn = lit ''opt_in''"
| "attendance_default_str AssumeComing = lit ''assume_coming''"

record standing_answer =
  st_user_id :: str
  st_set_by :: str
  st_at :: instant

record attendance_record =
  ar_user_id :: str
  ar_attended :: bool
  ar_recorded_by :: str
  ar_at :: instant

record status_pin =
  pin_status :: run_status
  pin_at :: instant

section \<open>Rows\<close>

record fixed_run =
  f_id :: str
  f_owner_id :: str
  f_channel_id :: "str option"
  f_bosses :: "str list"
  f_weekday :: weekday
  f_time :: clock
  f_participants :: "str list"
  f_note :: "str option"
  f_attendance_default :: attendance_default
  f_standing :: "standing_answer list"
  f_owner_pinned :: bool

definition owner :: "fixed_run \<Rightarrow> str" where
  "owner fixed =
     (case f_participants fixed of
        first # _ \<Rightarrow> if \<not> f_owner_pinned fixed then first else f_owner_id fixed
      | [] \<Rightarrow> f_owner_id fixed)"

record new_fixed_run =
  nf_owner_id :: str
  nf_channel_id :: "str option"
  nf_bosses :: "str list"
  nf_weekday :: weekday
  nf_time :: clock
  nf_participants :: "str list"
  nf_note :: "str option"
  nf_owner_pinned :: bool

record fixed_run_patch =
  p_owner_id :: "str option"
  p_owner_pinned :: "bool option"
  p_channel_id :: "str option"
  p_bosses :: "str list option"
  p_weekday :: "weekday option"
  p_time :: "clock option"
  p_participants :: "str list option"
  p_note :: "str option"

text \<open>\<open>FixedRunPatch::default()\<close>.\<close>

definition empty_patch :: fixed_run_patch where
  "empty_patch =
     \<lparr>p_owner_id = None, p_owner_pinned = None, p_channel_id = None, p_bosses = None,
      p_weekday = None, p_time = None, p_participants = None, p_note = None\<rparr>"

record run =
  r_id :: str
  r_fixed_run_id :: "str option"
  r_channel_id :: "str option"
  r_week_start :: instant
  r_datetime :: instant
  r_bosses :: "str list"
  r_participants :: "str list"
  r_status :: run_status
  r_source :: run_source
  r_attendance :: "attendance_record list"
  r_status_pin :: "status_pin option"

record new_run =
  nr_fixed_run_id :: "str option"
  nr_channel_id :: "str option"
  nr_week_start :: instant
  nr_datetime :: instant
  nr_bosses :: "str list"
  nr_participants :: "str list"
  nr_status :: run_status
  nr_source :: run_source

record rsvp =
  a_run_id :: str
  a_user_id :: str
  a_state :: rsvp_state
  a_source :: rsvp_source
  a_at :: instant

record reminder =
  m_id :: str
  m_run_id :: str
  m_kind :: str
  m_fire_at :: instant
  m_sent_at :: "instant option"
  m_message_id :: "str option"

section \<open>Snapshots and change sets\<close>

record snapshot =
  sn_revision :: nat
  sn_fixed_runs :: "fixed_run list"
  sn_runs :: "run list"
  sn_reminders :: "reminder list"
  sn_rsvps :: "rsvp list"
  sn_unproven_retired :: "str list"

text \<open>The store orders; \<open>sort_by\<close> is stable, as \<open>sort_key\<close> is.\<close>

definition fixed_order :: "fixed_run \<Rightarrow> weekday \<times> clock \<times> str" where
  "fixed_order row = (f_weekday row, f_time row, f_id row)"

definition run_order :: "run \<Rightarrow> instant \<times> str" where
  "run_order row = (r_datetime row, r_id row)"

definition reminder_order :: "reminder \<Rightarrow> str \<times> instant \<times> str" where
  "reminder_order row = (m_run_id row, m_fire_at row, m_kind row)"

definition rsvp_order :: "rsvp \<Rightarrow> str \<times> str" where
  "rsvp_order row = (a_run_id row, a_user_id row)"

definition snapshot_sort :: "snapshot \<Rightarrow> snapshot" where
  "snapshot_sort s =
     s\<lparr>sn_fixed_runs := sort_key fixed_order (sn_fixed_runs s),
       sn_runs := sort_key run_order (sn_runs s),
       sn_reminders := sort_key reminder_order (sn_reminders s),
       sn_rsvps := sort_key rsvp_order (sn_rsvps s)\<rparr>"

datatype change =
    PutFixedRun fixed_run
  | DeleteFixedRun str
  | PutRun run
  | PutReminder reminder
  | DeleteReminder str
  | PutRsvp rsvp
  | DeleteRsvp str str

section \<open>Ownership\<close>

datatype ownership_refusal =
  NotOwner | NotOnParty | AlreadyOwner | Closed | Expired | NotRequester

definition on_party :: "fixed_run \<Rightarrow> str \<Rightarrow> bool" where
  "on_party fixed user \<longleftrightarrow> list_ex (\<lambda>id. id = user) (f_participants fixed)"

definition may_act :: "fixed_run \<Rightarrow> str \<Rightarrow> bool \<Rightarrow> ownership_refusal + unit" where
  "may_act fixed actor staff =
     (if staff \<or> owner fixed = actor then Ok () else Err NotOwner)"

definition hand_off :: "fixed_run \<Rightarrow> str \<Rightarrow> bool \<Rightarrow> str \<Rightarrow> ownership_refusal + unit" where
  "hand_off fixed giver staff to =
     res_bind (may_act fixed giver staff) (\<lambda>_.
     if \<not> on_party fixed to then Err NotOnParty
     else if owner fixed = to then Err AlreadyOwner
     else Ok ())"

definition may_request :: "fixed_run \<Rightarrow> str \<Rightarrow> ownership_refusal + unit" where
  "may_request fixed requester =
     (if \<not> on_party fixed requester then Err NotOnParty
      else if owner fixed = requester then Err AlreadyOwner
      else Ok ())"

datatype owner_pin =
    HandOff (pin_giver: str) (pin_staff: bool) (pin_to: str)
  | Accept (pin_decider: str) (pin_staff: bool) (pin_requester: str)

fun owner_pin_owner :: "owner_pin \<Rightarrow> str" where
  "owner_pin_owner (HandOff giver staff to) = to"
| "owner_pin_owner (Accept decider staff requester) = requester"

fun owner_pin_check :: "owner_pin \<Rightarrow> fixed_run \<Rightarrow> ownership_refusal + unit" where
  "owner_pin_check (HandOff giver staff to) fixed = hand_off fixed giver staff to"
| "owner_pin_check (Accept decider staff requester) fixed =
     res_bind (may_act fixed decider staff) (\<lambda>_. may_request fixed requester)"

datatype owner_request_status =
  ReqOpen | ReqAccepted | ReqDeclined | ReqExpired | ReqWithdrawn | ReqSuperseded

record owner_request =
  or_id :: str
  or_fixed_run_id :: str
  or_requester :: str
  or_channel_id :: "str option"
  or_message_id :: "str option"
  or_created_at :: instant
  or_expires_at :: instant
  or_status :: owner_request_status
  or_decided_by :: "str option"
  or_decided_at :: "instant option"
  or_message_settled :: bool

definition owner_request_ttl :: delta where
  "owner_request_ttl = hours 24"

definition owner_request_open :: "str \<Rightarrow> str \<Rightarrow> str \<Rightarrow> str option \<Rightarrow> instant \<Rightarrow> owner_request" where
  "owner_request_open rid fixed_id requester channel now =
     \<lparr>or_id = rid, or_fixed_run_id = fixed_id, or_requester = requester, or_channel_id = channel,
      or_message_id = None, or_created_at = now, or_expires_at = now + owner_request_ttl,
      or_status = ReqOpen, or_decided_by = None, or_decided_at = None,
      or_message_settled = False\<rparr>"

definition owner_request_live :: "owner_request \<Rightarrow> instant \<Rightarrow> bool" where
  "owner_request_live r now \<longleftrightarrow> or_status r = ReqOpen \<and> now < or_expires_at r"

definition may_decide ::
  "fixed_run \<Rightarrow> owner_request \<Rightarrow> str \<Rightarrow> bool \<Rightarrow> bool \<Rightarrow> instant \<Rightarrow> ownership_refusal + unit" where
  "may_decide fixed request decider staff accept now =
     (if \<not> owner_request_live request now then
        Err (if or_status request = ReqOpen then Expired else Closed)
      else
        res_bind (may_act fixed decider staff) (\<lambda>_.
        if accept then may_request fixed (or_requester request) else Ok ()))"

definition may_withdraw :: "owner_request \<Rightarrow> str \<Rightarrow> instant \<Rightarrow> ownership_refusal + unit" where
  "may_withdraw request member now =
     (if or_requester request \<noteq> member then Err NotRequester
      else if \<not> owner_request_live request now then Err Closed
      else Ok ())"

section \<open>Errors\<close>

datatype member_run_refusal =
  NotInRun | RunClosed | Ended | WeekOver | Started | InThePast

text \<open>May a member write their own run now; the order of the checks is the order of the
  answers.\<close>

definition member_run_check ::
  "run \<Rightarrow> str \<Rightarrow> instant list \<Rightarrow> instant option \<Rightarrow> bool \<Rightarrow> instant \<Rightarrow> member_run_refusal + unit"
where
  "member_run_check run member weeks to ended now =
     (if \<not> list_ex (\<lambda>id. id = member) (r_participants run) then Err NotInRun
      else if is_terminal (r_status run) then Err RunClosed
      else if ended then Err Ended
      else if \<not> contains weeks (r_week_start run) then Err WeekOver
      else if to \<noteq> None \<and> r_datetime run \<le> now then Err Started
      else if (case to of Some t \<Rightarrow> t \<le> now | None \<Rightarrow> False) then Err InThePast
      else Ok ())"

datatype schedule_error =
    UnknownRunStatus str
  | UnknownRunSource str
  | UnknownRsvpState str
  | UnknownRsvpSource str
  | RunMoveConflict
  | UnknownRun str
  | DateError date_out_of_range
  | NotSettable str
  | MoveConflict (mc_week_day: str) (mc_existing_short_id: str) (mc_existing_day: str)
      (mc_existing_time: str)
  | NotOnRun "str list"
  | NotAUserId str
  | NoParticipants
  | RunEmptied
  | NotInRole "str list"
  | BotParticipants "str list"
  | ChannelNotWatched str
  | NothingToChange
  | UnknownFixedRun str
  | NotAFixedRun str
  | FixedRunRetired str
  | RunNotLive (nl_run_id: str) (nl_status: str)
  | SameRunSwap
  | DifferentSwapWeek
  | SwapLeavesWeek
  | ResetSlotPassed (sp_run_id: str) (sp_slot_day: str) (sp_slot_time: str)
  | UnexpectedChoice str
  | MissingChoice str
  | AttendanceMismatch (am_service: attendance_policy) (am_policy: attendance_policy)
  | MemberRun member_run_refusal
  | RunEnded str
  | Ownership ownership_refusal

definition run_status_parse :: "str \<Rightarrow> schedule_error + run_status" where
  "run_status_parse value =
     ok_or (UnknownRunStatus value) (spelled_parse run_statuses run_status_str value)"

definition run_source_parse :: "str \<Rightarrow> schedule_error + run_source" where
  "run_source_parse value =
     ok_or (UnknownRunSource value) (spelled_parse run_sources run_source_str value)"

definition rsvp_state_parse :: "str \<Rightarrow> schedule_error + rsvp_state" where
  "rsvp_state_parse value =
     ok_or (UnknownRsvpState value) (spelled_parse rsvp_states rsvp_state_str value)"

definition rsvp_source_parse :: "str \<Rightarrow> schedule_error + rsvp_source" where
  "rsvp_source_parse value =
     ok_or (UnknownRsvpSource value) (spelled_parse rsvp_sources rsvp_source_str value)"

definition attendance_default_parse :: "str \<Rightarrow> attendance_default option" where
  "attendance_default_parse value =
     spelled_parse attendance_defaults attendance_default_str value"

section \<open>Members\<close>

datatype ping_level = Essential | AllPosts | Off

record member =
  mb_user_id :: str
  mb_display_name :: "str option"
  mb_nickname :: "str option"
  mb_has_role :: bool
  mb_is_bot :: bool
  mb_ping_level :: ping_level

definition default_member :: member where
  "default_member =
     \<lparr>mb_user_id = [], mb_display_name = None, mb_nickname = None, mb_has_role = False,
      mb_is_bot = False, mb_ping_level = Essential\<rparr>"

definition mb_name :: "member \<Rightarrow> str option" where
  "mb_name m =
     find (\<lambda>name. name \<noteq> [])
       (concat (map (\<lambda>x. case x of Some n \<Rightarrow> [n] | None \<Rightarrow> []) [mb_nickname m, mb_display_name m]))"

text \<open>A \<open>Directory\<close>: the two look-ups its implementors supply.\<close>

record directory =
  dir_member :: "str \<Rightarrow> member option"
  dir_is_watched :: "str \<Rightarrow> bool"

definition dir_ping_level :: "directory \<Rightarrow> str \<Rightarrow> ping_level" where
  "dir_ping_level d user =
     (case dir_member d user of None \<Rightarrow> Essential | Some m \<Rightarrow> mb_ping_level m)"

definition member_name :: "(str \<Rightarrow> str) \<Rightarrow> directory \<Rightarrow> str \<Rightarrow> str" where
  "member_name lower d user =
     (case dir_member d user of
        Some m \<Rightarrow> (case mb_name m of Some n \<Rightarrow> n | None \<Rightarrow> user)
      | None \<Rightarrow>
          let short = short_id lower user
          in lit ''user '' @ (if short = [] then user else short))"

section \<open>Spellings round trip\<close>

lemma spelled_parse_str:
  assumes "x \<in> set all" "inj_on as_str (set all)"
  shows "spelled_parse all as_str (as_str x) = Some x"
proof -
  have "find (\<lambda>item. as_str item = as_str x) all = find (\<lambda>item. item = x) all"
    using assms by (intro find_cong_all) (auto dest: inj_onD)
  also have "\<dots> = Some x" using assms(1) by (induction all) auto
  finally show ?thesis by (simp add: spelled_parse_def)
qed

lemma spelled_parse_only: "spelled_parse all as_str v = Some x \<Longrightarrow> as_str x = v"
  by (auto simp: spelled_parse_def dest: find_Some_in)

lemma run_status_str_inj [simp]: "run_status_str a = run_status_str b \<longleftrightarrow> a = b"
  by (cases a; cases b) (simp_all add: lit_def)

lemma rsvp_state_str_inj [simp]: "rsvp_state_str a = rsvp_state_str b \<longleftrightarrow> a = b"
  by (cases a; cases b) (simp_all add: lit_def)

lemma rsvp_source_str_inj [simp]: "rsvp_source_str a = rsvp_source_str b \<longleftrightarrow> a = b"
  by (cases a; cases b) (simp_all add: lit_def)

lemma run_source_str_inj [simp]: "run_source_str a = run_source_str b \<longleftrightarrow> a = b"
  by (cases a; cases b) (simp_all add: lit_def)

lemma fixed_field_str_inj [simp]: "fixed_field_str a = fixed_field_str b \<longleftrightarrow> a = b"
  by (cases a; cases b) (simp_all add: lit_def)

lemma in_run_statuses [simp]: "s \<in> set run_statuses"
  by (cases s) (simp_all add: run_statuses_def)

lemma in_rsvp_states [simp]: "s \<in> set rsvp_states"
  by (cases s) (simp_all add: rsvp_states_def)

lemma in_rsvp_sources [simp]: "s \<in> set rsvp_sources"
  by (cases s) (simp_all add: rsvp_sources_def)

lemma in_run_sources [simp]: "s \<in> set run_sources"
  by (cases s) (simp_all add: run_sources_def)

text \<open>Every stored spelling of a row's enumerations reads back as the variant it was written
  from, and a spelling that parses is the variant's own: nothing is stored that cannot be read,
  and no two variants share a text.\<close>

theorem stored_spellings_round_trip:
  "run_status_parse (run_status_str s) = Ok s \<and>
   rsvp_state_parse (rsvp_state_str a) = Ok a \<and>
   rsvp_source_parse (rsvp_source_str b) = Ok b \<and>
   run_source_parse (run_source_str c) = Ok c \<and>
   (run_status_parse v = Ok s' \<longleftrightarrow> v = run_status_str s')"
  by (auto simp: run_status_parse_def rsvp_state_parse_def rsvp_source_parse_def
      run_source_parse_def spelled_parse_str inj_on_def dest: spelled_parse_only)

end
