(* ===== verification/Tables.thy ===== *)
theory Tables
  imports Prelude
begin

text \<open>
  \<open>BTreeMap\<close> and \<open>BTreeSet\<close>: association lists kept in key order, so that iteration is in key order
  as in the source. The interface the drafts rely on is the locale \<open>ordered_map\<close>; its client
  lemmas (rows keyed by themselves, the difference of two maps) are proved once inside it and
  interpreted on the lists.
\<close>

section \<open>Ordered association lists\<close>

type_synonym ('k, 'v) table = "('k \<times> 'v) list"

definition t_get :: "('k, 'v) table \<Rightarrow> 'k \<Rightarrow> 'v option" where
  "t_get t k = map_of t k"

fun t_insert :: "'k::linorder \<Rightarrow> 'v \<Rightarrow> ('k, 'v) table \<Rightarrow> ('k, 'v) table" where
  "t_insert k v [] = [(k, v)]"
| "t_insert k v ((k', v') # t) =
     (if k < k' then (k, v) # (k', v') # t
      else if k = k' then (k, v) # t
      else (k', v') # t_insert k v t)"

definition t_remove :: "'k \<Rightarrow> ('k, 'v) table \<Rightarrow> ('k, 'v) table" where
  "t_remove k t = filter (\<lambda>(k', _). k' \<noteq> k) t"

text \<open>\<open>get_mut\<close> followed by an assignment through it.\<close>

definition t_modify :: "'k \<Rightarrow> ('v \<Rightarrow> 'v) \<Rightarrow> ('k, 'v) table \<Rightarrow> ('k, 'v) table" where
  "t_modify k f t = map (\<lambda>(k', v). (k', if k' = k then f v else v)) t"

definition t_retain :: "('v \<Rightarrow> bool) \<Rightarrow> ('k, 'v) table \<Rightarrow> ('k, 'v) table" where
  "t_retain p t = filter (\<lambda>(_, v). p v) t"

definition t_has :: "('k, 'v) table \<Rightarrow> 'k \<Rightarrow> bool" where
  "t_has t k \<longleftrightarrow> t_get t k \<noteq> None"

definition t_keys :: "('k, 'v) table \<Rightarrow> 'k list" where
  "t_keys t = map fst t"

definition t_values :: "('k, 'v) table \<Rightarrow> 'v list" where
  "t_values t = map snd t"

text \<open>\<open>collect\<close>: a later entry of the same key wins.\<close>

definition t_collect :: "('k::linorder \<times> 'v) list \<Rightarrow> ('k, 'v) table" where
  "t_collect xs = fold (\<lambda>(k, v) t. t_insert k v t) xs []"

definition t_ok :: "('k::linorder, 'v) table \<Rightarrow> bool" where
  "t_ok t \<longleftrightarrow> sorted_wrt (<) (map fst t)"

section \<open>Facts of the lists\<close>

named_theorems table_simps "lookups after updates"

lemma t_get_insert [simp, table_simps]:
  "t_get (t_insert k v t) k' = (if k' = k then Some v else t_get t k')"
  by (induction t rule: t_insert.induct [of _ k v, case_names nil cons])
    (auto simp: t_get_def)

lemma t_get_Nil [simp]: "t_get [] k = None"
  by (simp add: t_get_def)

lemma t_get_remove [simp, table_simps]:
  "t_get (t_remove k t) k' = (if k' = k then None else t_get t k')"
  by (induction t) (auto simp: t_get_def t_remove_def)

lemma t_get_modify [simp, table_simps]:
  "t_get (t_modify k f t) k' = (if k' = k then map_option f (t_get t k') else t_get t k')"
  by (induction t) (auto simp: t_get_def t_modify_def)

lemma set_keys_insert [simp]: "fst ` set (t_insert k v t) = insert k (fst ` set t)"
  by (induction t rule: t_insert.induct [of _ k v, case_names nil cons]) auto

lemma t_ok_Nil [simp]: "t_ok []"
  by (simp add: t_ok_def)

lemma t_ok_insert [simp]: "t_ok t \<Longrightarrow> t_ok (t_insert k v t)"
proof (induction t)
  case (Cons e t)
  obtain k' v' where e: "e = (k', v')" by (cases e)
  show ?case
  proof (cases "k < k' \<or> k = k'")
    case True
    then show ?thesis using Cons.prems e by (force simp: t_ok_def)
  next
    case False
    then have "k' < k" by auto
    moreover have "t_ok (t_insert k v t)" using Cons e by (simp add: t_ok_def)
    moreover have "\<forall>x \<in> fst ` set t. k' < x" using Cons.prems e by (simp add: t_ok_def)
    ultimately have "\<forall>x \<in> fst ` set (t_insert k v t). k' < x" by simp
    then show ?thesis
      using False e \<open>t_ok (t_insert k v t)\<close> by (simp add: t_ok_def)
  qed
qed (simp add: t_ok_def)

lemma sorted_wrt_map_fst_filter:
  "sorted_wrt (<) (map fst t) \<Longrightarrow> sorted_wrt (<) (map fst (filter p t))"
  by (induction t) auto

lemma t_ok_remove [simp]: "t_ok t \<Longrightarrow> t_ok (t_remove k t)"
  by (simp add: t_ok_def t_remove_def sorted_wrt_map_fst_filter)

lemma t_ok_retain [simp]: "t_ok t \<Longrightarrow> t_ok (t_retain p t)"
  by (simp add: t_ok_def t_retain_def sorted_wrt_map_fst_filter)

lemma map_fst_modify [simp]: "map fst (t_modify k f t) = map fst t"
  by (induction t) (auto simp: t_modify_def)

lemma t_ok_modify [simp]: "t_ok (t_modify k f t) = t_ok t"
  by (simp add: t_ok_def)

lemma t_ok_distinct: "t_ok t \<Longrightarrow> distinct (map fst t)"
  by (simp add: t_ok_def strict_sorted_iff)

lemma t_get_iff_in: "t_ok t \<Longrightarrow> (k, v) \<in> set t \<longleftrightarrow> t_get t k = Some v"
  by (simp add: t_get_def t_ok_distinct map_of_eq_Some_iff)

lemma t_get_in: "t_get t k = Some v \<Longrightarrow> (k, v) \<in> set t"
  by (simp add: t_get_def map_of_SomeD)

lemma t_get_values: "t_get t k = Some v \<Longrightarrow> v \<in> set (t_values t)"
  by (auto simp: t_values_def dest!: t_get_in intro: rev_image_eqI)

lemma in_t_values: "t_ok t \<Longrightarrow> v \<in> set (t_values t) \<longleftrightarrow> (\<exists>k. t_get t k = Some v)"
  by (force simp: t_values_def t_get_iff_in [symmetric] image_iff)

lemma t_get_retain [table_simps]:
  "t_ok t \<Longrightarrow> t_get (t_retain p t) k =
     (case t_get t k of Some v \<Rightarrow> if p v then Some v else None | None \<Rightarrow> None)"
proof -
  assume ok: "t_ok t"
  have "t_get (t_retain p t) k = Some v \<longleftrightarrow> t_get t k = Some v \<and> p v" for v
    using t_get_iff_in [OF t_ok_retain [OF ok], of k v p] t_get_iff_in [OF ok, of k v]
    by (auto simp: t_retain_def)
  then show ?thesis by (intro option_iffI) (auto split: option.splits)
qed

lemma t_get_retain_SomeD: "t_ok t \<Longrightarrow> t_get (t_retain p t) k = Some v \<Longrightarrow> t_get t k = Some v \<and> p v"
  by (simp add: t_get_retain split: option.splits if_splits)

lemma t_has_iff: "t_has t k \<longleftrightarrow> k \<in> set (t_keys t)"
  by (simp add: t_has_def t_get_def t_keys_def map_of_eq_None_iff)

lemma t_ok_ext:
  assumes "t_ok s" "t_ok t" "\<And>k. t_get s k = t_get t k"
  shows "s = t"
proof -
  have set: "set s = set t"
    using t_get_iff_in [OF assms(1)] t_get_iff_in [OF assms(2)] assms(3) by auto
  have "inj_on fst (set s)" using t_ok_distinct [OF assms(1)] by (simp add: distinct_map)
  then show ?thesis
    using set assms(1,2) t_ok_distinct [OF assms(1)] t_ok_distinct [OF assms(2)]
    by (intro map_sorted_distinct_set_unique [of fst]) (auto simp: t_ok_def strict_sorted_iff)
qed

lemma t_ok_fold_insert: "t_ok t \<Longrightarrow> t_ok (fold (\<lambda>(k, v) t. t_insert k v t) xs t)"
  by (induction xs arbitrary: t) auto

lemma t_ok_collect [simp]: "t_ok (t_collect xs)"
  by (simp add: t_collect_def t_ok_fold_insert)

lemma t_get_fold_insert:
  "t_get (fold (\<lambda>(k, v) t. t_insert k v t) xs t) k =
     (case map_of (rev xs) k of Some v \<Rightarrow> Some v | None \<Rightarrow> t_get t k)"
  by (induction xs arbitrary: t) (auto simp: map_of_append map_add_def split: option.splits)

lemma t_get_collect: "t_get (t_collect xs) k = map_of (rev xs) k"
  by (simp add: t_collect_def t_get_fold_insert split: option.splits)

section \<open>The interface\<close>

locale ordered_map =
  fixes ok :: "'m \<Rightarrow> bool"
    and get :: "'m \<Rightarrow> 'k::linorder \<Rightarrow> 'v option"
    and put :: "'k \<Rightarrow> 'v \<Rightarrow> 'm \<Rightarrow> 'm"
    and del :: "'k \<Rightarrow> 'm \<Rightarrow> 'm"
    and entries :: "'m \<Rightarrow> ('k \<times> 'v) list"
  assumes get_put: "get (put k v m) k' = (if k' = k then Some v else get m k')"
    and get_del: "get (del k m) k' = (if k' = k then None else get m k')"
    and ok_put: "ok m \<Longrightarrow> ok (put k v m)"
    and ok_del: "ok m \<Longrightarrow> ok (del k m)"
    and entries_get: "ok m \<Longrightarrow> (k, v) \<in> set (entries m) \<longleftrightarrow> get m k = Some v"
    and entries_sorted: "ok m \<Longrightarrow> sorted_wrt (<) (map fst (entries m))"
begin

definition keyed_by :: "('v \<Rightarrow> 'k) \<Rightarrow> 'm \<Rightarrow> bool" where
  "keyed_by key m \<longleftrightarrow> (\<forall>k v. get m k = Some v \<longrightarrow> key v = k)"

lemma keyed_put: "keyed_by key m \<Longrightarrow> keyed_by key (put (key v) v m)"
  by (simp add: keyed_by_def get_put)

lemma keyed_del: "keyed_by key m \<Longrightarrow> keyed_by key (del k m)"
  by (simp add: keyed_by_def get_del)

text \<open>The writes that turn \<open>base\<close> into \<open>cur\<close>: first the keys that vanished, then the rows that are
  new or changed.\<close>

definition gone :: "'m \<Rightarrow> 'm \<Rightarrow> 'k list" where
  "gone base cur = filter (\<lambda>k. get cur k = None) (map fst (entries base))"

definition written :: "'m \<Rightarrow> 'm \<Rightarrow> ('k \<times> 'v) list" where
  "written base cur = filter (\<lambda>(k, v). get base k \<noteq> Some v) (entries cur)"

lemma get_fold_del: "get (fold del ks m) k = (if k \<in> set ks then None else get m k)"
  by (induction ks arbitrary: m) (auto simp: get_del)

lemma get_fold_put:
  "distinct (map fst kvs) \<Longrightarrow>
   get (fold (\<lambda>(k, v). put k v) kvs m) k =
     (case map_of kvs k of Some v \<Rightarrow> Some v | None \<Rightarrow> get m k)"
proof (induction kvs arbitrary: m)
  case (Cons e kvs)
  obtain k' v' where e: "e = (k', v')" by (cases e)
  have "map_of kvs k' = None" using Cons.prems e by (auto simp: map_of_eq_None_iff)
  then show ?case using Cons e by (auto simp: get_put split: option.splits)
qed simp

lemma written_distinct: "ok cur \<Longrightarrow> distinct (map fst (written base cur))"
proof -
  assume "ok cur"
  then have "distinct (map fst (entries cur))" using entries_sorted strict_sorted_iff by blast
  then show ?thesis unfolding written_def by (rule distinct_map_filter)
qed

lemma written_of: "ok cur \<Longrightarrow> map_of (written base cur) k =
    (case get cur k of Some v \<Rightarrow> if get base k = Some v then None else Some v | None \<Rightarrow> None)"
proof -
  assume ok: "ok cur"
  have "map_of (written base cur) k = Some v \<longleftrightarrow> get cur k = Some v \<and> get base k \<noteq> Some v" for v
    using written_distinct [OF ok, of base] entries_get [OF ok]
    by (auto simp: written_def map_of_eq_Some_iff)
  then show ?thesis by (intro option_iffI) (auto split: option.splits)
qed

lemma diff_applies:
  assumes "ok base" "ok cur"
  shows "get (fold (\<lambda>(k, v). put k v) (written base cur) (fold del (gone base cur) base)) k = get cur k"
proof -
  have gone: "k \<in> set (gone base cur) \<longleftrightarrow> get cur k = None \<and> get base k \<noteq> None" for k
    using entries_get [OF assms(1)] by (force simp: gone_def)
  show ?thesis
    by (simp add: get_fold_put [OF written_distinct [OF assms(2)]] written_of [OF assms(2)]
        get_fold_del gone split: option.splits)
qed

lemma diff_of_same: "ok m \<Longrightarrow> gone m m = [] \<and> written m m = []"
  using entries_get by (force simp: gone_def written_def filter_empty_conv)

end

interpretation tbl: ordered_map t_ok t_get t_insert t_remove "\<lambda>t. t"
  by unfold_locales (simp_all add: t_get_iff_in, simp add: t_ok_def)

end
