(* ===== verification/Attendance.thy ===== *)
theory Attendance
  imports Rows Tables
begin

text \<open>
  The attendance rules (\<open>attendance/mod.rs\<close>): what a participant's answer counts as, the status
  a run's answers give it, the mentions of a ping and the tally a card shows. All of it is pure;
  the drafts call it.
\<close>

section \<open>Answers\<close>

datatype assumed_source = Standing | TimingDefault

datatype answer_state = AConfirmed | AAssumed assumed_source | AUnknown | ADeclined

record answer_facts =
  fa_explicit :: "rsvp_state option"
  fa_standing :: bool
  fa_default :: "attendance_default option"

definition answer_of :: "answer_facts \<Rightarrow> answer_state" where
  "answer_of facts =
     (if fa_explicit facts = Some Yes then AConfirmed
      else if fa_explicit facts = Some No then ADeclined
      else if fa_standing facts then AAssumed Standing
      else if fa_default facts = Some AssumeComing then AAssumed TimingDefault
      else AUnknown)"

definition run_states ::
  "str list \<Rightarrow> (str, rsvp_state) table \<Rightarrow> str set \<Rightarrow> attendance_default option
    \<Rightarrow> (str \<times> answer_state) list" where
  "run_states participants explicit standing dflt =
     map (\<lambda>user.
       (user, answer_of \<lparr>fa_explicit = t_get explicit user, fa_standing = (user \<in> standing),
                            fa_default = dflt\<rparr>)) participants"

definition states_of ::
  "run \<Rightarrow> (str, rsvp_state) table \<Rightarrow> fixed_run option \<Rightarrow> (str \<times> answer_state) list" where
  "states_of run explicit timing =
     (let standing = (case timing of
                        Some t \<Rightarrow> set (map st_user_id (f_standing t)) | None \<Rightarrow> {})
      in run_states (r_participants run) explicit standing
           (map_option f_attendance_default timing))"

definition snapshot_states :: "snapshot \<Rightarrow> run \<Rightarrow> (str \<times> answer_state) list" where
  "snapshot_states snapshot run =
     (let explicit = t_collect (map (\<lambda>row. (a_user_id row, a_state row))
                       (filter (\<lambda>row. a_run_id row = r_id run) (sn_rsvps snapshot)));
          timing = Option.bind (r_fixed_run_id run)
                     (\<lambda>id. find (\<lambda>row. f_id row = id) (sn_fixed_runs snapshot))
      in states_of run explicit timing)"

section \<open>Tallies\<close>

record tally =
  ta_confirmed :: nat
  ta_assumed :: nat
  ta_unknown :: nat
  ta_declined :: nat
  ta_total :: nat

definition tally_zero :: tally where
  "tally_zero =
     \<lparr>ta_confirmed = 0, ta_assumed = 0, ta_unknown = 0, ta_declined = 0, ta_total = 0\<rparr>"

fun tally_add :: "tally \<Rightarrow> answer_state \<Rightarrow> tally" where
  "tally_add t AConfirmed = t\<lparr>ta_total := ta_total t + 1, ta_confirmed := ta_confirmed t + 1\<rparr>"
| "tally_add t (AAssumed _) = t\<lparr>ta_total := ta_total t + 1, ta_assumed := ta_assumed t + 1\<rparr>"
| "tally_add t AUnknown = t\<lparr>ta_total := ta_total t + 1, ta_unknown := ta_unknown t + 1\<rparr>"
| "tally_add t ADeclined = t\<lparr>ta_total := ta_total t + 1, ta_declined := ta_declined t + 1\<rparr>"

definition tally_of :: "answer_state list \<Rightarrow> tally" where
  "tally_of states = foldl tally_add tally_zero states"

definition tally_display :: "tally \<Rightarrow> str" where
  "tally_display t =
     (let head = dec (ta_confirmed t + ta_assumed t) @ lit ''/'' @ dec (ta_total t);
          notes = (if ta_assumed t > 0 then [dec (ta_assumed t) @ lit '' assumed''] else []) @
                  (if ta_declined t > 0 then [dec (ta_declined t) @ lit '' out''] else [])
      in if notes = [] then head
         else head @ lit '' ('' @ join (lit '', '') notes @ lit '')'')"

section \<open>Status\<close>

record derived_status =
  d_status :: run_status
  d_expected :: bool

definition is_sticky :: "run_status \<Rightarrow> bool" where
  "is_sticky status \<longleftrightarrow> status \<in> {Cancelled, Otot, Done}"

definition plain :: "run_status \<Rightarrow> derived_status" where
  "plain status = \<lparr>d_status = status, d_expected = False\<rparr>"

fun coming :: "answer_state \<Rightarrow> bool" where
  "coming AConfirmed = True"
| "coming (AAssumed _) = True"
| "coming AUnknown = False"
| "coming ADeclined = False"

fun is_assumed :: "answer_state \<Rightarrow> bool" where
  "is_assumed (AAssumed _) = True"
| "is_assumed AConfirmed = False"
| "is_assumed AUnknown = False"
| "is_assumed ADeclined = False"

definition derive_status ::
  "run_status \<Rightarrow> answer_state list \<Rightarrow> instant \<Rightarrow> instant \<Rightarrow> attendance_policy \<Rightarrow> derived_status"
where
  "derive_status current states start now policy =
     (if is_sticky current then plain current
      else if contains states ADeclined then plain AtRisk
      else if contains states AUnknown \<and> now \<ge> start - unknown_window policy then plain AtRisk
      else if states \<noteq> [] \<and> list_all coming states then
        \<lparr>d_status = Confirmed, d_expected = list_ex is_assumed states\<rparr>
      else plain Planned)"

section \<open>Mentions and labels\<close>

definition morning_mentions :: "(str \<times> answer_state) list \<Rightarrow> str list" where
  "morning_mentions states = map fst (filter (\<lambda>(_, state). state = AUnknown) states)"

definition countdown_mentions :: "(str \<times> answer_state) list \<Rightarrow> str list" where
  "countdown_mentions states = map fst (filter (\<lambda>(_, state). state \<noteq> ADeclined) states)"

datatype status_label = Expected | SetByAdmin run_status

fun status_label_display :: "status_label \<Rightarrow> str" where
  "status_label_display Expected = lit ''expected''"
| "status_label_display (SetByAdmin status) = run_status_str status @ lit '' (set by admin)''"

definition label_of :: "run_status \<Rightarrow> status_pin option \<Rightarrow> tally \<Rightarrow> status_label option" where
  "label_of status pin tally =
     (case pin of
        Some p \<Rightarrow>
          if pin_status p = status then Some (SetByAdmin status)
          else if status = Confirmed \<and> ta_assumed tally > 0 then Some Expected else None
      | None \<Rightarrow> if status = Confirmed \<and> ta_assumed tally > 0 then Some Expected else None)"

section \<open>Facts\<close>

lemma map_fst_run_states [simp]: "map fst (run_states ps ex sd df) = ps"
  by (simp add: run_states_def comp_def)

lemma map_fst_states_of [simp]: "map fst (states_of run ex timing) = r_participants run"
  by (simp add: states_of_def Let_def)

lemma coming_iff: "coming s \<longleftrightarrow> s \<noteq> AUnknown \<and> s \<noteq> ADeclined"
  by (cases s) auto

lemma sticky_simps [simp]:
  "is_sticky Cancelled" "is_sticky Otot" "is_sticky Done"
  "\<not> is_sticky Planned" "\<not> is_sticky Confirmed" "\<not> is_sticky AtRisk"
  by (simp_all add: is_sticky_def)

text \<open>The answer-driven statuses are the ones derivation may give a run that has one of them.\<close>

definition answer_driven :: "run_status \<Rightarrow> bool" where
  "answer_driven s \<longleftrightarrow> s \<in> {Planned, Confirmed, AtRisk}"

lemma answer_driven_iff: "answer_driven s \<longleftrightarrow> \<not> is_sticky s"
  by (cases s) (simp_all add: answer_driven_def)

lemma derive_status_driven: "answer_driven cur \<Longrightarrow> answer_driven (d_status (derive_status cur ss st now p))"
  by (auto simp: derive_status_def plain_def answer_driven_iff)

lemma derive_status_sticky: "is_sticky cur \<Longrightarrow> d_status (derive_status cur ss st now p) = cur"
  by (simp add: derive_status_def plain_def)

lemma derive_status_same_kind:
  "is_sticky (d_status (derive_status cur ss st now p)) \<longleftrightarrow> is_sticky cur"
  by (auto simp: derive_status_def plain_def)

lemma tally_foldl:
  "ta_total (foldl tally_add t ss) = ta_total t + length ss"
  "ta_confirmed (foldl tally_add t ss) = ta_confirmed t + count_list ss AConfirmed"
  "ta_assumed (foldl tally_add t ss) = ta_assumed t + length (filter is_assumed ss)"
  "ta_unknown (foldl tally_add t ss) = ta_unknown t + count_list ss AUnknown"
  "ta_declined (foldl tally_add t ss) = ta_declined t + count_list ss ADeclined"
proof -
  have step: "ta_total (tally_add t s) = ta_total t + 1"
    "ta_confirmed (tally_add t s) = ta_confirmed t + (if s = AConfirmed then 1 else 0)"
    "ta_assumed (tally_add t s) = ta_assumed t + (if is_assumed s then 1 else 0)"
    "ta_unknown (tally_add t s) = ta_unknown t + (if s = AUnknown then 1 else 0)"
    "ta_declined (tally_add t s) = ta_declined t + (if s = ADeclined then 1 else 0)" for t s
    by (cases s; simp)+
  show
    "ta_total (foldl tally_add t ss) = ta_total t + length ss"
    "ta_confirmed (foldl tally_add t ss) = ta_confirmed t + count_list ss AConfirmed"
    "ta_assumed (foldl tally_add t ss) = ta_assumed t + length (filter is_assumed ss)"
    "ta_unknown (foldl tally_add t ss) = ta_unknown t + count_list ss AUnknown"
    "ta_declined (foldl tally_add t ss) = ta_declined t + count_list ss ADeclined"
    by (induction ss arbitrary: t) (simp_all add: step)
qed

lemma tally_of_counts:
  "ta_total (tally_of ss) = length ss"
  "ta_confirmed (tally_of ss) = count_list ss AConfirmed"
  "ta_assumed (tally_of ss) = length (filter is_assumed ss)"
  "ta_unknown (tally_of ss) = count_list ss AUnknown"
  "ta_declined (tally_of ss) = count_list ss ADeclined"
  by (simp_all add: tally_of_def tally_foldl tally_zero_def)

lemma state_partition:
  "count_list ss AConfirmed + length (filter is_assumed ss) + count_list ss AUnknown +
     count_list ss ADeclined = length ss"
proof (induction ss)
  case (Cons s ss)
  then show ?case by (cases s) auto
qed simp

lemma all_coming_counts: "list_all coming ss \<longleftrightarrow> count_list ss AUnknown = 0 \<and> count_list ss ADeclined = 0"
  by (auto simp: list_all_iff coming_iff count_list_0_iff)

section \<open>Properties\<close>

text \<open>A run's status is what its answers say, and nothing else: own-time, done and cancelled are
  kept; one refusal puts it at risk, as does an unknown answer once the window before the start
  has opened; it is confirmed exactly when it has a party and everyone in it is coming, expected
  when any of them is only assumed; in every other case it is planned. Deriving again from the
  result changes nothing, so no earlier status lingers.\<close>

theorem derive_status_meaning:
  "let d = derive_status current states start now policy;
       opened = (start - unknown_window policy \<le> now)
   in (is_sticky current \<longrightarrow> d_status d = current) \<and>
      (\<not> is_sticky current \<longrightarrow>
         (d_status d = AtRisk \<longleftrightarrow> ADeclined \<in> set states \<or> AUnknown \<in> set states \<and> opened) \<and>
         (d_status d = Confirmed \<longleftrightarrow> states \<noteq> [] \<and> (\<forall>s \<in> set states. coming s)) \<and>
         (d_status d = Planned \<longleftrightarrow>
            states = [] \<or> ADeclined \<notin> set states \<and> AUnknown \<in> set states \<and> \<not> opened) \<and>
         (d_expected d \<longleftrightarrow> d_status d = Confirmed \<and> (\<exists>s \<in> set states. is_assumed s))) \<and>
      derive_status (d_status d) states start now policy = d"
  by (auto simp: derive_status_def plain_def Let_def list_all_iff list_ex_iff coming_iff)

theorem derive_status_meaning_witness:
  "d_status (derive_status Confirmed [AConfirmed, AUnknown] (hours 100) (hours 88) attendance_v5) = AtRisk
   \<and> d_status (derive_status Otot [ADeclined] (hours 100) (hours 88) attendance_v5) = Otot"
  using derive_status_meaning [where current = Confirmed and states = "[AConfirmed, AUnknown]"
      and start = "hours 100" and now = "hours 88" and policy = attendance_v5]
    derive_status_meaning [where current = Otot and states = "[ADeclined]"
      and start = "hours 100" and now = "hours 88" and policy = attendance_v5]
  by (simp add: Let_def attendance_v5_def hours_def)

text \<open>C39. The tally a card shows partitions the party: the four counts add up to the party, everyone is
  named once, in party order, and the status derived for an answer-driven run is confirmed exactly
  when the card reads \<open>n/n\<close> with \<open>n\<close> positive.\<close>

theorem tally_agrees_with_status:
  "map fst (states_of run explicit timing) = r_participants run \<and>
   (let states = map snd (states_of run explicit timing); t = tally_of states in
      ta_confirmed t + ta_assumed t + ta_unknown t + ta_declined t = ta_total t \<and>
      ta_total t = length (r_participants run) \<and>
      (answer_driven cur \<longrightarrow>
        (d_status (derive_status cur states start now policy) = Confirmed \<longleftrightarrow>
           ta_total t > 0 \<and> ta_confirmed t + ta_assumed t = ta_total t)))"
proof -
  let ?s = "map snd (states_of run explicit timing)"
  have len: "length ?s = length (r_participants run)"
    by (metis length_map map_fst_states_of)
  have part: "count_list ?s AConfirmed + length (filter is_assumed ?s) + count_list ?s AUnknown +
      count_list ?s ADeclined = length ?s" by (rule state_partition)
  have "d_status (derive_status cur ?s start now policy) = Confirmed \<longleftrightarrow>
      ?s \<noteq> [] \<and> list_all coming ?s" if "answer_driven cur"
    using that by (auto simp: derive_status_def plain_def answer_driven_iff list_all_iff coming_iff)
  then show ?thesis
    using part len by (auto simp: Let_def tally_of_counts all_coming_counts)
qed

text \<open>A run of two, for the examples.\<close>

definition sample_run :: run where
  "sample_run =
     \<lparr>r_id = lit ''r1'', r_fixed_run_id = Some (lit ''f1''), r_channel_id = None, r_week_start = 0,
      r_datetime = hours 100, r_bosses = [lit ''HStar''], r_participants = [lit ''11'', lit ''12''],
      r_status = Planned, r_source = FixedSource, r_attendance = [], r_status_pin = None\<rparr>"

theorem tally_agrees_with_status_witness:
  "d_status (derive_status Planned
     (map snd (states_of sample_run [(lit ''11'', Yes), (lit ''12'', Yes)] None)) 0 0 attendance_v5)
     = Confirmed"
proof -
  have "answer_driven Planned" by (simp add: answer_driven_def)
  moreover have "let t = tally_of (map snd (states_of sample_run [(lit ''11'', Yes), (lit ''12'', Yes)] None))
      in ta_total t > 0 \<and> ta_confirmed t + ta_assumed t = ta_total t"
    by code_simp
  ultimately show ?thesis
    using tally_agrees_with_status
      [where run = sample_run and explicit = "[(lit ''11'', Yes), (lit ''12'', Yes)]" and timing = None
        and cur = Planned and start = 0 and now = 0 and policy = attendance_v5]
    by (simp add: Let_def)
qed

end
