(* ===== verification/Catalog.thy ===== *)
theory Catalog
  imports Pytext
begin

text \<open>
  The validated boss catalog (\<open>catalog/model.rs\<close>, \<open>catalog/table.rs\<close>): difficulties, bosses, and
  the canonical tokens such as \<open>HStar\<close> that name a boss at a difficulty. The two hash maps of
  \<open>BossTable\<close> are look-up functions of the record, and the standard library's Unicode case
  mappings are its fields \<open>bt_lower\<close> and \<open>bt_upper\<close>.
\<close>

section \<open>Model\<close>

record difficulty =
  di_letter :: str
  di_label :: str

record boss =
  b_short :: str
  b_full :: str
  b_level :: "nat option"
  b_difficulties :: "str list"
  b_aliases :: "str list"
  b_portrait :: "str option"
  b_guide_colour :: "nat option"

record boss_detail =
  bd_token :: str
  bd_short :: str
  bd_full :: str
  bd_level :: "nat option"
  bd_letter :: str
  bd_difficulty :: str

record boss_table =
  bt_difficulties :: "difficulty list"
  bt_bosses :: "boss list"
  bt_by_short :: "str \<Rightarrow> nat option"
  bt_aliases :: "str \<Rightarrow> nat option"
  bt_lower :: "str \<Rightarrow> str"
  bt_upper :: "str \<Rightarrow> str"

definition has_difficulty :: "boss \<Rightarrow> str \<Rightarrow> bool" where
  "has_difficulty b letter \<longleftrightarrow> list_ex (\<lambda>own. own = letter) (b_difficulties b)"

definition boss_canonical :: "(str \<Rightarrow> str) \<Rightarrow> boss \<Rightarrow> str \<Rightarrow> str" where
  "boss_canonical upper b letter = upper letter @ b_short b"

section \<open>Look-ups\<close>

definition bt_boss :: "boss_table \<Rightarrow> str \<Rightarrow> boss option" where
  "bt_boss t short = map_option (\<lambda>at. bt_bosses t ! at) (bt_by_short t short)"

definition bt_difficulty :: "boss_table \<Rightarrow> str \<Rightarrow> difficulty option" where
  "bt_difficulty t letter = find (\<lambda>d. di_letter d = letter) (bt_difficulties t)"

definition prefixes :: "boss_table \<Rightarrow> str" where
  "prefixes t = join (lit ''/'') (map di_letter (bt_difficulties t))"

definition valid_forms :: "(str \<Rightarrow> str) \<Rightarrow> boss \<Rightarrow> str" where
  "valid_forms upper b = join (lit '', '') (map (boss_canonical upper b) (b_difficulties b))"

text \<open>\<open>split\<close>: \<open>HStar\<close> to its difficulty and boss.\<close>

definition bt_split :: "boss_table \<Rightarrow> str \<Rightarrow> (difficulty \<times> boss) option" where
  "bt_split t token =
     (case token of
        [] \<Rightarrow> None
      | c # rest \<Rightarrow>
          Option.bind (bt_boss t rest) (\<lambda>b.
          Option.bind (bt_difficulty t (bt_lower t [c])) (\<lambda>d. Some (d, b))))"

definition describe :: "boss_table \<Rightarrow> str \<Rightarrow> str" where
  "describe t token =
     (case bt_split t token of
        None \<Rightarrow> token
      | Some (d, b) \<Rightarrow>
          (case b_level b of
             Some level \<Rightarrow>
               b_full b @ lit '' ('' @ di_label d @ lit '', Lv'' @ dec level @ lit '')''
           | None \<Rightarrow> b_full b @ lit '' ('' @ di_label d @ lit '')''))"

definition describe_all :: "boss_table \<Rightarrow> str list \<Rightarrow> str" where
  "describe_all t tokens = join [32, 0xb7, 32] (map (describe t) tokens)"

definition bt_detail :: "boss_table \<Rightarrow> str \<Rightarrow> boss_detail option" where
  "bt_detail t token =
     Option.bind (bt_split t token) (\<lambda>(d, b).
       Some \<lparr>bd_token = token, bd_short = b_short b, bd_full = b_full b, bd_level = b_level b,
             bd_letter = di_letter d, bd_difficulty = di_label d\<rparr>)"

definition difficulty_name :: "boss_table \<Rightarrow> str \<Rightarrow> str" where
  "difficulty_name t letter =
     (case bt_difficulty t (bt_lower t letter) of
        Some d \<Rightarrow> di_label d
      | None \<Rightarrow> bt_upper t letter)"

text \<open>In-game list order; \<open>sort_by\<close> is stable.\<close>

definition bt_ordered :: "boss_table \<Rightarrow> boss list" where
  "bt_ordered t =
     sort_key (\<lambda>b. (case b_level b of Some l \<Rightarrow> l | None \<Rightarrow> 0, b_short b)) (bt_bosses t)"

definition bt_label :: "boss_table \<Rightarrow> str \<Rightarrow> str" where
  "bt_label t letter = (case bt_difficulty t letter of Some d \<Rightarrow> di_label d | None \<Rightarrow> letter)"

text \<open>Lowercased label to letter; the later of two labels wins.\<close>

definition difficulty_words :: "boss_table \<Rightarrow> str \<Rightarrow> str option" where
  "difficulty_words t =
     map_of (rev (map (\<lambda>d. (bt_lower t (di_label d), di_letter d)) (bt_difficulties t)))"

definition wrong_difficulty :: "boss_table \<Rightarrow> boss \<Rightarrow> str \<Rightarrow> str" where
  "wrong_difficulty t b letter =
     b_full b @ lit '' has no '' @ bt_label t letter @ lit '' difficulty - did you mean '' @
     valid_forms (bt_upper t) b @ lit ''?''"

definition missing_difficulty :: "boss_table \<Rightarrow> str \<Rightarrow> boss \<Rightarrow> str" where
  "missing_difficulty t token b =
     lit ''`'' @ token @ lit ''` is missing a difficulty prefix ('' @ prefixes t @
     lit '') - try '' @ valid_forms (bt_upper t) b"

section \<open>Well-formed tables\<close>

text \<open>What validation establishes: the indices point at their bosses, each boss's letters are
  letters of the catalog, and the letters are distinct.\<close>

definition table_wf :: "boss_table \<Rightarrow> bool" where
  "table_wf t \<longleftrightarrow>
     (\<forall>short at. bt_by_short t short = Some at \<longrightarrow>
        at < length (bt_bosses t) \<and> b_short (bt_bosses t ! at) = short) \<and>
     (\<forall>at < length (bt_bosses t). bt_by_short t (b_short (bt_bosses t ! at)) = Some at) \<and>
     (\<forall>key at. bt_aliases t key = Some at \<longrightarrow> at < length (bt_bosses t)) \<and>
     (\<forall>b \<in> set (bt_bosses t). \<forall>l \<in> set (b_difficulties b). bt_difficulty t l \<noteq> None) \<and>
     distinct (map di_letter (bt_difficulties t))"

text \<open>The case mappings undo each other on the catalog's letters, one character each.\<close>

definition letters_fold :: "boss_table \<Rightarrow> bool" where
  "letters_fold t \<longleftrightarrow>
     (\<forall>d \<in> set (bt_difficulties t).
        length (bt_upper t (di_letter d)) = 1 \<and>
        bt_lower t (bt_upper t (di_letter d)) = di_letter d)"

lemma bt_difficulty_letter: "bt_difficulty t l = Some d \<Longrightarrow> d \<in> set (bt_difficulties t) \<and> di_letter d = l"
  by (auto simp: bt_difficulty_def dest: find_Some_in)

lemma bt_boss_registered:
  assumes "table_wf t" "at < length (bt_bosses t)"
  shows "bt_boss t (b_short (bt_bosses t ! at)) = Some (bt_bosses t ! at)"
  using assms by (simp add: bt_boss_def table_wf_def)

lemma split_canonical:
  assumes wf: "table_wf t" and fold: "letters_fold t" and at: "at < length (bt_bosses t)"
    and d: "bt_difficulty t letter = Some d"
  shows "bt_split t (boss_canonical (bt_upper t) (bt_bosses t ! at) letter) = Some (d, bt_bosses t ! at)"
proof -
  have "d \<in> set (bt_difficulties t)" and l: "di_letter d = letter"
    using bt_difficulty_letter [OF d] by auto
  then obtain c where c: "bt_upper t letter = [c]" "bt_lower t [c] = letter"
    using fold by (auto simp: letters_fold_def length_Suc_conv)
  then show ?thesis
    using d bt_boss_registered [OF wf at] by (simp add: bt_split_def boss_canonical_def)
qed

section \<open>Properties\<close>

text \<open>A catalog to run the definitions on: two difficulties and one boss.\<close>

definition sample_table :: boss_table where
  "sample_table =
     \<lparr>bt_difficulties =
        [\<lparr>di_letter = lit ''n'', di_label = lit ''Normal''\<rparr>,
         \<lparr>di_letter = lit ''h'', di_label = lit ''Hard''\<rparr>],
      bt_bosses =
        [\<lparr>b_short = lit ''Star'', b_full = lit ''Radiant Star'', b_level = Some 280,
          b_difficulties = [lit ''n'', lit ''h''], b_aliases = [lit ''rstar''],
          b_portrait = None, b_guide_colour = None\<rparr>],
      bt_by_short = (\<lambda>s. if s = lit ''Star'' then Some 0 else None),
      bt_aliases = (\<lambda>s. if s \<in> set [lit ''star'', lit ''radiantstar'', lit ''rstar''] then Some 0 else None),
      bt_lower = map (\<lambda>c. if 65 \<le> c \<and> c \<le> 90 then c + 32 else c),
      bt_upper = map (\<lambda>c. if 97 \<le> c \<and> c \<le> 122 then c - 32 else c)\<rparr>"

lemma sample_table_wf: "table_wf sample_table" "letters_fold sample_table"
  by (simp_all add: table_wf_def letters_fold_def sample_table_def lit_def bt_difficulty_def)

text \<open>The canonical token of any boss of a validated catalog at any of its difficulties reads back as
  exactly that difficulty and that boss, so a stored token never loses or changes its boss.\<close>

theorem canonical_round_trip:
  assumes "table_wf t" "letters_fold t" "b \<in> set (bt_bosses t)" "has_difficulty b letter"
  shows "\<exists>d. bt_split t (boss_canonical (bt_upper t) b letter) = Some (d, b) \<and> di_letter d = letter"
proof -
  obtain at where at: "at < length (bt_bosses t)" "b = bt_bosses t ! at"
    using assms(3) by (auto simp: in_set_conv_nth)
  have "letter \<in> set (b_difficulties b)" using assms(4) by (auto simp: has_difficulty_def list_ex_iff)
  then obtain d where "bt_difficulty t letter = Some d"
    using assms(1,3) unfolding table_wf_def by blast
  then show ?thesis
    using split_canonical [OF assms(1,2) at(1)] at(2) bt_difficulty_letter by blast
qed

theorem canonical_round_trip_witness:
  "\<exists>d. bt_split sample_table (lit ''HStar'') = Some (d, bt_bosses sample_table ! 0) \<and> di_letter d = lit ''h''"
proof -
  have "bt_bosses sample_table ! 0 \<in> set (bt_bosses sample_table)"
    "has_difficulty (bt_bosses sample_table ! 0) (lit ''h'')"
    by (simp_all add: sample_table_def has_difficulty_def lit_def)
  moreover have "boss_canonical (bt_upper sample_table) (bt_bosses sample_table ! 0) (lit ''h'') = lit ''HStar''"
    by (simp add: sample_table_def boss_canonical_def lit_def)
  ultimately show ?thesis
    using canonical_round_trip [OF sample_table_wf, of "bt_bosses sample_table ! 0" "lit ''h''"] by simp
qed

end
