(* ===== verification/Completion.thy ===== *)
theory Completion
  imports Attendance Catalog
begin

text \<open>
  Guild settings (\<open>schedule/policy.rs\<close>, the policy types of \<open>schedule/reminders.rs\<close>) and run
  completion (\<open>completion/plan.rs\<close>, \<open>ends.rs\<close>, \<open>prompt.rs\<close>, \<open>settings/model.rs\<close>): how long a run
  lasts, when it is over and frozen, when its prompt is due and cut off, and the shape of a
  stored prompt. Run lengths are \<open>u32\<close>, kept at their width.
\<close>

section \<open>Policies\<close>

record reminder_policy =
  rp_zone :: tz
  rp_ping_time :: clock
  rp_countdowns :: "nat list"

record schedule_policy =
  sp_reminders :: reminder_policy
  sp_reset_weekday :: weekday
  sp_reset_time :: clock
  sp_attendance :: attendance_policy

definition schedule_policy_new :: "reminder_policy \<Rightarrow> weekday \<Rightarrow> clock \<Rightarrow> schedule_policy" where
  "schedule_policy_new reminders reset_weekday reset_time =
     \<lparr>sp_reminders = reminders, sp_reset_weekday = reset_weekday, sp_reset_time = reset_time,
      sp_attendance = attendance_v5\<rparr>"

definition sp_zone :: "schedule_policy \<Rightarrow> tz" where
  "sp_zone p = rp_zone (sp_reminders p)"

definition week_of :: "schedule_policy \<Rightarrow> aware \<Rightarrow> date_out_of_range + zoned" where
  "week_of p at = Weeks.week_start at (sp_zone p) (sp_reset_weekday p) (sp_reset_time p)"

definition materialised_weeks :: "schedule_policy \<Rightarrow> instant \<Rightarrow> date_out_of_range + zoned list" where
  "materialised_weeks p now =
     materialised_week_starts (sp_zone p) (sp_reset_weekday p) (sp_reset_time p) (AtInstant now)"

section \<open>Run lengths\<close>

record run_length_override =
  lo_boss :: str
  lo_difficulty :: str
  lo_minutes :: "32 word"

record run_lengths =
  rl_default_minutes :: "32 word"
  rl_overrides :: "run_length_override list"

definition run_lengths_default :: run_lengths where
  "run_lengths_default =
     \<lparr>rl_default_minutes = 30,
      rl_overrides = [\<lparr>lo_boss = lit ''BM'', lo_difficulty = lit ''h'', lo_minutes = 60\<rparr>]\<rparr>"

definition boss_minutes :: "run_lengths \<Rightarrow> boss_table \<Rightarrow> str \<Rightarrow> 32 word" where
  "boss_minutes lengths catalog token =
     (case Option.bind (bt_split catalog token) (\<lambda>(d, b).
             find (\<lambda>o'. lo_boss o' = b_short b \<and> lo_difficulty o' = di_letter d)
               (rl_overrides lengths)) of
        Some o' \<Rightarrow> lo_minutes o'
      | None \<Rightarrow> rl_default_minutes lengths)"

text \<open>\<open>Iterator::sum\<close> of \<open>u32\<close>: the release build wraps.\<close>

definition minutes_for :: "run_lengths \<Rightarrow> boss_table \<Rightarrow> str list \<Rightarrow> 32 word" where
  "minutes_for lengths catalog tokens = sum_list (map (boss_minutes lengths catalog) tokens)"

definition saturating_mul :: "32 word \<Rightarrow> 32 word \<Rightarrow> 32 word" where
  "saturating_mul a b = (if uint a * uint b < 2 ^ 32 then a * b else - 1)"

definition run_minutes :: "run_lengths \<Rightarrow> boss_table option \<Rightarrow> str list \<Rightarrow> 32 word" where
  "run_minutes lengths catalog bosses =
     (case catalog of
        Some c \<Rightarrow> minutes_for lengths c bosses
      | None \<Rightarrow>
          saturating_mul (rl_default_minutes lengths)
            (if int (length bosses) < 2 ^ 32 then word_of_int (int (length bosses)) else - 1))"

section \<open>The completion plan\<close>

definition prompt_delay :: delta where
  "prompt_delay = minutes 30"

definition ask_again_after :: delta where
  "ask_again_after = minutes 30"

record completion_plan =
  cp_ends_at :: instant
  cp_prompt_at :: "instant option"
  cp_cutoff_at :: instant

definition end_of_local_day :: "instant \<Rightarrow> tz \<Rightarrow> date_out_of_range + instant" where
  "end_of_local_day at zone =
     res_bind (from_instant at zone) (\<lambda>local.
     res_bind (ok_or DateOutOfRange (date_succ (wall_date (zd_wall local)))) (\<lambda>next.
     res_bind (zoned_new (and_time next midnight) zone) (\<lambda>midnight.
     utc_instant (AtZoned midnight))))"

definition plan :: "run \<Rightarrow> 32 word \<Rightarrow> schedule_policy \<Rightarrow> date_out_of_range + completion_plan" where
  "plan run mins policy =
     (let zone = sp_zone policy in
      res_bind (week_of policy (AtInstant (r_datetime run))) (\<lambda>week.
      res_bind (week_end (AtZoned week) zone) (\<lambda>next.
      res_bind (utc_instant (AtZoned next)) (\<lambda>reset.
      res_bind (ok_or DateOutOfRange (checked_add (r_datetime run) (minutes (uint mins)))) (\<lambda>ends_at.
      res_bind (ok_or DateOutOfRange (checked_add ends_at prompt_delay)) (\<lambda>due.
      if r_status run = Otot \<or> due \<ge> reset then
        Ok \<lparr>cp_ends_at = ends_at, cp_prompt_at = None, cp_cutoff_at = reset\<rparr>
      else
        res_bind (end_of_local_day due zone) (\<lambda>day_end.
        Ok \<lparr>cp_ends_at = ends_at, cp_prompt_at = Some due, cp_cutoff_at = min day_end reset\<rparr>)))))))"

text \<open>A live run staff set back to planned or confirmed at or after its end.\<close>

definition reopened :: "run \<Rightarrow> instant \<Rightarrow> bool" where
  "reopened run ends_at \<longleftrightarrow>
     is_live (r_status run) \<and>
     (case r_status_pin run of Some pin \<Rightarrow> pin_at pin \<ge> ends_at | None \<Rightarrow> False)"

section \<open>When a run is over\<close>

record run_ends =
  re_lengths :: run_lengths
  re_catalog :: "boss_table option"
  re_policy :: schedule_policy

definition ends_minutes :: "run_ends \<Rightarrow> str list \<Rightarrow> 32 word" where
  "ends_minutes e bosses = run_minutes (re_lengths e) (re_catalog e) bosses"

definition ends_at :: "run_ends \<Rightarrow> run \<Rightarrow> date_out_of_range + instant" where
  "ends_at e run =
     res_bind (plan run (ends_minutes e (r_bosses run)) (re_policy e)) (\<lambda>p.
     Ok (if r_status run = Otot then cp_cutoff_at p else cp_ends_at p))"

definition ends_ended :: "run_ends \<Rightarrow> run \<Rightarrow> instant \<Rightarrow> bool" where
  "ends_ended e run now = is_ok_and (\<lambda>end. end \<le> now) (ends_at e run)"

definition frozen :: "run_ends \<Rightarrow> run \<Rightarrow> instant \<Rightarrow> bool" where
  "frozen e run now \<longleftrightarrow>
     is_live (r_status run) \<and>
     is_ok_and (\<lambda>end. end \<le> now \<and> \<not> reopened run end) (ends_at e run)"

definition slot_ended :: "run_ends \<Rightarrow> instant \<Rightarrow> str list \<Rightarrow> instant \<Rightarrow> bool" where
  "slot_ended e at bosses now =
     (case checked_add at (minutes (uint (ends_minutes e bosses))) of
        Some end \<Rightarrow> end \<le> now
      | None \<Rightarrow> False)"

section \<open>Prompts\<close>

datatype prompt_outcome = PDone | PDidntHappen | PNotYet | PAutoDone | PMoved | PClosed

definition prompt_outcomes :: "prompt_outcome list" where
  "prompt_outcomes = [PDone, PDidntHappen, PNotYet, PAutoDone, PMoved, PClosed]"

fun prompt_outcome_str :: "prompt_outcome \<Rightarrow> str" where
  "prompt_outcome_str PDone = lit ''done''"
| "prompt_outcome_str PDidntHappen = lit ''didnt_happen''"
| "prompt_outcome_str PNotYet = lit ''not_yet''"
| "prompt_outcome_str PAutoDone = lit ''auto_done''"
| "prompt_outcome_str PMoved = lit ''moved''"
| "prompt_outcome_str PClosed = lit ''closed''"

definition pressed :: "prompt_outcome \<Rightarrow> bool" where
  "pressed out \<longleftrightarrow> out \<in> {PDone, PDidntHappen, PNotYet}"

record run_prompt =
  rq_run_id :: str
  rq_ask :: "32 word"
  rq_ends_at :: instant
  rq_due_at :: instant
  rq_cutoff_at :: instant
  rq_channel_id :: "str option"
  rq_message_id :: "str option"
  rq_outcome :: "prompt_outcome option"
  rq_decided_by :: "str option"
  rq_decided_at :: "instant option"
  rq_message_settled :: bool

definition prompt_open :: "str \<Rightarrow> 32 word \<Rightarrow> instant \<Rightarrow> instant \<Rightarrow> instant \<Rightarrow> run_prompt" where
  "prompt_open run_id ask ends due cutoff =
     \<lparr>rq_run_id = run_id, rq_ask = ask, rq_ends_at = ends, rq_due_at = due, rq_cutoff_at = cutoff,
      rq_channel_id = None, rq_message_id = None, rq_outcome = None, rq_decided_by = None,
      rq_decided_at = None, rq_message_settled = False\<rparr>"

definition prompt_is_open :: "run_prompt \<Rightarrow> bool" where
  "prompt_is_open p \<longleftrightarrow> rq_outcome p = None"

definition prompt_key :: "run_prompt \<Rightarrow> str" where
  "prompt_key p = rq_run_id p @ lit '':'' @ dec (unat (rq_ask p))"

text \<open>\<open>str::len\<close>: bytes of UTF-8.\<close>

definition utf8_len :: "str \<Rightarrow> nat" where
  "utf8_len s =
     sum_list (map (\<lambda>c. if c < 0x80 then 1 else if c < 0x800 then 2 else if c < 0x10000 then 3 else 4) s)"

definition bounded :: "str \<Rightarrow> nat \<Rightarrow> bool" where
  "bounded s n \<longleftrightarrow> s \<noteq> [] \<and> utf8_len s \<le> n"

text \<open>The constraint variant of \<open>StoreError\<close>, with its message.\<close>

datatype store_constraint = Constraint str

definition prompt_refuse :: "string \<Rightarrow> store_constraint + unit" where
  "prompt_refuse what = Err (Constraint (lit ''run prompt '' @ lit what))"

definition prompt_check :: "run_prompt \<Rightarrow> store_constraint + unit" where
  "prompt_check p =
     (if \<not> bounded (rq_run_id p) 64 \<or>
         \<not> (case rq_decided_by p of None \<Rightarrow> True | Some user \<Rightarrow> bounded user 32) then
        prompt_refuse ''ids are bounded''
      else if rq_cutoff_at p \<le> rq_due_at p then prompt_refuse ''is cut off after it is due''
      else if (rq_outcome p = None) \<noteq> (rq_decided_at p = None) then
        prompt_refuse ''is decided exactly when closed''
      else if (case rq_outcome p of Some out \<Rightarrow> pressed out | None \<Rightarrow> False) \<noteq>
              (rq_decided_by p \<noteq> None) then
        prompt_refuse ''names its presser exactly when pressed''
      else Ok ())"

definition prompt_check_new :: "run_prompt \<Rightarrow> store_constraint + unit" where
  "prompt_check_new p =
     (if \<not> prompt_is_open p \<or> rq_message_id p \<noteq> None \<or> rq_message_settled p then
        Err (Constraint (lit ''a new run prompt is open and unposted''))
      else prompt_check p)"

record prompt_close =
  pc_outcome :: prompt_outcome
  pc_decided_by :: "str option"
  pc_at :: instant
  pc_next :: "run_prompt option"

definition close_refuse :: "string \<Rightarrow> store_constraint + unit" where
  "close_refuse what = Err (Constraint (lit ''run prompt close '' @ lit what))"

definition prompt_close_check :: "prompt_close \<Rightarrow> str \<Rightarrow> store_constraint + unit" where
  "prompt_close_check c run_id =
     (if pressed (pc_outcome c) \<noteq> (pc_decided_by c \<noteq> None) then
        close_refuse ''names its presser exactly when pressed''
      else
        (case pc_next c of
           Some next \<Rightarrow>
             if rq_run_id next \<noteq> run_id then close_refuse ''opens its next ask on the same run''
             else prompt_check_new next
         | None \<Rightarrow> Ok ()))"

text \<open>Request ids of a press and of an automatic done.\<close>

definition pressed_request_id :: "str \<Rightarrow> 32 word \<Rightarrow> prompt_outcome \<Rightarrow> str" where
  "pressed_request_id run_id ask out =
     lit ''run-outcome:'' @ run_id @ lit '':'' @ dec (unat ask) @ lit '':'' @
     (case out of PDidntHappen \<Rightarrow> lit ''didnt-happen'' | _ \<Rightarrow> lit ''done'')"

definition auto_request_id :: "str \<Rightarrow> instant \<Rightarrow> str" where
  "auto_request_id run_id at =
     lit ''run-outcome:'' @ run_id @ lit '':auto-done:'' @ int_dec (at div seconds 1)"

section \<open>Facts\<close>

lemma utc_instant_AtZoned: "utc_instant (AtZoned zd) = Ok i \<Longrightarrow> i = to_fixed zd"
proof -
  assume ok: "utc_instant (AtZoned zd) = Ok i"
  then obtain u where u: "zoned_astimezone zd utc_zone = Ok u" "i = to_fixed u"
    by (auto simp: utc_instant_def res_bind_Ok_iff)
  show ?thesis
  proof (cases "same_zone (zd_zone zd) utc_zone")
    case True
    then show ?thesis using u by (simp add: zoned_astimezone_def)
  next
    case False
    then have "from_instant (to_fixed zd) utc_zone = Ok u" using u by (simp add: zoned_astimezone_def)
    then show ?thesis using from_instant_roundtrip [OF tz_coherent_utc] u(2) by simp
  qed
qed

lemma checked_add_SomeI: "checked_add w d = Some v \<Longrightarrow> v = w + d"
  by (rule checked_add_SomeD)

lemma planE:
  assumes "plan run m policy = Ok p"
  obtains reset where
    "cp_ends_at p = r_datetime run + minutes (uint m)"
    "r_status run = Otot \<or> reset \<le> cp_ends_at p + prompt_delay \<Longrightarrow>
       cp_prompt_at p = None \<and> cp_cutoff_at p = reset"
    "r_status run \<noteq> Otot \<Longrightarrow> cp_ends_at p + prompt_delay < reset \<Longrightarrow>
       \<exists>day_end. end_of_local_day (cp_ends_at p + prompt_delay) (sp_zone policy) = Ok day_end \<and>
         cp_prompt_at p = Some (cp_ends_at p + prompt_delay) \<and> cp_cutoff_at p = min day_end reset"
    "\<exists>week next. week_of policy (AtInstant (r_datetime run)) = Ok week \<and>
       week_end (AtZoned week) (sp_zone policy) = Ok next \<and> utc_instant (AtZoned next) = Ok reset"
proof -
  from assms obtain week nxt reset where r:
    "week_of policy (AtInstant (r_datetime run)) = Ok week"
    "week_end (AtZoned week) (sp_zone policy) = Ok nxt" "utc_instant (AtZoned nxt) = Ok reset"
    by (auto simp: plan_def Let_def res_bind_Ok_iff)
  have "cp_ends_at p = r_datetime run + minutes (uint m)"
    using assms r by (auto simp: plan_def Let_def res_bind_Ok_iff dest: checked_add_SomeD split: if_splits)
  moreover have "cp_prompt_at p = None \<and> cp_cutoff_at p = reset"
    if "r_status run = Otot \<or> reset \<le> cp_ends_at p + prompt_delay"
    using assms r that by (auto simp: plan_def Let_def res_bind_Ok_iff dest!: checked_add_SomeD split: if_splits)
  moreover have "\<exists>day_end. end_of_local_day (cp_ends_at p + prompt_delay) (sp_zone policy) = Ok day_end \<and>
         cp_prompt_at p = Some (cp_ends_at p + prompt_delay) \<and> cp_cutoff_at p = min day_end reset"
    if "r_status run \<noteq> Otot" "cp_ends_at p + prompt_delay < reset"
    using assms r that by (auto simp: plan_def Let_def res_bind_Ok_iff dest!: checked_add_SomeD split: if_splits)
  ultimately show thesis using r that [of reset] by blast
qed

text \<open>A zone with one offset, such as the guild's.\<close>

definition fixed_zone :: "tz \<Rightarrow> bool" where
  "fixed_zone z \<longleftrightarrow>
     (\<forall>i. tz_from_utc z i = tz_from_utc z 0) \<and> (\<forall>w. tz_from_local z w = Single (tz_from_utc z 0))"

lemma fixed_zone_to_fixed:
  "fixed_zone (zd_zone zd) \<Longrightarrow> to_fixed zd = zd_wall zd - seconds (tz_from_utc (zd_zone zd) 0)"
  by (simp add: to_fixed_def zoned_offset_def local_offsets_def fixed_zone_def)

lemma end_of_local_day_after:
  assumes z: "fixed_zone z" and ok: "end_of_local_day at z = Ok e"
  shows "at < e"
proof -
  obtain l n m where l: "from_instant at z = Ok l" and n: "date_succ (wall_date (zd_wall l)) = Some n"
    and m: "zoned_new (and_time n midnight) z = Ok m" and e: "utc_instant (AtZoned m) = Ok e"
    using ok by (auto simp: end_of_local_day_def res_bind_Ok_iff)
  have "zd_wall l = at + seconds (tz_from_utc z 0)"
    using from_instant_Ok(2) [OF l] z unfolding fixed_zone_def by metis
  moreover have "n = wall_date (zd_wall l) + 1" using n by (simp add: date_succ_def split: if_splits)
  moreover have "zd_wall m = and_time n midnight" "zd_zone m = z" using m by auto
  moreover have "e = zd_wall m - seconds (tz_from_utc z 0)"
    using utc_instant_AtZoned [OF e] fixed_zone_to_fixed [of m] z \<open>zd_zone m = z\<close> by simp
  moreover have "zd_wall l < and_time (wall_date (zd_wall l) + 1) midnight"
    using and_time_wall [of "zd_wall l"] is_clock_wall_time [of "zd_wall l"]
    unfolding and_time_def midnight_def is_clock_def distrib_right by linarith
  ultimately show ?thesis by simp
qed

lemma unat_sum_list_small:
  fixes ws :: "32 word list"
  assumes "\<forall>w \<in> set ws. unat w \<le> k" "length ws * k < 2 ^ 32"
  shows "unat (sum_list ws) = sum_list (map unat ws) \<and> sum_list (map unat ws) \<le> length ws * k"
  using assms
proof (induction ws)
  case (Cons w ws)
  have "length ws * k < 2 ^ 32" using Cons.prems(2) by simp
  then have ih: "unat (sum_list ws) = sum_list (map unat ws)" "sum_list (map unat ws) \<le> length ws * k"
    using Cons by auto
  have "unat w \<le> k" using Cons.prems(1) by simp
  then have "unat w + unat (sum_list ws) < 2 ^ 32" using ih Cons.prems(2) by simp
  then have "unat (w + sum_list ws) = unat w + unat (sum_list ws)"
    by (simp add: unat_add_lem [THEN iffD1])
  then show ?case using ih \<open>unat w \<le> k\<close> by simp
qed simp

text \<open>What the settings codec admits.\<close>

definition lengths_valid :: "run_lengths \<Rightarrow> bool" where
  "lengths_valid l \<longleftrightarrow>
     5 \<le> rl_default_minutes l \<and> rl_default_minutes l \<le> 240 \<and>
     (\<forall>x \<in> set (rl_overrides l). 5 \<le> lo_minutes x \<and> lo_minutes x \<le> 480)"

lemma boss_minutes_range:
  assumes "lengths_valid l"
  shows "5 \<le> unat (boss_minutes l c tok)" "unat (boss_minutes l c tok) \<le> 480"
proof -
  have d: "5 \<le> unat (rl_default_minutes l)" "unat (rl_default_minutes l) \<le> 480"
    using assms by (auto simp: lengths_valid_def word_le_nat_alt)
  have o': "5 \<le> unat (lo_minutes x)" "unat (lo_minutes x) \<le> 480" if "x \<in> set (rl_overrides l)" for x
    using assms that by (auto simp: lengths_valid_def word_le_nat_alt)
  show "5 \<le> unat (boss_minutes l c tok)" "unat (boss_minutes l c tok) \<le> 480"
    using d o' by (auto simp: boss_minutes_def bind_eq_Some_conv split: option.splits dest!: find_Some_in)
qed

section \<open>Properties\<close>

text \<open>C37. For settings the codec admits and any realistic boss list the \<open>u32\<close> sum of a run's minutes does
  not wrap: it is the sum of the bosses' minutes, between 5 and 480 each. Without a catalog the
  product saturates instead of wrapping.\<close>

theorem run_minutes_exact:
  assumes "lengths_valid l" "length bosses \<le> 8000000"
  shows "unat (run_minutes l (Some c) bosses) = sum_list (map (\<lambda>b. unat (boss_minutes l c b)) bosses) \<and>
    5 * length bosses \<le> unat (run_minutes l (Some c) bosses) \<and>
    unat (run_minutes l (Some c) bosses) \<le> 480 * length bosses \<and>
    unat (run_minutes l None bosses) = unat (rl_default_minutes l) * length bosses"
proof -
  let ?ws = "map (boss_minutes l c) bosses"
  have "\<forall>w \<in> set ?ws. unat w \<le> 480" using boss_minutes_range [OF assms(1)] by simp
  moreover have "length ?ws * 480 < 2 ^ 32" using assms(2) by simp
  ultimately have s: "unat (sum_list ?ws) = sum_list (map unat ?ws)" "sum_list (map unat ?ws) \<le> length ?ws * 480"
    using unat_sum_list_small by blast+
  have low: "5 * length bosses \<le> sum_list (map unat ?ws)"
    using boss_minutes_range(1) [OF assms(1)]
    by (induction bosses) (auto intro: add_mono)
  have "rl_default_minutes l \<le> 240" using assms(1) by (simp add: lengths_valid_def)
  then have d: "unat (rl_default_minutes l) \<le> 240" by (simp add: word_le_nat_alt)
  have n: "uint (word_of_int (int (length bosses)) :: 32 word) = int (length bosses)"
    using assms(2) by (simp add: uint_nat unat_of_nat take_bit_eq_mod)
  have "unat (rl_default_minutes l) * length bosses < 2 ^ 32"
    using mult_le_mono [OF d assms(2)] by simp
  then have p: "uint (rl_default_minutes l) * int (length bosses) < 2 ^ 32"
    unfolding uint_nat by (metis of_nat_less_iff of_nat_mult of_nat_numeral of_nat_power)
  have "uint (rl_default_minutes l * word_of_int (int (length bosses))) =
      uint (rl_default_minutes l) * int (length bosses)"
    using n p by (simp add: uint_word_ariths(3))
  then have "uint (saturating_mul (rl_default_minutes l) (word_of_int (int (length bosses)))) =
      uint (rl_default_minutes l) * int (length bosses)"
    unfolding saturating_mul_def n using p by (simp only: if_True)
  then have "unat (saturating_mul (rl_default_minutes l) (word_of_int (int (length bosses)))) =
      unat (rl_default_minutes l) * length bosses"
    by (metis nat_int of_nat_mult uint_nat)
  then show ?thesis
    using s low assms(2) by (simp add: run_minutes_def minutes_for_def comp_def)
qed

theorem run_minutes_exact_witness:
  "unat (run_minutes run_lengths_default None [lit ''HStar'', lit ''XKalos'']) = 60"
proof -
  have "lengths_valid run_lengths_default" by (simp add: lengths_valid_def run_lengths_default_def)
  then show ?thesis
    using run_minutes_exact [of run_lengths_default "[lit ''HStar'', lit ''XKalos'']"]
    by (simp add: run_lengths_default_def)
qed

text \<open>A guild in UTC+8 whose boss week starts on Wednesday at midnight.\<close>

definition sample_zone :: tz where
  "sample_zone =
     \<lparr>tz_name = lit ''Asia/Kuala_Lumpur'', tz_from_utc = \<lambda>_. 28800, tz_from_local = \<lambda>_. Single 28800\<rparr>"

definition sample_policy :: schedule_policy where
  "sample_policy =
     schedule_policy_new
       \<lparr>rp_zone = sample_zone, rp_ping_time = hours 9, rp_countdowns = [15, 60, 15]\<rparr> Wed midnight"

lemma sample_zone_fixed: "fixed_zone sample_zone" "tz_coherent sample_zone"
  by (auto simp: fixed_zone_def tz_coherent_def sample_zone_def)

definition sample_ends :: run_ends where
  "sample_ends = \<lparr>re_lengths = run_lengths_default, re_catalog = None, re_policy = sample_policy\<rparr>"

lemma sample_plan:
  "plan sample_run 60 sample_policy =
     Ok \<lparr>cp_ends_at = hours 101, cp_prompt_at = Some (hours 101 + minutes 30), cp_cutoff_at = hours 112\<rparr>"
  by code_simp

lemma sample_ends_at: "ends_at sample_ends sample_run = Ok (hours 100 + minutes 30)"
  by code_simp



text \<open>C38. A run is frozen exactly when it is live, its end has come and staff did not set its status by
  hand since; once frozen it stays frozen, an own-time run not before the reset its plan cuts it
  off at; a status set by hand at any moment it is frozen reopens it for good.\<close>

theorem frozen_meaning:
  "(frozen e run now \<longleftrightarrow>
      is_live (r_status run) \<and>
      (\<exists>end. ends_at e run = Ok end \<and> end \<le> now \<and>
         (\<forall>pin. r_status_pin run = Some pin \<longrightarrow> pin_at pin < end))) \<and>
   (frozen e run now \<and> now \<le> later \<longrightarrow> frozen e run later) \<and>
   (frozen e run now \<and> r_status run = Otot \<longrightarrow>
      (\<exists>p. plan run (ends_minutes e (r_bosses run)) (re_policy e) = Ok p \<and> cp_cutoff_at p \<le> now)) \<and>
   (frozen e run now \<and> r_status run \<noteq> Otot \<and> s \<in> {Planned, Confirmed} \<longrightarrow>
      \<not> frozen e (run\<lparr>r_status := s, r_status_pin := Some \<lparr>pin_status = s, pin_at = now\<rparr>\<rparr>) later)"
proof -
  have iff: "frozen e run now \<longleftrightarrow>
      is_live (r_status run) \<and>
      (\<exists>end. ends_at e run = Ok end \<and> end \<le> now \<and>
         (\<forall>pin. r_status_pin run = Some pin \<longrightarrow> pin_at pin < end))" for run now
    by (cases "ends_at e run"; cases "r_status_pin run") (auto simp: frozen_def reopened_def)
  have same: "ends_at e (run\<lparr>r_status := s, r_status_pin := q\<rparr>) = ends_at e run"
    if "r_status run \<noteq> Otot" "s \<in> {Planned, Confirmed}" for q
    using that by (auto simp: ends_at_def plan_def)
  show ?thesis
    by (intro conjI) (use same in \<open>auto simp: iff ends_at_def res_bind_Ok_iff\<close>)
qed

theorem frozen_meaning_witness:
  "frozen sample_ends sample_run (hours 200) \<and>
   \<not> frozen sample_ends
       (sample_run\<lparr>r_status := Confirmed,
         r_status_pin := Some \<lparr>pin_status = Confirmed, pin_at = hours 150\<rparr>\<rparr>) (hours 200)"
proof -
  have f: "frozen sample_ends sample_run (hours 150)"
    using sample_ends_at by (simp add: frozen_def sample_run_def reopened_def hours_def minutes_def)
  moreover have "hours 150 \<le> hours 200" by (simp add: hours_def)
  moreover have "r_status sample_run \<noteq> Otot" by (simp add: sample_run_def)
  ultimately show ?thesis
    using frozen_meaning [of sample_ends sample_run "hours 150" "hours 200" Confirmed] by blast
qed

end
