(* ===== verification/Planner.thy ===== *)
theory Planner
  imports Prelude
begin

text \<open>
  How a planner threads its state: it reads and edits a working copy, draws row ids from a
  generator, and stops at the first error. An error carries no state, since a caller that sees
  one discards the partly changed copy (\<open>schedule/op.rs\<close>). The generator (\<open>ids.rs\<close>) is a
  parameter: the sequence of ids it will give, and how many were drawn.

  The second half is a small logic for such programs: \<open>valid\<close> triples over the working copy, and
  rules that carry an invariant through a program from the laws of its steps.
\<close>

section \<open>Programs\<close>

record id_source =
  id_supply :: "nat \<Rightarrow> str"
  id_drawn :: nat

type_synonym ('d, 'e, 'a) planner = "'d \<times> id_source \<Rightarrow> 'e + 'a \<times> 'd \<times> id_source"

definition ret :: "'a \<Rightarrow> ('d, 'e, 'a) planner" where
  "ret a = (\<lambda>s. Ok (a, s))"

definition bnd :: "('d, 'e, 'a) planner \<Rightarrow> ('a \<Rightarrow> ('d, 'e, 'b) planner) \<Rightarrow> ('d, 'e, 'b) planner" where
  "bnd m k = (\<lambda>s. case m s of Inl e \<Rightarrow> Err e | Inr (a, s') \<Rightarrow> k a s')"

definition fail :: "'e \<Rightarrow> ('d, 'e, 'a) planner" where
  "fail e = (\<lambda>s. Err e)"

text \<open>A result computed from values already read; \<open>?\<close> on it.\<close>

definition check :: "'e + 'a \<Rightarrow> ('d, 'e, 'a) planner" where
  "check r = (\<lambda>s. case r of Inl e \<Rightarrow> Err e | Inr a \<Rightarrow> Ok (a, s))"

definition reads :: "('d \<Rightarrow> 'a) \<Rightarrow> ('d, 'e, 'a) planner" where
  "reads f = (\<lambda>(d, ids). Ok (f d, d, ids))"

definition edit :: "('d \<Rightarrow> 'd) \<Rightarrow> ('d, 'e, unit) planner" where
  "edit f = (\<lambda>(d, ids). Ok ((), f d, ids))"

text \<open>A method that returns a value and changes the copy.\<close>

definition act :: "('d \<Rightarrow> 'a \<times> 'd) \<Rightarrow> ('d, 'e, 'a) planner" where
  "act f = (\<lambda>(d, ids). case f d of (a, d') \<Rightarrow> Ok (a, d', ids))"

text \<open>A method that changes the copy or fails.\<close>

definition attempt :: "('d \<Rightarrow> 'e + 'd) \<Rightarrow> ('d, 'e, unit) planner" where
  "attempt f = (\<lambda>(d, ids). case f d of Inl e \<Rightarrow> Err e | Inr d' \<Rightarrow> Ok ((), d', ids))"

definition new_id :: "('d, 'e, str) planner" where
  "new_id = (\<lambda>(d, ids). Ok (id_supply ids (id_drawn ids), d, ids\<lparr>id_drawn := Suc (id_drawn ids)\<rparr>))"

text \<open>Statements after one another, \<open>if\<close> without \<open>else\<close>, and \<open>for\<close> loops, with the value the
  loop accumulates.\<close>

definition seq :: "('d, 'e, unit) planner \<Rightarrow> ('d, 'e, 'b) planner \<Rightarrow> ('d, 'e, 'b) planner" where
  "seq m n = bnd m (\<lambda>_. n)"

definition only_if :: "bool \<Rightarrow> ('d, 'e, unit) planner \<Rightarrow> ('d, 'e, unit) planner" where
  "only_if b m = (if b then m else ret ())"

fun each :: "('a \<Rightarrow> ('d, 'e, unit) planner) \<Rightarrow> 'a list \<Rightarrow> ('d, 'e, unit) planner" where
  "each f [] = ret ()"
| "each f (x # xs) = bnd (f x) (\<lambda>_. each f xs)"

fun gather :: "('b \<Rightarrow> 'a \<Rightarrow> ('d, 'e, 'b) planner) \<Rightarrow> 'b \<Rightarrow> 'a list \<Rightarrow> ('d, 'e, 'b) planner" where
  "gather f acc [] = ret acc"
| "gather f acc (x # xs) = bnd (f acc x) (\<lambda>acc. gather f acc xs)"

section \<open>Running a program\<close>

named_theorems run_simps "running planners"

lemma run_prims [run_simps]:
  "ret a s = Ok (a, s)"
  "fail e s = Err e"
  "reads f (d, ids) = Ok (f d, d, ids)"
  "edit g (d, ids) = Ok ((), g d, ids)"
  "act h (d, ids) = Ok (fst (h d), snd (h d), ids)"
  by (simp_all add: ret_def fail_def reads_def edit_def act_def split: prod.splits)

lemma run_check [run_simps]: "check (Inl e) s = Err e" "check (Inr a) s = Ok (a, s)"
  by (simp_all add: check_def)

lemma run_bnd_reads [run_simps]: "bnd (reads f) k (d, ids) = k (f d) (d, ids)"
  by (simp add: bnd_def reads_def)

lemma run_bnd_edit [run_simps]: "bnd (edit f) k (d, ids) = k () (f d, ids)"
  by (simp add: bnd_def edit_def)

lemma run_bnd_act [run_simps]: "bnd (act f) k (d, ids) = k (fst (f d)) (snd (f d), ids)"
  by (simp add: bnd_def act_def split: prod.splits)

lemma run_bnd_ret [run_simps]: "bnd (ret a) k s = k a s"
  by (simp add: bnd_def ret_def)

lemma run_bnd_fail [run_simps]: "bnd (fail e) k s = Err e"
  by (simp add: bnd_def fail_def)

lemma run_bnd_check [run_simps]: "bnd (check r) k s = (case r of Inl e \<Rightarrow> Err e | Inr a \<Rightarrow> k a s)"
  by (cases r) (simp_all add: bnd_def check_def)

lemma run_check_Ok_iff: "check r s = Ok (a, s') \<longleftrightarrow> r = Ok a \<and> s' = s"
  by (cases r) (auto simp: check_def)

lemma run_bnd_Ok_iff: "bnd m k s = Ok r \<longleftrightarrow> (\<exists>a s'. m s = Ok (a, s') \<and> k a s' = Ok r)"
  by (auto simp: bnd_def split: sum.splits prod.splits)

lemma run_attempt_Ok_iff: "attempt f (d, ids) = Ok (u, d', ids') \<longleftrightarrow> f d = Ok d' \<and> ids' = ids"
  by (auto simp: attempt_def split: sum.splits)

lemma run_new_id_Ok_iff:
  "new_id (d, ids) = Ok (i, d', ids') \<longleftrightarrow>
     i = id_supply ids (id_drawn ids) \<and> d' = d \<and> ids' = ids\<lparr>id_drawn := Suc (id_drawn ids)\<rparr>"
  by (auto simp: new_id_def)

lemma run_bnd_Ok: "m s = Ok (a, s') \<Longrightarrow> bnd m k s = k a s'"
  by (simp add: bnd_def)

lemma run_bnd_bnd: "bnd (bnd m k) k' s = bnd m (\<lambda>a. bnd (k a) k') s"
  by (simp add: bnd_def split: sum.splits prod.splits)

lemma run_bnd_Err: "m s = Err e \<Longrightarrow> bnd m k s = Err e"
  by (simp add: bnd_def)

lemma bnd_OkE:
  assumes "bnd m k (d, ids) = Ok (b, d', ids')"
  obtains a d1 ids1 where "m (d, ids) = Ok (a, d1, ids1)" "k a (d1, ids1) = Ok (b, d', ids')"
  using assms unfolding run_bnd_Ok_iff by (metis prod.exhaust)

section \<open>Triples\<close>

definition valid :: "('d \<Rightarrow> bool) \<Rightarrow> ('d, 'e, 'a) planner \<Rightarrow> ('a \<Rightarrow> 'd \<Rightarrow> bool) \<Rightarrow> bool" where
  "valid P m Q \<longleftrightarrow>
     (\<forall>d ids a d' ids'. P d \<longrightarrow> m (d, ids) = Ok (a, d', ids') \<longrightarrow> Q a d')"

abbreviation keeps :: "('d \<Rightarrow> bool) \<Rightarrow> ('d, 'e, 'a) planner \<Rightarrow> bool" where
  "keeps I m \<equiv> valid I m (\<lambda>_. I)"

lemma validI: "(\<And>d ids a d' ids'. P d \<Longrightarrow> m (d, ids) = Ok (a, d', ids') \<Longrightarrow> Q a d') \<Longrightarrow> valid P m Q"
  by (simp add: valid_def)

lemma validD: "valid P m Q \<Longrightarrow> m (d, ids) = Ok (a, d', ids') \<Longrightarrow> P d \<Longrightarrow> Q a d'"
  unfolding valid_def by blast

lemma valid_pre: "valid P' m Q \<Longrightarrow> (\<And>d. P d \<Longrightarrow> P' d) \<Longrightarrow> valid P m Q"
  unfolding valid_def by blast

lemma valid_post: "valid P m Q' \<Longrightarrow> (\<And>a d. Q' a d \<Longrightarrow> Q a d) \<Longrightarrow> valid P m Q"
  unfolding valid_def by blast

lemma valid_conj: "valid P m Q \<Longrightarrow> valid P' m Q' \<Longrightarrow> valid (\<lambda>d. P d \<and> P' d) m (\<lambda>a d. Q a d \<and> Q' a d)"
  unfolding valid_def by blast

lemma valid_bnd: "valid P m Q \<Longrightarrow> (\<And>a. valid (Q a) (k a) R) \<Longrightarrow> valid P (bnd m k) R"
  unfolding valid_def by (metis bnd_OkE)

lemma valid_reads: "(\<And>d. P d \<Longrightarrow> Q (f d) d) \<Longrightarrow> valid P (reads f) Q"
  by (auto simp: valid_def reads_def)

lemma valid_reads_bnd:
  "(\<And>d0. P d0 \<Longrightarrow> valid (\<lambda>d. P d \<and> d = d0) (k (f d0)) R) \<Longrightarrow> valid P (bnd (reads f) k) R"
  by (auto simp: valid_def run_simps)

lemma valid_edit: "(\<And>d. P d \<Longrightarrow> Q () (f d)) \<Longrightarrow> valid P (edit f) Q"
  by (auto simp: valid_def edit_def)

lemma valid_check: "(\<And>a d. r = Ok a \<Longrightarrow> P d \<Longrightarrow> Q a d) \<Longrightarrow> valid P (check r) Q"
  by (auto simp: valid_def check_def split: sum.splits)

named_theorems keeps_rules "an invariant through a program"

lemma keeps_ret [keeps_rules]: "keeps I (ret a)"
  by (simp add: valid_def ret_def)

lemma keeps_fail [keeps_rules]: "keeps I (fail e)"
  by (simp add: valid_def fail_def)

lemma keeps_check [keeps_rules]: "keeps I (check r)"
  by (rule valid_check)

lemma keeps_reads [keeps_rules]: "keeps I (reads f)"
  by (rule valid_reads)

lemma keeps_new_id [keeps_rules]: "keeps I new_id"
  by (simp add: valid_def new_id_def)

lemma keeps_bnd [keeps_rules]: "keeps I m \<Longrightarrow> (\<And>a. keeps I (k a)) \<Longrightarrow> keeps I (bnd m k)"
  by (rule valid_bnd)

lemma keeps_seq [keeps_rules]: "keeps I m \<Longrightarrow> keeps I n \<Longrightarrow> keeps I (seq m n)"
  unfolding seq_def by (rule keeps_bnd)

lemma keeps_only_if [keeps_rules]: "(b \<Longrightarrow> keeps I m) \<Longrightarrow> keeps I (only_if b m)"
  by (simp add: only_if_def keeps_ret)

lemma keeps_if [keeps_rules]: "(b \<Longrightarrow> keeps I m) \<Longrightarrow> (\<not> b \<Longrightarrow> keeps I n) \<Longrightarrow> keeps I (if b then m else n)"
  by simp

lemma keeps_option [keeps_rules]:
  "(x = None \<Longrightarrow> keeps I m) \<Longrightarrow> (\<And>a. x = Some a \<Longrightarrow> keeps I (k a)) \<Longrightarrow>
   keeps I (case x of None \<Rightarrow> m | Some a \<Rightarrow> k a)"
  by (cases x) simp_all

lemma keeps_prod [keeps_rules]: "(\<And>a b. keeps I (k a b)) \<Longrightarrow> keeps I (case p of (a, b) \<Rightarrow> k a b)"
  by (cases p) simp

lemma keeps_let [keeps_rules]: "(\<And>x. keeps I (k x)) \<Longrightarrow> keeps I (let x = e in k x)"
  by (simp add: Let_def)

lemma keeps_edit [keeps_rules]: "(\<And>d. I d \<Longrightarrow> I (f d)) \<Longrightarrow> keeps I (edit f)"
  by (rule valid_edit)

lemma keeps_act [keeps_rules]: "(\<And>d. I d \<Longrightarrow> I (snd (f d))) \<Longrightarrow> keeps I (act f)"
  by (auto simp: valid_def act_def split: prod.splits) (metis snd_conv)

lemma keeps_attempt: "(\<And>d d'. I d \<Longrightarrow> f d = Ok d' \<Longrightarrow> I d') \<Longrightarrow> keeps I (attempt f)"
  by (auto simp: valid_def run_attempt_Ok_iff)

lemma keeps_each [keeps_rules]: "(\<And>x. keeps I (f x)) \<Longrightarrow> keeps I (each f xs)"
  by (induction xs) (auto intro: keeps_rules)

lemma keeps_gather [keeps_rules]: "(\<And>acc x. keeps I (f acc x)) \<Longrightarrow> keeps I (gather f acc xs)"
  by (induction xs arbitrary: acc) (auto intro: keeps_rules)

lemma valid_each: "(\<And>x. x \<in> set xs \<Longrightarrow> valid I (f x) (\<lambda>_. I)) \<Longrightarrow> valid I (each f xs) (\<lambda>_. I)"
  by (induction xs) (auto intro: keeps_ret valid_bnd)

lemma valid_gather:
  assumes "\<And>acc x. x \<in> set xs \<Longrightarrow> valid (I acc) (f acc x) (\<lambda>acc'. I acc')"
  shows "valid (I acc) (gather f acc xs) (\<lambda>acc'. I acc')"
  using assms
proof (induction xs arbitrary: acc)
  case Nil
  show ?case by (simp add: valid_def ret_def)
next
  case (Cons x xs)
  show ?case
    unfolding gather.simps
    by (rule valid_bnd [where Q = I]) (use Cons in auto)
qed

end
