(* ===== verification/WorkingDraft.thy ===== *)
theory WorkingDraft
  imports Completion Planner
begin

text \<open>
  The mutable working copy of a snapshot (\<open>schedule/draft.rs\<close>): the rows as tables in key
  order, every method planners call on it, and the change set that turns the loaded snapshot
  into it. A method that only changes the copy is a function on drafts; one that draws an id is
  a planner. \<open>collapse\<close> and \<open>store_write\<close> are the store's side (\<open>sqlite/schedule.rs\<close>): the last
  write of each key, put over the stored rows.
\<close>

section \<open>State\<close>

record draft =
  dr_base :: snapshot
  dr_fixed :: "(str, fixed_run) table"
  dr_runs :: "(str, run) table"
  dr_reminders :: "(str, reminder) table"
  dr_rsvps :: "(str \<times> str, rsvp) table"
  dr_attendance :: attendance_policy
  dr_ends :: "run_ends option"
  dr_revived :: "(str, run_status) table"

type_synonym 'a plan = "(draft, schedule_error, 'a) planner"

definition keyed :: "'r list \<Rightarrow> ('r \<Rightarrow> 'k::linorder) \<Rightarrow> ('k, 'r) table" where
  "keyed rows key = t_collect (map (\<lambda>row. (key row, row)) rows)"

definition rsvp_key :: "rsvp \<Rightarrow> str \<times> str" where
  "rsvp_key row = (a_run_id row, a_user_id row)"

definition draft_new :: "snapshot \<Rightarrow> draft" where
  "draft_new base =
     \<lparr>dr_base = base,
      dr_fixed = keyed (sn_fixed_runs base) f_id,
      dr_runs = keyed (sn_runs base) r_id,
      dr_reminders = keyed (sn_reminders base) m_id,
      dr_rsvps = keyed (sn_rsvps base) rsvp_key,
      dr_attendance = attendance_v5, dr_ends = None, dr_revived = []\<rparr>"

definition with_attendance :: "attendance_policy \<Rightarrow> draft \<Rightarrow> draft" where
  "with_attendance p d = d\<lparr>dr_attendance := p\<rparr>"

definition with_run_ends :: "run_ends option \<Rightarrow> draft \<Rightarrow> draft" where
  "with_run_ends e d = d\<lparr>dr_ends := e\<rparr>"

section \<open>Ended runs\<close>

definition draft_ended :: "draft \<Rightarrow> run \<Rightarrow> instant \<Rightarrow> bool" where
  "draft_ended d run now =
     (case dr_ends d of
        None \<Rightarrow> False
      | Some ends \<Rightarrow>
          (case t_get (dr_revived d) (r_id run) of
             Some status \<Rightarrow> frozen ends (run\<lparr>r_status := status\<rparr>) now
           | None \<Rightarrow> frozen ends run now))"

definition refuse_ended :: "str \<Rightarrow> instant \<Rightarrow> draft \<Rightarrow> schedule_error + unit" where
  "refuse_ended run_id now d =
     (case t_get (dr_runs d) run_id of
        Some run \<Rightarrow> if draft_ended d run now then Err (RunEnded run_id) else Ok ()
      | None \<Rightarrow> Ok ())"

section \<open>Weekly timings\<close>

definition insert_fixed_run :: "str \<Rightarrow> new_fixed_run \<Rightarrow> draft \<Rightarrow> draft" where
  "insert_fixed_run rid new d =
     d\<lparr>dr_fixed := t_insert rid
         \<lparr>f_id = rid, f_owner_id = nf_owner_id new, f_channel_id = nf_channel_id new,
          f_bosses = nf_bosses new, f_weekday = nf_weekday new, f_time = nf_time new,
          f_participants = nf_participants new, f_note = nf_note new,
          f_attendance_default = OptIn, f_standing = [],
          f_owner_pinned = nf_owner_pinned new\<rparr> (dr_fixed d)\<rparr>"

definition add_fixed_run :: "new_fixed_run \<Rightarrow> str plan" where
  "add_fixed_run new = bnd new_id (\<lambda>rid. seq (edit (insert_fixed_run rid new)) (ret rid))"

definition draft_fixed_run :: "draft \<Rightarrow> str \<Rightarrow> fixed_run option" where
  "draft_fixed_run d rid = t_get (dr_fixed d) rid"

definition draft_fixed_runs :: "draft \<Rightarrow> fixed_run list" where
  "draft_fixed_runs d = sort_key fixed_order (t_values (dr_fixed d))"

definition set_opt :: "'v option \<Rightarrow> ('v \<Rightarrow> 'r \<Rightarrow> 'r) \<Rightarrow> 'r \<Rightarrow> 'r" where
  "set_opt v f row = (case v of Some x \<Rightarrow> f x row | None \<Rightarrow> row)"

definition patch_participants :: "str list \<Rightarrow> fixed_run \<Rightarrow> fixed_run" where
  "patch_participants party row =
     row\<lparr>f_participants := party,
         f_standing := filter (\<lambda>answer. contains party (st_user_id answer)) (f_standing row)\<rparr>"

definition patched :: "fixed_run_patch \<Rightarrow> fixed_run \<Rightarrow> fixed_run" where
  "patched patch row =
     set_opt (p_note patch) (\<lambda>v. f_note_update (\<lambda>_. Some v))
      (set_opt (p_participants patch) patch_participants
       (set_opt (p_time patch) (\<lambda>v. f_time_update (\<lambda>_. v))
        (set_opt (p_weekday patch) (\<lambda>v. f_weekday_update (\<lambda>_. v))
         (set_opt (p_bosses patch) (\<lambda>v. f_bosses_update (\<lambda>_. v))
          (set_opt (p_channel_id patch) (\<lambda>v. f_channel_id_update (\<lambda>_. Some v))
           (set_opt (p_owner_pinned patch) (\<lambda>v. f_owner_pinned_update (\<lambda>_. v))
            (set_opt (p_owner_id patch) (\<lambda>v. f_owner_id_update (\<lambda>_. v)) row)))))))"

definition update_fixed_run :: "str \<Rightarrow> fixed_run_patch \<Rightarrow> draft \<Rightarrow> draft" where
  "update_fixed_run rid patch d = d\<lparr>dr_fixed := t_modify rid (patched patch) (dr_fixed d)\<rparr>"

definition delete_fixed_run :: "str \<Rightarrow> draft \<Rightarrow> draft" where
  "delete_fixed_run rid d = d\<lparr>dr_fixed := t_remove rid (dr_fixed d)\<rparr>"

definition put_fixed_run :: "fixed_run \<Rightarrow> draft \<Rightarrow> draft" where
  "put_fixed_run row d = d\<lparr>dr_fixed := t_insert (f_id row) row (dr_fixed d)\<rparr>"

section \<open>Runs\<close>

definition draft_run :: "draft \<Rightarrow> str \<Rightarrow> run option" where
  "draft_run d rid = t_get (dr_runs d) rid"

definition require_run :: "str \<Rightarrow> draft \<Rightarrow> schedule_error + run" where
  "require_run rid d = ok_or (UnknownRun rid) (draft_run d rid)"

definition run_for_fixed :: "draft \<Rightarrow> str \<Rightarrow> instant \<Rightarrow> run option" where
  "run_for_fixed d fixed_id week =
     find (\<lambda>run. r_fixed_run_id run = Some fixed_id \<and> r_week_start run = week)
       (t_values (dr_runs d))"

definition draft_runs :: "draft \<Rightarrow> instant option \<Rightarrow> run list" where
  "draft_runs d only =
     sort_key run_order
       (filter (\<lambda>run. case only of Some week \<Rightarrow> r_week_start run = week | None \<Rightarrow> True)
         (t_values (dr_runs d)))"

definition check_fixed_week ::
  "str \<Rightarrow> str option \<Rightarrow> instant \<Rightarrow> draft \<Rightarrow> schedule_error + unit" where
  "check_fixed_week run_id fixed_run_id week d =
     (case Option.bind fixed_run_id (\<lambda>fixed. run_for_fixed d fixed week) of
        Some other \<Rightarrow> if r_id other \<noteq> run_id then Err RunMoveConflict else Ok ()
      | None \<Rightarrow> Ok ())"

definition modify_run :: "str \<Rightarrow> (run \<Rightarrow> run) \<Rightarrow> draft \<Rightarrow> draft" where
  "modify_run rid f d = d\<lparr>dr_runs := t_modify rid f (dr_runs d)\<rparr>"

definition insert_run :: "str \<Rightarrow> new_run \<Rightarrow> draft \<Rightarrow> schedule_error + draft" where
  "insert_run rid new d =
     res_bind (check_fixed_week rid (nr_fixed_run_id new) (nr_week_start new) d) (\<lambda>_.
     Ok (d\<lparr>dr_runs := t_insert rid
            \<lparr>r_id = rid, r_fixed_run_id = nr_fixed_run_id new, r_channel_id = nr_channel_id new,
             r_week_start = nr_week_start new, r_datetime = nr_datetime new,
             r_bosses = nr_bosses new, r_participants = nr_participants new,
             r_status = nr_status new, r_source = nr_source new, r_attendance = [],
             r_status_pin = None\<rparr> (dr_runs d)\<rparr>))"

definition create_run :: "new_run \<Rightarrow> str plan" where
  "create_run new = bnd new_id (\<lambda>rid. seq (attempt (insert_run rid new)) (ret rid))"

definition put_run :: "run \<Rightarrow> draft \<Rightarrow> draft" where
  "put_run row d = d\<lparr>dr_runs := t_insert (r_id row) row (dr_runs d)\<rparr>"

definition run_set_status :: "run_status \<Rightarrow> run \<Rightarrow> run" where
  "run_set_status status run =
     run\<lparr>r_attendance := (if r_status run = Done \<and> status \<noteq> Done then [] else r_attendance run),
         r_status_pin := (if status \<notin> {Planned, Confirmed, AtRisk} then None else r_status_pin run),
         r_status := status\<rparr>"

definition set_run_status :: "str \<Rightarrow> run_status \<Rightarrow> draft \<Rightarrow> draft" where
  "set_run_status rid status d = modify_run rid (run_set_status status) d"

definition set_run_pin :: "str \<Rightarrow> status_pin option \<Rightarrow> draft \<Rightarrow> draft" where
  "set_run_pin rid pin d = modify_run rid (r_status_pin_update (\<lambda>_. pin)) d"

text \<open>\<open>revive_run\<close> remembers the first status a run was revived from.\<close>

definition note_revived :: "str \<Rightarrow> run_status \<Rightarrow> draft \<Rightarrow> draft" where
  "note_revived run_id from d =
     (if t_has (dr_revived d) run_id then d
      else d\<lparr>dr_revived := t_insert run_id from (dr_revived d)\<rparr>)"

definition revive_run :: "str \<Rightarrow> run_status \<Rightarrow> draft \<Rightarrow> draft" where
  "revive_run run_id from d = set_run_status run_id Planned (note_revived run_id from d)"

definition set_run_datetime :: "str \<Rightarrow> instant \<Rightarrow> instant \<Rightarrow> draft \<Rightarrow> schedule_error + draft" where
  "set_run_datetime rid at week d =
     (case draft_run d rid of
        None \<Rightarrow> Ok d
      | Some run \<Rightarrow>
          res_bind (check_fixed_week rid (r_fixed_run_id run) week d) (\<lambda>_.
          Ok (modify_run rid (\<lambda>run. run\<lparr>r_datetime := at, r_week_start := week\<rparr>) d)))"

definition set_run_fixed :: "str \<Rightarrow> str option \<Rightarrow> draft \<Rightarrow> schedule_error + draft" where
  "set_run_fixed rid fixed_run_id d =
     (case draft_run d rid of
        None \<Rightarrow> Ok d
      | Some run \<Rightarrow>
          res_bind (check_fixed_week rid fixed_run_id (r_week_start run) d) (\<lambda>_.
          Ok (modify_run rid (r_fixed_run_id_update (\<lambda>_. fixed_run_id)) d)))"

definition run_set_participants :: "str list \<Rightarrow> instant \<Rightarrow> run \<Rightarrow> run" where
  "run_set_participants people now run =
     run\<lparr>r_attendance := filter (\<lambda>rec. contains people (ar_user_id rec)) (r_attendance run),
         r_status_pin :=
           (if r_participants run \<noteq> people \<and> now < r_datetime run then None
            else r_status_pin run),
         r_participants := people\<rparr>"

definition set_run_participants :: "str \<Rightarrow> str list \<Rightarrow> instant \<Rightarrow> draft \<Rightarrow> draft" where
  "set_run_participants rid people now d = modify_run rid (run_set_participants people now) d"

definition set_run_bosses :: "str \<Rightarrow> str list \<Rightarrow> draft \<Rightarrow> draft" where
  "set_run_bosses rid bosses d = modify_run rid (r_bosses_update (\<lambda>_. bosses)) d"

definition set_run_channel :: "str \<Rightarrow> str option \<Rightarrow> draft \<Rightarrow> draft" where
  "set_run_channel rid channel d = modify_run rid (r_channel_id_update (\<lambda>_. channel)) d"

section \<open>Answers\<close>

definition put_rsvp :: "rsvp \<Rightarrow> draft \<Rightarrow> draft" where
  "put_rsvp row d = d\<lparr>dr_rsvps := t_insert (rsvp_key row) row (dr_rsvps d)\<rparr>"

definition set_rsvp ::
  "str \<Rightarrow> str \<Rightarrow> rsvp_state \<Rightarrow> rsvp_source \<Rightarrow> instant \<Rightarrow> draft \<Rightarrow> draft" where
  "set_rsvp run_id user_id state source at d =
     put_rsvp \<lparr>a_run_id = run_id, a_user_id = user_id, a_state = state, a_source = source,
               a_at = at\<rparr> d"

definition clear_rsvp :: "str \<Rightarrow> str \<Rightarrow> draft \<Rightarrow> draft" where
  "clear_rsvp run_id user_id d = d\<lparr>dr_rsvps := t_remove (run_id, user_id) (dr_rsvps d)\<rparr>"

definition draft_rsvps :: "draft \<Rightarrow> str \<Rightarrow> (str, rsvp_state) table" where
  "draft_rsvps d run_id =
     t_collect (map (\<lambda>row. (a_user_id row, a_state row))
       (filter (\<lambda>row. a_run_id row = run_id) (t_values (dr_rsvps d))))"

definition draft_rsvp :: "draft \<Rightarrow> str \<Rightarrow> str \<Rightarrow> rsvp option" where
  "draft_rsvp d run_id user_id = t_get (dr_rsvps d) (run_id, user_id)"

section \<open>Reminders\<close>

text \<open>The \<open>INSERT OR IGNORE\<close> behind \<open>add_reminder\<close>: \<open>None\<close> when the row already exists.\<close>

definition insert_reminder ::
  "str \<Rightarrow> str \<Rightarrow> str \<Rightarrow> instant \<Rightarrow> instant option \<Rightarrow> draft \<Rightarrow> str option \<times> draft" where
  "insert_reminder rid run_id kind fire_at sent_at d =
     (let taken = list_ex (\<lambda>row. m_run_id row = run_id \<and> m_kind row = kind)
                    (t_values (dr_reminders d))
      in if taken \<or> t_has (dr_reminders d) rid then (None, d)
         else (Some rid,
               d\<lparr>dr_reminders := t_insert rid
                   \<lparr>m_id = rid, m_run_id = run_id, m_kind = kind, m_fire_at = fire_at,
                    m_sent_at = sent_at, m_message_id = None\<rparr> (dr_reminders d)\<rparr>))"

definition add_reminder ::
  "str \<Rightarrow> str \<Rightarrow> instant \<Rightarrow> instant option \<Rightarrow> str option plan" where
  "add_reminder run_id kind fire_at sent_at =
     bnd new_id (\<lambda>rid. act (insert_reminder rid run_id kind fire_at sent_at))"

definition draft_reminder :: "draft \<Rightarrow> str \<Rightarrow> reminder option" where
  "draft_reminder d rid = t_get (dr_reminders d) rid"

definition draft_reminders :: "draft \<Rightarrow> str \<Rightarrow> reminder list" where
  "draft_reminders d run_id =
     sort_key (\<lambda>row. (m_fire_at row, m_kind row))
       (filter (\<lambda>row. m_run_id row = run_id) (t_values (dr_reminders d)))"

definition delete_reminder :: "str \<Rightarrow> draft \<Rightarrow> draft" where
  "delete_reminder rid d = d\<lparr>dr_reminders := t_remove rid (dr_reminders d)\<rparr>"

definition delete_reminders :: "str \<Rightarrow> draft \<Rightarrow> draft" where
  "delete_reminders run_id d =
     d\<lparr>dr_reminders := t_retain (\<lambda>row. m_run_id row \<noteq> run_id) (dr_reminders d)\<rparr>"

definition delete_unsent_reminders :: "str \<Rightarrow> str list \<Rightarrow> draft \<Rightarrow> draft" where
  "delete_unsent_reminders run_id keep_kinds d =
     d\<lparr>dr_reminders := t_retain (\<lambda>row.
         m_run_id row \<noteq> run_id \<or> m_sent_at row \<noteq> None \<or> contains keep_kinds (m_kind row))
       (dr_reminders d)\<rparr>"

definition rescheduled :: "bool \<Rightarrow> instant \<Rightarrow> instant \<Rightarrow> reminder \<Rightarrow> reminder option" where
  "rescheduled unproven fire_at now row =
     (if m_message_id row \<noteq> None then None
      else if fire_at > now then
        (if m_fire_at row = fire_at \<and> m_sent_at row = None \<or> unproven then None
         else Some (row\<lparr>m_sent_at := None, m_fire_at := fire_at\<rparr>))
      else
        (if m_fire_at row = fire_at \<and> m_sent_at row \<noteq> None then None
         else Some (row\<lparr>m_sent_at := (case m_sent_at row of Some t \<Rightarrow> Some t | None \<Rightarrow> Some now),
                        m_fire_at := fire_at\<rparr>)))"

definition reschedule_unposted_reminder ::
  "str \<Rightarrow> instant \<Rightarrow> instant \<Rightarrow> draft \<Rightarrow> bool \<times> draft" where
  "reschedule_unposted_reminder rid fire_at now d =
     (case draft_reminder d rid of
        None \<Rightarrow> (False, d)
      | Some row \<Rightarrow>
          (case rescheduled (contains (sn_unproven_retired (dr_base d)) rid) fire_at now row of
             None \<Rightarrow> (False, d)
           | Some row' \<Rightarrow> (True, d\<lparr>dr_reminders := t_modify rid (\<lambda>_. row') (dr_reminders d)\<rparr>)))"

definition mark_reminder_sent :: "str \<Rightarrow> str option \<Rightarrow> instant \<Rightarrow> draft \<Rightarrow> draft" where
  "mark_reminder_sent rid message_id at d =
     d\<lparr>dr_reminders := t_modify rid (\<lambda>row.
         row\<lparr>m_sent_at := Some at,
             m_message_id := (case message_id of
                                Some t \<Rightarrow> if t = [] then None else Some t | None \<Rightarrow> None)\<rparr>)
       (dr_reminders d)\<rparr>"

section \<open>Snapshots and change sets\<close>

definition to_snapshot :: "draft \<Rightarrow> snapshot" where
  "to_snapshot d =
     snapshot_sort
       \<lparr>sn_revision = sn_revision (dr_base d),
        sn_fixed_runs = t_values (dr_fixed d), sn_runs = t_values (dr_runs d),
        sn_reminders = t_values (dr_reminders d), sn_rsvps = t_values (dr_rsvps d),
        sn_unproven_retired = sn_unproven_retired (dr_base d)\<rparr>"

definition puts ::
  "('k, 'r) table \<Rightarrow> ('k, 'r) table \<Rightarrow> ('r \<Rightarrow> change) \<Rightarrow> change list" where
  "puts base current wrap =
     map (\<lambda>(_, row). wrap row) (filter (\<lambda>(k, row). t_get base k \<noteq> Some row) current)"

definition deletes ::
  "('k, 'r) table \<Rightarrow> ('k, 'r) table \<Rightarrow> ('k \<Rightarrow> change) \<Rightarrow> change list" where
  "deletes base current wrap = map wrap (filter (\<lambda>k. \<not> t_has current k) (t_keys base))"

definition into_changes :: "draft \<Rightarrow> change list" where
  "into_changes d =
     (let base_fixed = keyed (sn_fixed_runs (dr_base d)) f_id;
          base_runs = keyed (sn_runs (dr_base d)) r_id;
          base_reminders = keyed (sn_reminders (dr_base d)) m_id;
          base_rsvps = keyed (sn_rsvps (dr_base d)) rsvp_key
      in deletes base_reminders (dr_reminders d) DeleteReminder @
         deletes base_rsvps (dr_rsvps d) (\<lambda>(run_id, user_id). DeleteRsvp run_id user_id) @
         deletes base_fixed (dr_fixed d) DeleteFixedRun @
         puts base_fixed (dr_fixed d) PutFixedRun @
         puts base_runs (dr_runs d) PutRun @
         puts base_reminders (dr_reminders d) PutReminder @
         puts base_rsvps (dr_rsvps d) PutRsvp)"

end
