(* ===== verification/DraftLaws.thy ===== *)
theory DraftLaws
  imports WorkingDraft
begin

text \<open>
  What a planner may rely on about the working copy, as interfaces. \<open>run_reminders\<close>,
  \<open>run_status_writes\<close> and \<open>run_writes\<close> are the contracts of a property of drafts that the methods
  keep when they are called on one run: its reminders, its status, everything of it. The
  planners that work on one run are proved once, inside these locales, to keep any such property.
  \<open>reminder_writes\<close>, \<open>status_writes\<close> and \<open>draft_invariant\<close> demand the same of every run and of the
  other methods, and get the facts of the one-run contracts for every run.
\<close>

section \<open>One run\<close>

locale run_reminders =
  fixes I :: "draft \<Rightarrow> bool" and rid :: str
  assumes insert_reminder: "I d \<Longrightarrow> I (snd (insert_reminder mid rid kind fire_at sent_at d))"
    and delete_reminders: "I d \<Longrightarrow> I (delete_reminders rid d)"
    and delete_unsent: "I d \<Longrightarrow> I (delete_unsent_reminders rid kinds d)"
begin

lemma keeps_add_reminder [keeps_rules]: "keeps I (add_reminder rid kind fire_at sent_at)"
  unfolding add_reminder_def by (intro keeps_rules insert_reminder)

end

locale run_status_writes = run_reminders I rid for I :: "draft \<Rightarrow> bool" and rid :: str +
  assumes set_status: "I d \<Longrightarrow> I (set_run_status rid status d)"
    and clear_pin: "I d \<Longrightarrow> I (set_run_pin rid None d)"

locale run_writes = run_status_writes I rid for I :: "draft \<Rightarrow> bool" and rid :: str +
  assumes set_pin:
      "I d \<Longrightarrow> pin_status pin \<in> {Planned, Confirmed} \<Longrightarrow>
       (\<And>run. draft_run d rid = Some run \<Longrightarrow> r_status run = pin_status pin) \<Longrightarrow>
       I (set_run_pin rid (Some pin) d)"
    and set_datetime: "I d \<Longrightarrow> set_run_datetime rid at week d = Ok d' \<Longrightarrow> I d'"
    and set_fixed: "I d \<Longrightarrow> set_run_fixed rid fixed d = Ok d' \<Longrightarrow> I d'"
    and set_participants: "I d \<Longrightarrow> I (set_run_participants rid people now d)"
    and set_bosses: "I d \<Longrightarrow> I (set_run_bosses rid bosses d)"
    and set_channel: "I d \<Longrightarrow> I (set_run_channel rid channel d)"
    and set_rsvp: "I d \<Longrightarrow> I (set_rsvp rid user state source at d)"
    and clear_rsvp: "I d \<Longrightarrow> I (clear_rsvp rid user d)"
    and note_revived: "I d \<Longrightarrow> I (note_revived rid from d)"
begin

lemma revive: "I d \<Longrightarrow> I (revive_run rid from d)"
  unfolding revive_run_def by (intro set_status note_revived)

lemma keeps_set_datetime: "keeps I (attempt (set_run_datetime rid at week))"
  by (rule keeps_attempt) (rule set_datetime)

lemma keeps_set_fixed: "keeps I (attempt (set_run_fixed rid fixed))"
  by (rule keeps_attempt) (rule set_fixed)

text \<open>The edits a planner makes to the run, each keeping \<open>I\<close>.\<close>

lemmas run_edits = insert_reminder delete_reminders delete_unsent set_status clear_pin
  set_participants set_bosses set_channel set_rsvp clear_rsvp note_revived revive

lemmas run_steps = run_edits keeps_set_datetime keeps_set_fixed

end

section \<open>Every run\<close>

locale reminder_writes =
  fixes I :: "draft \<Rightarrow> bool"
  assumes insert_reminder: "I d \<Longrightarrow> I (snd (insert_reminder rid run_id kind fire_at sent_at d))"
    and delete_reminders: "I d \<Longrightarrow> I (delete_reminders run_id d)"
    and delete_unsent: "I d \<Longrightarrow> I (delete_unsent_reminders run_id kinds d)"
    and reschedule: "I d \<Longrightarrow> I (snd (reschedule_unposted_reminder rid fire_at now d))"
    and mark_sent: "I d \<Longrightarrow> I (mark_reminder_sent rid message at d)"

sublocale reminder_writes \<subseteq> run: run_reminders I rid for rid
  by unfold_locales (rule insert_reminder delete_reminders delete_unsent; assumption)+

locale status_writes = reminder_writes I for I :: "draft \<Rightarrow> bool" +
  assumes set_status: "I d \<Longrightarrow> I (set_run_status rid status d)"
    and clear_pin: "I d \<Longrightarrow> I (set_run_pin rid None d)"

sublocale status_writes \<subseteq> run: run_status_writes I rid for rid
  by unfold_locales (rule set_status clear_pin; assumption)+

locale draft_invariant = status_writes I for I :: "draft \<Rightarrow> bool" +
  assumes set_pin:
      "I d \<Longrightarrow> pin_status pin \<in> {Planned, Confirmed} \<Longrightarrow>
       (\<And>run. draft_run d rid = Some run \<Longrightarrow> r_status run = pin_status pin) \<Longrightarrow>
       I (set_run_pin rid (Some pin) d)"
    and set_datetime: "I d \<Longrightarrow> set_run_datetime rid at week d = Ok d' \<Longrightarrow> I d'"
    and set_fixed: "I d \<Longrightarrow> set_run_fixed rid fixed d = Ok d' \<Longrightarrow> I d'"
    and set_participants: "I d \<Longrightarrow> I (set_run_participants rid people now d)"
    and set_bosses: "I d \<Longrightarrow> I (set_run_bosses rid bosses d)"
    and set_channel: "I d \<Longrightarrow> I (set_run_channel rid channel d)"
    and insert_run: "I d \<Longrightarrow> insert_run rid new d = Ok d' \<Longrightarrow> I d'"
    and set_rsvp: "I d \<Longrightarrow> I (set_rsvp rid user state source at d)"
    and clear_rsvp: "I d \<Longrightarrow> I (clear_rsvp rid user d)"
    and insert_fixed: "I d \<Longrightarrow> I (insert_fixed_run rid newf d)"
    and update_fixed: "I d \<Longrightarrow> I (update_fixed_run rid patch d)"
    and delete_fixed: "I d \<Longrightarrow> I (delete_fixed_run rid d)"
    and note_revived: "I d \<Longrightarrow> I (note_revived rid from d)"

sublocale draft_invariant \<subseteq> run: run_writes I rid for rid
  by unfold_locales
    (rule set_pin set_datetime set_fixed set_participants set_bosses set_channel set_rsvp clear_rsvp
      note_revived; assumption)+

context draft_invariant
begin

lemma keeps_insert_run: "keeps I (attempt (insert_run rid new))"
  by (rule keeps_attempt) (rule insert_run)

lemma keeps_create_run [keeps_rules]: "keeps I (create_run new)"
  unfolding create_run_def by (intro keeps_rules keeps_insert_run)

lemma keeps_add_fixed_run [keeps_rules]: "keeps I (add_fixed_run new)"
  unfolding add_fixed_run_def by (intro keeps_rules insert_fixed)

text \<open>The edits a planner makes, each keeping \<open>I\<close>.\<close>

lemmas edits = insert_reminder delete_reminders delete_unsent reschedule mark_sent set_status
  clear_pin set_participants set_bosses set_channel set_rsvp clear_rsvp insert_fixed
  update_fixed delete_fixed note_revived run.revive

lemmas steps = edits run.keeps_set_datetime run.keeps_set_fixed

end

end
