(* ===== verification/Rsvp.thy ===== *)
theory Rsvp
  imports DraftLaws
begin

text \<open>
  Answers and line-ups: reactions and the statuses derived from them (\<open>schedule/rsvp.rs\<close>), the
  recount of every live run (\<open>schedule/attendance.rs\<close>), and who may be on a run
  (\<open>schedule/roster.rs\<close>).
\<close>

section \<open>Answers\<close>

definition state_for_emoji :: "str \<Rightarrow> rsvp_state option" where
  "state_for_emoji emoji =
     (if emoji = [0x2705] then Some Yes else if emoji = [0x274c] then Some No else None)"

definition answer_states :: "draft \<Rightarrow> run \<Rightarrow> (str \<times> answer_state) list" where
  "answer_states d run =
     states_of run (draft_rsvps d (r_id run)) (Option.bind (r_fixed_run_id run) (draft_fixed_run d))"

definition is_frozen :: "run \<Rightarrow> instant \<Rightarrow> bool" where
  "is_frozen run now \<longleftrightarrow> now \<ge> r_datetime run"

definition derive_run_status :: "draft \<Rightarrow> run \<Rightarrow> run_status \<Rightarrow> instant \<Rightarrow> derived_status" where
  "derive_run_status d run current now =
     (case (if is_live (r_status run) then
              (if is_frozen run now then Some (r_status run)
               else map_option pin_status (r_status_pin run))
            else None) of
        Some status \<Rightarrow> \<lparr>d_status = status, d_expected = False\<rparr>
      | None \<Rightarrow>
          derive_status current (map snd (answer_states d run)) (r_datetime run) now
            (dr_attendance d))"

definition recompute_after_roster_change :: "str \<Rightarrow> instant \<Rightarrow> run_status plan" where
  "recompute_after_roster_change run_id now =
     bnd (reads (require_run run_id)) (\<lambda>found. bnd (check found) (\<lambda>run.
     let derive_from = (if r_status run = Confirmed then Planned else r_status run) in
     bnd (reads (\<lambda>d. d_status (derive_run_status d run derive_from now))) (\<lambda>status.
     seq (only_if (status \<noteq> r_status run) (edit (set_run_status run_id status)))
     (ret status))))"

record reaction_result =
  rr_run_id :: str
  rr_applied :: bool
  rr_state :: "rsvp_state option"
  rr_new_status :: run_status

definition declined :: "reaction_result \<Rightarrow> bool" where
  "declined r \<longleftrightarrow> rr_applied r \<and> rr_state r = Some No"

definition apply_reaction ::
  "str \<Rightarrow> str \<Rightarrow> str \<Rightarrow> bool \<Rightarrow> instant \<Rightarrow> reaction_result plan" where
  "apply_reaction run_id user_id emoji added now =
     bnd (reads (require_run run_id)) (\<lambda>found. bnd (check found) (\<lambda>run.
     let result = \<lparr>rr_run_id = r_id run, rr_applied = False, rr_state = None,
                   rr_new_status = r_status run\<rparr> in
     case state_for_emoji emoji of
       None \<Rightarrow> ret result
     | Some state \<Rightarrow>
         if \<not> list_ex (\<lambda>user. user = user_id) (r_participants run) then ret result
         else
           bnd (reads (refuse_ended run_id now)) (\<lambda>refused. bnd (check refused) (\<lambda>_.
           bnd (reads (\<lambda>d. added \<or> t_get (draft_rsvps d run_id) user_id = Some state)) (\<lambda>proceed.
           if \<not> proceed then ret result
           else
             seq (edit (if added then set_rsvp run_id user_id state Reaction now
                        else clear_rsvp run_id user_id))
             (seq (only_if (r_status_pin run \<noteq> None \<and> \<not> is_frozen run now)
                     (edit (set_run_pin run_id None)))
             (bnd (reads (require_run run_id)) (\<lambda>found. bnd (check found) (\<lambda>run'.
              bnd (reads (\<lambda>d. d_status (derive_run_status d run' (r_status run') now))) (\<lambda>new_status.
              seq (only_if (new_status \<noteq> r_status run') (edit (set_run_status run_id new_status)))
              (ret (result\<lparr>rr_applied := True,
                           rr_state := (if added then Some state else None),
                           rr_new_status := new_status\<rparr>))))))))))))"

section \<open>Recounts\<close>

definition recount_attendance :: "instant \<Rightarrow> str list plan" where
  "recount_attendance now =
     bnd (reads (\<lambda>d. draft_runs d None)) (\<lambda>runs.
     gather (\<lambda>changed run.
       if \<not> is_live (r_status run) \<or> r_datetime run \<le> now then ret changed
       else
         bnd (reads (\<lambda>d. d_status (derive_run_status d run (r_status run) now))) (\<lambda>status.
         if status \<noteq> r_status run then
           seq (edit (set_run_status (r_id run) status)) (ret (changed @ [r_id run]))
         else ret changed)) [] runs)"

section \<open>Line-ups\<close>

definition named :: "(str \<Rightarrow> str) \<Rightarrow> directory \<Rightarrow> str \<Rightarrow> str" where
  "named lower dir user_id = member_name lower dir user_id @ lit '' ('' @ user_id @ lit '')''"

fun collect_ids :: "str list \<Rightarrow> str list \<Rightarrow> schedule_error + str list" where
  "collect_ids out [] = Ok out"
| "collect_ids out (raw # ids) =
     (let uid = strip raw in
      if uid = [] then collect_ids out ids
      else if \<not> list_all is_digit uid then Err (NotAUserId uid)
      else collect_ids (push_new out uid) ids)"

definition member_or_default :: "directory \<Rightarrow> str \<Rightarrow> member" where
  "member_or_default dir uid = (case dir_member dir uid of Some m \<Rightarrow> m | None \<Rightarrow> default_member)"

definition validate_participants ::
  "(str \<Rightarrow> str) \<Rightarrow> directory \<Rightarrow> str list \<Rightarrow> schedule_error + str list" where
  "validate_participants lower dir ids =
     res_bind (collect_ids [] ids) (\<lambda>out.
     if out = [] then Err NoParticipants
     else
       let outsiders = map (named lower dir)
             (filter (\<lambda>uid. \<not> mb_has_role (member_or_default dir uid)) out) in
       if outsiders \<noteq> [] then Err (NotInRole outsiders)
       else
         let bots = filter (\<lambda>uid. mb_is_bot (member_or_default dir uid)) out in
         if bots \<noteq> [] then Err (BotParticipants bots) else Ok out)"

definition validate_channel :: "directory \<Rightarrow> str \<Rightarrow> schedule_error + str" where
  "validate_channel dir channel_id =
     (if dir_is_watched dir channel_id then Ok channel_id else Err (ChannelNotWatched channel_id))"

record roster_change =
  rc_out :: "str list"
  rc_joined :: "str list"

definition roster_changed :: "roster_change \<Rightarrow> bool" where
  "roster_changed c \<longleftrightarrow> rc_out c \<noteq> [] \<or> rc_joined c \<noteq> []"

record run_state =
  rs_run :: run
  rs_rsvps :: "(str, rsvp_state) table"
  rs_roster_change :: roster_change

definition roster_change_of :: "fixed_run option \<Rightarrow> run \<Rightarrow> roster_change" where
  "roster_change_of baseline run =
     (case baseline of
        None \<Rightarrow> \<lparr>rc_out = [], rc_joined = []\<rparr>
      | Some fixed \<Rightarrow>
          \<lparr>rc_out = filter (\<lambda>uid. \<not> contains (r_participants run) uid) (f_participants fixed),
           rc_joined = filter (\<lambda>uid. \<not> contains (f_participants fixed) uid) (r_participants run)\<rparr>)"

definition run_state_of :: "str \<Rightarrow> draft \<Rightarrow> schedule_error + run_state" where
  "run_state_of run_id d =
     res_bind (require_run run_id d) (\<lambda>run.
     Ok \<lparr>rs_run = run, rs_rsvps = draft_rsvps d run_id,
         rs_roster_change =
           roster_change_of (Option.bind (r_fixed_run_id run) (draft_fixed_run d)) run\<rparr>)"

text \<open>\<open>run_state(draft, run_id)?\<close> as a step.\<close>

definition get_run_state :: "str \<Rightarrow> run_state plan" where
  "get_run_state run_id = bnd (reads (run_state_of run_id)) check"

section \<open>Invariants\<close>

context run_status_writes
begin

lemma keeps_recompute [keeps_rules]: "keeps I (recompute_after_roster_change rid now)"
  unfolding recompute_after_roster_change_def by (intro keeps_rules set_status)

end

context status_writes
begin

lemma keeps_recount: "keeps I (recount_attendance now)"
  unfolding recount_attendance_def by (intro keeps_rules set_status)

end

lemma keeps_get_run_state [keeps_rules]: "keeps I (get_run_state run_id)"
  unfolding get_run_state_def by (intro keeps_rules)

context run_writes
begin

lemma keeps_apply_reaction [keeps_rules]: "keeps I (apply_reaction rid user emoji added now)"
  unfolding apply_reaction_def
  by (intro keeps_rules set_status clear_pin) (auto intro: set_rsvp clear_rsvp)

end

section \<open>Facts\<close>

lemma collect_ids_distinct: "collect_ids out ids = Ok r \<Longrightarrow> distinct out \<Longrightarrow> distinct r"
  by (induction out ids rule: collect_ids.induct) (auto simp: Let_def split: if_splits)

lemma collect_ids_from:
  "collect_ids out ids = Ok r \<Longrightarrow> set r \<subseteq> set out \<union> strip ` set ids"
  by (induction out ids rule: collect_ids.induct) (auto simp: Let_def split: if_splits)

lemma collect_ids_digits:
  "collect_ids out ids = Ok r \<Longrightarrow> \<forall>u \<in> set out. u \<noteq> [] \<and> list_all is_digit u \<Longrightarrow>
   \<forall>u \<in> set r. u \<noteq> [] \<and> list_all is_digit u"
  by (induction out ids rule: collect_ids.induct) (auto simp: Let_def split: if_splits)

lemma validate_participants_cases:
  "validate_participants lower dir ids = Ok out \<longleftrightarrow>
     collect_ids [] ids = Ok out \<and> out \<noteq> [] \<and>
     (\<forall>u \<in> set out. mb_has_role (member_or_default dir u) \<and> \<not> mb_is_bot (member_or_default dir u))"
  by (cases "collect_ids [] ids")
    (auto simp: validate_participants_def Let_def filter_empty_conv)

lemma validate_participants_Ok:
  assumes "validate_participants lower dir ids = Ok out"
  shows "out \<noteq> []" "distinct out"
    "\<forall>u \<in> set out. mb_has_role (member_or_default dir u) \<and> \<not> mb_is_bot (member_or_default dir u)"
    "\<forall>u \<in> set out. u \<noteq> [] \<and> list_all is_digit u" "set out \<subseteq> strip ` set ids"
proof -
  have c: "collect_ids [] ids = Ok out" and rest: "out \<noteq> []"
    "\<forall>u \<in> set out. mb_has_role (member_or_default dir u) \<and> \<not> mb_is_bot (member_or_default dir u)"
    using assms unfolding validate_participants_cases by auto
  show "out \<noteq> []"
    "\<forall>u \<in> set out. mb_has_role (member_or_default dir u) \<and> \<not> mb_is_bot (member_or_default dir u)"
    by (fact rest)+
  show "distinct out" using collect_ids_distinct [OF c] by simp
  show "\<forall>u \<in> set out. u \<noteq> [] \<and> list_all is_digit u" using collect_ids_digits [OF c] by simp
  show "set out \<subseteq> strip ` set ids" using collect_ids_from [OF c] by simp
qed

end
