(* ===== verification/Reminders.thy ===== *)
theory Reminders
  imports Rsvp
begin

text \<open>
  Reminder rows (\<open>schedule/reminders.rs\<close>): which pings a run gets, writing them, rebuilding them
  after a change, and moving day-of pings to a new ping time.
\<close>

section \<open>Which reminders\<close>

definition day_of :: str where
  "day_of = lit ''day_of''"

definition countdown_prefix :: str where
  "countdown_prefix = lit ''countdown_''"

definition day_of_grace :: delta where
  "day_of_grace = hours 12"

definition countdown_grace :: delta where
  "countdown_grace = minutes 30"

definition day_of_clamp :: delta where
  "day_of_clamp = seconds 1"

record reminder_spec =
  spec_kind :: str
  spec_fire_at :: instant

definition countdown_kind :: "nat \<Rightarrow> str" where
  "countdown_kind m = countdown_prefix @ dec m"

definition is_stale :: "str \<Rightarrow> instant \<Rightarrow> instant \<Rightarrow> bool" where
  "is_stale kind fire_at now \<longleftrightarrow>
     now - fire_at > (if kind = day_of then day_of_grace else countdown_grace)"

text \<open>The instant of the day-of ping.\<close>

definition day_of_at :: "instant \<Rightarrow> reminder_policy \<Rightarrow> date_out_of_range + instant" where
  "day_of_at run_at policy =
     res_bind (from_instant run_at (rp_zone policy)) (\<lambda>local.
     res_bind (zoned_new (and_time (wall_date (zd_wall local)) (rp_ping_time policy)) (rp_zone policy)) (\<lambda>first.
     res_bind
       (if zd_wall first \<ge> zd_wall local then
          res_bind (ok_or DateOutOfRange (checked_add (zd_wall first) (- days 1))) (\<lambda>previous.
          zoned_new previous (rp_zone policy))
        else Ok first) (\<lambda>ping.
     if to_fixed ping \<ge> run_at then
       res_bind (from_instant (run_at - day_of_clamp) (rp_zone policy)) (\<lambda>clamped.
       Ok (to_fixed clamped))
     else Ok (to_fixed ping))))"

text \<open>Countdown minutes, largest first, without duplicates.\<close>

definition countdown_minutes :: "nat list \<Rightarrow> nat list" where
  "countdown_minutes ms = remdups_adj (rev (sort ms))"

definition reminder_specs ::
  "instant \<Rightarrow> run_status \<Rightarrow> reminder_policy \<Rightarrow> date_out_of_range + reminder_spec list" where
  "reminder_specs run_at status policy =
     (if status \<in> {Cancelled, Done} then Ok []
      else
        res_bind (day_of_at run_at policy) (\<lambda>ping.
        Ok (\<lparr>spec_kind = day_of, spec_fire_at = ping\<rparr> #
            (if status \<noteq> Otot then
               map (\<lambda>m. \<lparr>spec_kind = countdown_kind m, spec_fire_at = run_at - minutes (int m)\<rparr>)
                 (countdown_minutes (rp_countdowns policy))
             else []))))"

section \<open>Writing them\<close>

definition write_spec :: "str \<Rightarrow> instant \<Rightarrow> str list \<Rightarrow> reminder_spec \<Rightarrow> str list plan" where
  "write_spec run_id now created spec =
     (let fire_at = spec_fire_at spec;
          sent_at = (if fire_at \<le> now then Some now else None)
      in bnd (add_reminder run_id (spec_kind spec) fire_at sent_at) (\<lambda>added.
         ret (if added \<noteq> None then created @ [spec_kind spec] else created)))"

definition ensure_reminders ::
  "str \<Rightarrow> reminder_policy \<Rightarrow> instant \<Rightarrow> bool \<Rightarrow> str list plan" where
  "ensure_reminders run_id policy now rebuild =
     bnd (reads (require_run run_id)) (\<lambda>found. bnd (check found) (\<lambda>run.
     bnd (check (res_map_err DateError
            (reminder_specs (r_datetime run) (r_status run) policy))) (\<lambda>specs.
     seq (edit (if rebuild then delete_reminders run_id
                else delete_unsent_reminders run_id (map spec_kind specs)))
     (gather (write_spec run_id now) [] specs))))"

definition refresh_run_reminders :: "str \<Rightarrow> reminder_policy \<Rightarrow> instant \<Rightarrow> unit plan" where
  "refresh_run_reminders run_id policy now =
     bnd (reads (\<lambda>d. draft_run d run_id \<noteq> None)) (\<lambda>present.
     if present then bnd (ensure_reminders run_id policy now True) (\<lambda>_. ret ()) else ret ())"

definition reconcile_one ::
  "reminder_policy \<Rightarrow> instant \<Rightarrow> nat \<Rightarrow> run \<Rightarrow> nat plan" where
  "reconcile_one day_policy now changed run =
     bnd (reads (\<lambda>d. find (\<lambda>row. m_kind row = day_of) (draft_reminders d (r_id run)))) (\<lambda>reminder.
     case reminder of
       None \<Rightarrow> ret changed
     | Some reminder \<Rightarrow>
         bnd (check (res_map_err DateError
                (reminder_specs (r_datetime run) (r_status run) day_policy))) (\<lambda>specs.
         case find (\<lambda>spec. spec_kind spec = day_of) specs of
           None \<Rightarrow> ret changed
         | Some spec \<Rightarrow>
             let fire_at = spec_fire_at spec;
                 waiting = (m_fire_at reminder = fire_at \<and> m_sent_at reminder = None \<and>
                            now < r_datetime run)
             in if waiting then ret changed
                else bnd (act (reschedule_unposted_reminder (m_id reminder) fire_at now)) (\<lambda>moved.
                     ret (if moved then Suc changed else changed))))"

definition reconcile_day_of :: "reminder_policy \<Rightarrow> instant \<Rightarrow> nat plan" where
  "reconcile_day_of policy now =
     (let day_policy = policy\<lparr>rp_countdowns := []\<rparr> in
      bnd (reads (\<lambda>d. draft_runs d None)) (\<lambda>runs. gather (reconcile_one day_policy now) 0 runs))"

section \<open>Invariants\<close>

context run_reminders
begin

lemma keeps_write_spec [keeps_rules]: "keeps I (write_spec rid now created spec)"
  unfolding write_spec_def by (intro keeps_rules)

lemma keeps_ensure [keeps_rules]: "keeps I (ensure_reminders rid policy now rebuild)"
  unfolding ensure_reminders_def
  by (intro keeps_rules) (auto intro: delete_reminders delete_unsent)

lemma keeps_refresh [keeps_rules]: "keeps I (refresh_run_reminders rid policy now)"
  unfolding refresh_run_reminders_def by (intro keeps_rules)

end

context reminder_writes
begin

lemma keeps_reconcile [keeps_rules]: "keeps I (reconcile_day_of policy now)"
  unfolding reconcile_day_of_def reconcile_one_def by (intro keeps_rules reschedule)

end

text \<open>Reminder methods leave every other table as it is.\<close>

definition other_tables :: "draft \<Rightarrow> draft \<Rightarrow> bool" where
  "other_tables d0 d \<longleftrightarrow> d\<lparr>dr_reminders := []\<rparr> = d0\<lparr>dr_reminders := []\<rparr>"

lemma other_tablesD:
  assumes "other_tables d0 d"
  shows "dr_runs d = dr_runs d0" "dr_fixed d = dr_fixed d0" "dr_rsvps d = dr_rsvps d0"
    "dr_base d = dr_base d0" "dr_ends d = dr_ends d0" "dr_revived d = dr_revived d0"
    "dr_attendance d = dr_attendance d0"
  using assms by (cases d; cases d0; simp add: other_tables_def)+

lemma other_tables_refl [simp]: "other_tables d d"
  by (simp add: other_tables_def)

interpretation rest: reminder_writes "other_tables d0" for d0
  by unfold_locales
    (simp_all add: other_tables_def insert_reminder_def delete_reminders_def Let_def
      delete_unsent_reminders_def reschedule_unposted_reminder_def mark_reminder_sent_def
      split: option.split)

section \<open>Facts\<close>

lemma countdown_minutes_set [simp]: "set (countdown_minutes ms) = set ms"
  by (simp add: countdown_minutes_def)

lemma sorted_remdups_adj_distinct: "sorted xs \<Longrightarrow> distinct (remdups_adj xs)"
proof (induction xs rule: remdups_adj.induct)
  case (3 x y xs)
  then show ?case by (auto simp: less_le_not_le)
qed simp_all

lemma countdown_minutes_distinct [simp]: "distinct (countdown_minutes ms)"
proof -
  have "remdups_adj (rev (sort ms)) = rev (remdups_adj (sort ms))" by (rule remdups_adj_rev)
  then show ?thesis by (simp add: countdown_minutes_def sorted_remdups_adj_distinct)
qed

lemma countdown_kind_inject [simp]: "countdown_kind m = countdown_kind n \<longleftrightarrow> m = n"
  by (simp add: countdown_kind_def)

lemma countdown_not_day_of [simp]: "countdown_kind m \<noteq> day_of" "day_of \<noteq> countdown_kind m"
  by (auto simp: countdown_kind_def day_of_def countdown_prefix_def lit_def)

lemma day_of_before:
  assumes ok: "day_of_at run_at policy = Ok ping" and coh: "tz_coherent (rp_zone policy)"
  shows "ping < run_at"
proof -
  have pos: "day_of_clamp > 0" by (simp add: day_of_clamp_def seconds_def)
  obtain z where z: "(if to_fixed z \<ge> run_at then
       res_bind (from_instant (run_at - day_of_clamp) (rp_zone policy)) (\<lambda>clamped. Ok (to_fixed clamped))
     else Ok (to_fixed z)) = Ok ping"
    using ok unfolding day_of_at_def by (elim res_bind_OkE) blast
  show ?thesis
  proof (cases "to_fixed z \<ge> run_at")
    case True
    then obtain c where "from_instant (run_at - day_of_clamp) (rp_zone policy) = Ok c" "ping = to_fixed c"
      using z by (auto simp: res_bind_Ok_iff)
    then show ?thesis using from_instant_roundtrip [OF coh] pos by simp
  next
    case False
    then show ?thesis using z by simp
  qed
qed

lemma reminder_specs_kinds:
  assumes "reminder_specs run_at status policy = Ok specs"
  shows "map spec_kind specs =
    (if status \<in> {Cancelled, Done} then []
     else day_of # (if status = Otot then [] else map countdown_kind (countdown_minutes (rp_countdowns policy))))"
  using assms by (auto simp: reminder_specs_def res_bind_Ok_iff comp_def split: if_splits)

lemma reminder_specs_distinct:
  "reminder_specs run_at status policy = Ok specs \<Longrightarrow> distinct (map spec_kind specs)"
  by (drule reminder_specs_kinds) (auto simp: distinct_map intro: inj_onI)

end
