(* ===== verification/Notice.thy ===== *)
theory Notice
  imports Reminders
begin

text \<open>
  ISO text of instants (\<open>time/iso.rs\<close>) and the change notices a mutation asks for
  (\<open>schedule/notice.rs\<close>): what changed, who it lists, and the journal identity under which it
  is delivered at most once.
\<close>

section \<open>ISO text\<close>

definition dec_pad :: "nat \<Rightarrow> nat \<Rightarrow> str" where
  "dec_pad width n = (let ds = dec n in replicate (width - length ds) 48 @ ds)"

definition iso_offset :: "int \<Rightarrow> str" where
  "iso_offset off =
     (let n = nat \<bar>off\<bar> in
      (if off < 0 then lit ''-'' else lit ''+'') @ dec2 (n div 3600) @ lit '':'' @
      dec2 (n div 60 mod 60) @ (if n mod 60 \<noteq> 0 then lit '':'' @ dec2 (n mod 60) else []))"

definition format_iso :: "wall \<Rightarrow> int option \<Rightarrow> str" where
  "format_iso w offset =
     (let (year, month, day) = civil_of_date (wall_date w);
          second = nat (wall_time w div 1000000000 mod 60);
          micros = nat (wall_time w mod 1000000000 div 1000)
      in dec_pad 4 (nat year) @ lit ''-'' @ dec2 (nat month) @ lit ''-'' @ dec2 (nat day) @ lit ''T'' @
         dec2 (wall_hour w) @ lit '':'' @ dec2 (wall_minute w) @ lit '':'' @ dec2 second @
         (if micros \<noteq> 0 then lit ''.'' @ dec_pad 6 micros else []) @
         (case offset of Some off \<Rightarrow> iso_offset off | None \<Rightarrow> []))"

definition to_iso :: "instant \<Rightarrow> date_out_of_range + str" where
  "to_iso at = (if python_year at then Ok (format_iso at (Some 0)) else Err DateOutOfRange)"

text \<open>\<open>iso\<close> of \<open>notice.rs\<close>: the default text when out of range.\<close>

definition iso :: "instant \<Rightarrow> str" where
  "iso at = (case to_iso at of Inr s \<Rightarrow> s | Inl _ \<Rightarrow> [])"

section \<open>Notices\<close>

datatype request_decision = Approved | Rejected | DecisionExpired

fun request_decision_str :: "request_decision \<Rightarrow> str" where
  "request_decision_str Approved = lit ''approved''"
| "request_decision_str Rejected = lit ''rejected''"
| "request_decision_str DecisionExpired = lit ''expired''"

datatype notice_change =
    NRunStatus (n_run: str) (n_from: run_status) (n_to: run_status)
  | NRunMoved (n_run: str) (n_from_at: instant) (n_to_at: instant)
  | NRunSwapped (n_run: str) (n_participants: "str list") (n_leaving: "str list")
      (n_joining: "str list")
  | NRunReset (n_run: str) (n_from_at: instant) (n_to_at: instant)
  | NRollback (n_reverted: "nat list") (n_cancelled_runs: "str list") (n_run_ids: "str list")
      (n_checkpoint: "str option")
  | NMerged (n_draft: str) (n_version: nat) (n_title: str) (n_run_ids: "str list")
      (n_fixed_ids: "str list")
  | NRequestDecided (n_request: str) (n_decision: request_decision) (n_reason: "str option")
      (n_edited: "str list option")
  | NFixedChanged (n_fixed: str) (n_fields: "fixed_field list") (n_weekday: weekday)
      (n_time: clock) (n_participants: "str list")
  | NFixedAdded (n_fixed: str) (n_bosses: "str list") (n_weekday: weekday) (n_time: clock)
      (n_participants: "str list")
  | NFixedRemoved (n_fixed: str) (n_bosses: "str list") (n_weekday: weekday) (n_time: clock)
      (n_participants: "str list") (n_cancelled: nat)

record notice =
  no_change :: notice_change
  no_channel_id :: "str option"
  no_listed :: "str list"
  no_via_portal :: bool

fun notice_run_id :: "notice_change \<Rightarrow> str option" where
  "notice_run_id (NRunStatus run_id _ _) = Some run_id"
| "notice_run_id (NRunMoved run_id _ _) = Some run_id"
| "notice_run_id (NRunSwapped run_id _ _ _) = Some run_id"
| "notice_run_id (NRunReset run_id _ _) = Some run_id"
| "notice_run_id (NRollback _ _ _ _) = None"
| "notice_run_id (NMerged _ _ _ _ _) = None"
| "notice_run_id (NRequestDecided _ _ _ _) = None"
| "notice_run_id (NFixedChanged _ _ _ _ _) = None"
| "notice_run_id (NFixedAdded _ _ _ _ _) = None"
| "notice_run_id (NFixedRemoved _ _ _ _ _ _) = None"

fun ping_kind :: "notice_change \<Rightarrow> str" where
  "ping_kind (NRunStatus _ _ _) = lit ''status''"
| "ping_kind (NRollback _ _ _ _) = lit ''status''"
| "ping_kind (NMerged _ _ _ _ _) = lit ''status''"
| "ping_kind (NRequestDecided _ _ _ _) = lit ''status''"
| "ping_kind (NRunMoved _ _ _) = lit ''amend''"
| "ping_kind (NRunReset _ _ _) = lit ''amend''"
| "ping_kind (NRunSwapped _ _ _ _) = lit ''swap''"
| "ping_kind (NFixedChanged _ _ _ _ _) = lit ''fixed''"
| "ping_kind (NFixedAdded _ _ _ _ _) = lit ''fixed''"
| "ping_kind (NFixedRemoved _ _ _ _ _ _) = lit ''fixed''"

definition rollback_restored :: str where
  "rollback_restored = lit ''notice.rollback.restored''"

definition draft_merged :: str where
  "draft_merged = lit ''notice.draft.merged''"

fun effect_kind :: "notice_change \<Rightarrow> str" where
  "effect_kind (NRunStatus _ _ to) = lit ''notice.run.status.'' @ run_status_str to"
| "effect_kind (NRunMoved _ _ _) = lit ''notice.run.move.moved''"
| "effect_kind (NRunSwapped _ _ _ _) = lit ''notice.run.swap.updated''"
| "effect_kind (NRunReset _ _ _) = lit ''notice.run.reset.restored''"
| "effect_kind (NFixedChanged _ _ _ _ _) = lit ''notice.fixed.edit.changed''"
| "effect_kind (NFixedAdded _ _ _ _ _) = lit ''notice.fixed.add.created''"
| "effect_kind (NFixedRemoved _ _ _ _ _ _) = lit ''notice.fixed.remove.removed''"
| "effect_kind (NRollback _ _ _ None) = lit ''notice.rollback.reverted''"
| "effect_kind (NRollback _ _ _ (Some _)) = rollback_restored"
| "effect_kind (NMerged _ _ _ _ _) = draft_merged"
| "effect_kind (NRequestDecided _ decision _ _) = lit ''notice.request.'' @ request_decision_str decision"

definition hh_mm :: "clock \<Rightarrow> str" where
  "hh_mm t = dec2 (wall_hour t) @ lit '':'' @ dec2 (wall_minute t)"

fun effect_context :: "bool \<Rightarrow> notice_change \<Rightarrow> str list" where
  "effect_context via_portal (NRunStatus run_id from to) =
     [run_id, run_status_str from, run_status_str to,
      if via_portal then lit ''portal'' else lit ''command'']"
| "effect_context via_portal (NRunMoved run_id from to) = [run_id, iso from, iso to]"
| "effect_context via_portal (NRunReset run_id from to) = [run_id, iso from, iso to]"
| "effect_context via_portal (NRunSwapped run_id participants _ _) = run_id # participants"
| "effect_context via_portal (NRollback reverted cancelled_runs run_ids checkpoint) =
     [lit ''reverted:'' @ dec (length reverted), join (lit '','') (map dec reverted),
      join (lit '','') run_ids, join (lit '','') cancelled_runs,
      case checkpoint of Some c \<Rightarrow> c | None \<Rightarrow> []]"
| "effect_context via_portal (NMerged draft version _ run_ids fixed_ids) =
     [draft, lit ''v'' @ dec version, join (lit '','') run_ids, join (lit '','') fixed_ids]"
| "effect_context via_portal (NRequestDecided request decision _ _) =
     [lit ''request:'' @ request @ lit '':'' @ request_decision_str decision]"
| "effect_context via_portal (NFixedChanged fixed_id touched day at participants) =
     [fixed_id, join (lit '','') (map fixed_field_str touched), dec (num_days_from_monday day), hh_mm at]
     @ participants"
| "effect_context via_portal (NFixedAdded fixed_id _ day at participants) =
     [fixed_id, dec (num_days_from_monday day), hh_mm at] @ participants"
| "effect_context via_portal (NFixedRemoved fixed_id _ _ _ _ cancelled_runs) =
     [fixed_id, dec cancelled_runs]"

record 'a outcome =
  oc_value :: 'a
  oc_notices :: "notice list"

definition quiet :: "'a \<Rightarrow> 'a outcome" where
  "quiet v = \<lparr>oc_value = v, oc_notices = []\<rparr>"

end
