(* ===== verification/Mutate.thy ===== *)
theory Mutate
  imports Notice
begin

text \<open>
  The run mutations behind every surface (\<open>schedule/mutate.rs\<close>): set a status, move a run, put a
  closed run back on the schedule, exchange two runs' slots, change a run's line-up, and reset
  an amended run to its weekly timing.
\<close>

section \<open>Texts\<close>

definition weekday_names :: "str list" where
  "weekday_names = map lit [''Mon'', ''Tue'', ''Wed'', ''Thu'', ''Fri'', ''Sat'', ''Sun'']"

definition month_names :: "str list" where
  "month_names = map lit [''Jan'', ''Feb'', ''Mar'', ''Apr'', ''May'', ''Jun'', ''Jul'', ''Aug'',
     ''Sep'', ''Oct'', ''Nov'', ''Dec'']"

definition local_day :: "aware \<Rightarrow> tz \<Rightarrow> date_out_of_range + str" where
  "local_day at zone =
     res_bind (astimezone at zone) (\<lambda>zd.
     let w = zd_wall zd in
     Ok (weekday_names ! num_days_from_monday (wall_weekday w) @ lit '' '' @ dec2 (wall_day w) @
         lit '' '' @ month_names ! wall_month0 w))"

definition local_time :: "aware \<Rightarrow> tz \<Rightarrow> date_out_of_range + str" where
  "local_time at zone =
     res_bind (astimezone at zone) (\<lambda>zd.
     Ok (dec2 (wall_hour (zd_wall zd)) @ lit '':'' @ dec2 (wall_minute (zd_wall zd))))"

definition run_notice :: "run \<Rightarrow> notice_change \<Rightarrow> str list \<Rightarrow> bool \<Rightarrow> notice" where
  "run_notice run change listed via_portal =
     \<lparr>no_change = change, no_channel_id = r_channel_id run, no_listed = listed,
      no_via_portal = via_portal\<rparr>"

text \<open>\<open>?\<close> on a date result.\<close>

definition dated :: "date_out_of_range + 'a \<Rightarrow> 'a plan" where
  "dated r = check (res_map_err DateError r)"

definition get_run :: "str \<Rightarrow> run plan" where
  "get_run run_id = bnd (reads (require_run run_id)) check"

definition not_ended :: "str \<Rightarrow> instant \<Rightarrow> unit plan" where
  "not_ended run_id now = bnd (reads (refuse_ended run_id now)) check"

section \<open>Status\<close>

record status_change =
  sc_status :: run_status
  sc_announce :: bool
  sc_via_portal :: bool

text \<open>The pin a hand-set status leaves: planned and confirmed are pinned, others clear it.\<close>

definition hand_pin :: "run_status \<Rightarrow> instant \<Rightarrow> status_pin option" where
  "hand_pin status now =
     (if status \<in> {Planned, Confirmed} then Some \<lparr>pin_status = status, pin_at = now\<rparr> else None)"

definition set_status ::
  "str \<Rightarrow> status_change \<Rightarrow> reminder_policy \<Rightarrow> instant \<Rightarrow> run_state outcome plan" where
  "set_status run_id change policy now =
     (let status = sc_status change in
      if status = AtRisk then fail (NotSettable (run_status_str status))
      else
        bnd (get_run run_id) (\<lambda>run.
        let previous = r_status run;
            pin = hand_pin status now
        in
        if previous = status then
          seq (only_if (r_status_pin run \<noteq> pin) (edit (set_run_pin run_id pin)))
          (bnd (get_run_state run_id) (\<lambda>state. ret (quiet state)))
        else
          seq (only_if (status = Planned \<and> previous \<in> {Cancelled, Otot, Done})
                 (each (\<lambda>user. edit (clear_rsvp run_id user)) (r_participants run)))
          (seq (edit (set_run_status run_id status))
          (seq (edit (set_run_pin run_id pin))
          (seq (refresh_run_reminders run_id policy now)
          (bnd (get_run_state run_id) (\<lambda>state.
           ret \<lparr>oc_value = state,
                oc_notices =
                  (if sc_announce change then
                     [run_notice (rs_run state) (NRunStatus run_id previous status)
                        (r_participants (rs_run state)) (sc_via_portal change)]
                   else [])\<rparr>)))))))"

section \<open>Moves\<close>

definition settle_after_move :: "str \<Rightarrow> reminder_policy \<Rightarrow> instant \<Rightarrow> unit plan" where
  "settle_after_move run_id policy now =
     bnd (get_run run_id) (\<lambda>run.
     let status = r_status run in
     seq (only_if (status \<in> {Confirmed, AtRisk}) (edit (set_run_status run_id Planned)))
     (seq (edit (set_run_pin run_id None))
     (seq (only_if (is_live status)
             (bnd (recompute_after_roster_change run_id now) (\<lambda>_. ret ())))
     (refresh_run_reminders run_id policy now))))"

definition amend_run ::
  "(str \<Rightarrow> str) \<Rightarrow> str \<Rightarrow> instant \<Rightarrow> schedule_policy \<Rightarrow> instant \<Rightarrow> run_state outcome plan" where
  "amend_run lower run_id to policy now =
     bnd (get_run run_id) (\<lambda>run.
     seq (not_ended run_id now)
     (let zone = sp_zone policy in
      bnd (dated (week_of policy (AtInstant to))) (\<lambda>start.
      bnd (dated (utc_instant (AtZoned start))) (\<lambda>week.
      bnd (reads (\<lambda>d.
             case Option.bind (r_fixed_run_id run) (\<lambda>fixed. run_for_fixed d fixed week) of
               Some other \<Rightarrow> if r_id other \<noteq> r_id run then Some other else None
             | None \<Rightarrow> None)) (\<lambda>conflict.
      case conflict of
        Some existing \<Rightarrow>
          bnd (dated (local_day (AtZoned start) zone)) (\<lambda>week_day.
          bnd (dated (local_day (AtInstant (r_datetime existing)) zone)) (\<lambda>existing_day.
          bnd (dated (local_time (AtInstant (r_datetime existing)) zone)) (\<lambda>existing_time.
          fail (MoveConflict week_day (short_id lower (r_id existing)) existing_day existing_time))))
      | None \<Rightarrow>
          seq (attempt (set_run_datetime run_id to week))
          (seq (settle_after_move run_id (sp_reminders policy) now)
          (bnd (get_run_state run_id) (\<lambda>state.
           ret \<lparr>oc_value = state,
                oc_notices =
                  [run_notice (rs_run state)
                     (NRunMoved run_id (r_datetime run) (r_datetime (rs_run state)))
                     (r_participants (rs_run state)) True]\<rparr>))))))))"

definition reschedule_run ::
  "(str \<Rightarrow> str) \<Rightarrow> str \<Rightarrow> instant \<Rightarrow> schedule_policy \<Rightarrow> instant \<Rightarrow> run_state outcome plan" where
  "reschedule_run lower run_id to policy now =
     bnd (get_run run_id) (\<lambda>run.
     let previous = r_status run in
     if \<not> is_terminal previous then amend_run lower run_id to policy now
     else
       bnd (set_status run_id \<lparr>sc_status = Planned, sc_announce = False, sc_via_portal = True\<rparr>
              (sp_reminders policy) now) (\<lambda>_.
       bnd (amend_run lower run_id to policy now) (\<lambda>moved.
       let state = oc_value moved in
       ret \<lparr>oc_value = state,
            oc_notices =
              [run_notice (rs_run state) (NRunStatus run_id previous Planned)
                 (r_participants (rs_run state)) True]\<rparr>)))"

text \<open>chrono's \<open>from_local_datetime(..).earliest()\<close>: the larger offset of a repeated clock, none in a
  gap; and \<open>from_utc_datetime\<close>, the wall clock in force.\<close>

definition local_earliest :: "tz \<Rightarrow> wall \<Rightarrow> instant option" where
  "local_earliest zone w =
     (case tz_from_local zone w of
        Single off \<Rightarrow> Some (w - seconds off)
      | Ambiguous first second \<Rightarrow> Some (w - seconds first)
      | Gap \<Rightarrow> None)"

definition local_wall :: "tz \<Rightarrow> instant \<Rightarrow> wall" where
  "local_wall zone at = at + seconds (tz_from_utc zone at)"

definition swap_target :: "tz \<Rightarrow> bool \<Rightarrow> instant \<Rightarrow> instant \<Rightarrow> schedule_error + instant" where
  "swap_target zone keep_clock from to =
     ok_or (DateError DateOutOfRange)
       (local_earliest zone
          (and_time (wall_date (local_wall zone to))
             (wall_time (local_wall zone (if keep_clock then from else to)))))"

definition swap_run_slots ::
  "str \<Rightarrow> str \<Rightarrow> schedule_policy \<Rightarrow> instant \<Rightarrow> run_state list outcome plan" where
  "swap_run_slots run_id with_id policy now =
     (if run_id = with_id then fail SameRunSwap
      else
        bnd (get_run run_id) (\<lambda>first.
        bnd (get_run with_id) (\<lambda>second.
        if r_week_start first \<noteq> r_week_start second then fail DifferentSwapWeek
        else if is_terminal (r_status first) then
          fail (RunNotLive (r_id first) (run_status_str (r_status first)))
        else if is_terminal (r_status second) then
          fail (RunNotLive (r_id second) (run_status_str (r_status second)))
        else
          seq (not_ended run_id now)
          (seq (not_ended with_id now)
          (let zone = sp_zone policy;
               own_time = (r_status first = Otot \<or> r_status second = Otot);
               week = r_week_start first
           in
           bnd (check (swap_target zone own_time (r_datetime first) (r_datetime second))) (\<lambda>first_to.
           bnd (check (swap_target zone own_time (r_datetime second) (r_datetime first))) (\<lambda>second_to.
           bnd (dated (week_of policy (AtInstant first_to))) (\<lambda>first_week.
           bnd (if to_fixed first_week \<noteq> week then ret True
                else bnd (dated (week_of policy (AtInstant second_to))) (\<lambda>second_week.
                     ret (to_fixed second_week \<noteq> week))) (\<lambda>leaves.
           if leaves then fail SwapLeavesWeek
           else
             seq (attempt (set_run_datetime run_id first_to week))
             (seq (attempt (set_run_datetime with_id second_to week))
             (seq (settle_after_move run_id (sp_reminders policy) now)
             (seq (settle_after_move with_id (sp_reminders policy) now)
             (bnd (get_run_state run_id) (\<lambda>first_state.
              bnd (get_run_state with_id) (\<lambda>second_state.
              ret \<lparr>oc_value = [first_state, second_state],
                   oc_notices =
                     [run_notice (rs_run first_state)
                        (NRunMoved run_id (r_datetime first) (r_datetime (rs_run first_state)))
                        (r_participants (rs_run first_state)) True,
                      run_notice (rs_run second_state)
                        (NRunMoved with_id (r_datetime second) (r_datetime (rs_run second_state)))
                        (r_participants (rs_run second_state)) True]\<rparr>)))))))))))))))"

section \<open>Line-ups\<close>

definition swap_participants ::
  "(str \<Rightarrow> str) \<Rightarrow> directory \<Rightarrow> str \<Rightarrow> str list \<Rightarrow> str list \<Rightarrow> bool \<Rightarrow> instant
    \<Rightarrow> run_state outcome plan" where
  "swap_participants lower dir run_id leaving add via_portal now =
     bnd (get_run run_id) (\<lambda>run.
     seq (not_ended run_id now)
     (bnd (check (if add = [] then Ok [] else validate_participants lower dir add)) (\<lambda>joining.
      let staying = filter (\<lambda>uid. \<not> contains leaving uid) (r_participants run);
          unknown = map (named lower dir)
                      (filter (\<lambda>uid. \<not> contains (r_participants run) uid) leaving)
      in
      if unknown \<noteq> [] then fail (NotOnRun unknown)
      else
        (let people = foldl push_new staying joining in
         if people = [] then fail RunEmptied
         else if people = r_participants run then
           bnd (get_run_state run_id) (\<lambda>state. ret (quiet state))
         else
           seq (edit (set_run_participants run_id people now))
           (seq (each (\<lambda>uid. edit (clear_rsvp run_id uid)) leaving)
           (bnd (recompute_after_roster_change run_id now) (\<lambda>_.
            bnd (get_run_state run_id) (\<lambda>state.
            ret \<lparr>oc_value = state,
                 oc_notices =
                   [run_notice (rs_run state)
                      (NRunSwapped run_id (r_participants (rs_run state)) leaving joining)
                      (r_participants (rs_run state) @ leaving) via_portal]\<rparr>))))))))"

section \<open>Resets\<close>

definition reset_to_fixed ::
  "str \<Rightarrow> schedule_policy \<Rightarrow> instant \<Rightarrow> run_state outcome plan" where
  "reset_to_fixed run_id policy now =
     bnd (get_run run_id) (\<lambda>run.
     case r_fixed_run_id run of
       None \<Rightarrow> fail (NotAFixedRun run_id)
     | Some fixed_id \<Rightarrow>
         bnd (reads (\<lambda>d. draft_fixed_run d fixed_id)) (\<lambda>timing.
         case timing of
           None \<Rightarrow> fail (FixedRunRetired fixed_id)
         | Some fixed \<Rightarrow>
             if is_terminal (r_status run) then
               fail (RunNotLive run_id (run_status_str (r_status run)))
             else
               seq (not_ended run_id now)
               (bnd (dated (week_of policy (AtInstant (r_week_start run)))) (\<lambda>start.
                bnd (dated (slot_in_week (AtZoned start) (sp_zone policy) (f_weekday fixed)
                              (f_time fixed))) (\<lambda>zoned_slot.
                let slot = to_fixed zoned_slot in
                if slot \<le> now then
                  bnd (dated (local_day (AtInstant slot) (sp_zone policy))) (\<lambda>slot_day.
                  bnd (dated (local_time (AtInstant slot) (sp_zone policy))) (\<lambda>slot_time.
                  fail (ResetSlotPassed run_id slot_day slot_time)))
                else if r_datetime run = slot \<and> r_bosses run = f_bosses fixed \<and>
                        r_participants run = f_participants fixed \<and>
                        r_channel_id run = f_channel_id fixed then
                  bnd (get_run_state run_id) (\<lambda>state. ret (quiet state))
                else
                  seq (attempt (set_run_datetime run_id slot (r_week_start run)))
                  (seq (edit (set_run_bosses run_id (f_bosses fixed)))
                  (seq (edit (set_run_channel run_id (f_channel_id fixed)))
                  (seq (only_if (r_participants run \<noteq> f_participants fixed)
                          (seq (edit (set_run_participants run_id (f_participants fixed) now))
                          (seq (each (\<lambda>uid. edit (clear_rsvp run_id uid))
                                 (filter (\<lambda>u. \<not> contains (f_participants fixed) u) (r_participants run)))
                          (bnd (recompute_after_roster_change run_id now) (\<lambda>_. ret ())))))
                  (seq (settle_after_move run_id (sp_reminders policy) now)
                  (bnd (get_run_state run_id) (\<lambda>state.
                   ret \<lparr>oc_value = state,
                        oc_notices =
                          [run_notice (rs_run state)
                             (NRunReset run_id (r_datetime run) (r_datetime (rs_run state)))
                             (r_participants (rs_run state)) True]\<rparr>)))))))))))"

end
