(* ===== verification/Lifecycle.thy ===== *)
theory Lifecycle
  imports Mutate
begin

text \<open>
  Run lifecycle (\<open>schedule/lifecycle.rs\<close>): runs becoming done, completion-prompt presses, and
  weekly-timing edits and retirements pushed onto runs; and materialisation
  (\<open>schedule/materialise.rs\<close>): creating, or adopting, each timing's run of a boss week.
\<close>

section \<open>Past runs\<close>

definition run_done_after :: delta where
  "run_done_after = hours 2"

definition is_past :: "instant \<Rightarrow> instant \<Rightarrow> bool" where
  "is_past run_at now \<longleftrightarrow> run_at + run_done_after < now"

definition is_past_slot :: "zoned \<Rightarrow> instant \<Rightarrow> schedule_error + bool" where
  "is_past_slot slot now =
     res_map_err DateError
       (res_bind (ok_or DateOutOfRange (checked_add (zd_wall slot) run_done_after)) (\<lambda>w.
        res_bind (zoned_new w (zd_zone slot)) (\<lambda>end. Ok (to_fixed end < now))))"

definition finish_run :: "str \<Rightarrow> bool plan" where
  "finish_run run_id =
     bnd (get_run run_id) (\<lambda>run.
     if \<not> is_live (r_status run) then ret False
     else
       seq (edit (set_run_status run_id Done))
       (seq (edit (delete_unsent_reminders run_id []))
       (ret True)))"

record settle_press =
  se_run_id :: str
  se_status :: run_status
  se_datetime :: instant
  se_user :: str
  se_staff :: bool

definition settle_run :: "settle_press \<Rightarrow> reminder_policy \<Rightarrow> instant \<Rightarrow> bool plan" where
  "settle_run settle policy now =
     bnd (get_run (se_run_id settle)) (\<lambda>run.
     let allowed = (se_staff settle \<or> contains (r_participants run) (se_user settle)) in
     if \<not> is_live (r_status run) \<or> r_datetime run \<noteq> se_datetime settle \<or> \<not> allowed \<or>
        se_status settle \<notin> {Done, Cancelled}
     then ret False
     else
       bnd (set_status (se_run_id settle)
              \<lparr>sc_status = se_status settle, sc_announce = False, sc_via_portal = False\<rparr> policy now)
         (\<lambda>_. ret True))"

section \<open>Weekly-timing edits\<close>

text \<open>\<open>FixedPush::apply\<close>; \<open>keep_slot\<close> are the amended runs that keep this week's slot. What it does
  to the run it found, then to one week.\<close>

definition push_run ::
  "fixed_field list \<Rightarrow> str list \<Rightarrow> fixed_run \<Rightarrow> reminder_policy \<Rightarrow> instant \<Rightarrow> zoned \<Rightarrow> instant
    \<Rightarrow> run \<Rightarrow> unit plan" where
  "push_run changed keep_slot fixed policy now start week run =
     (let reschedule = (contains changed Weekday \<or> contains changed Time) in
      seq (only_if (contains changed Bosses) (edit (set_run_bosses (r_id run) (f_bosses fixed))))
      (seq (only_if (contains changed Participants \<and> r_participants run \<noteq> f_participants fixed)
             (seq (edit (set_run_participants (r_id run) (f_participants fixed) now))
             (seq (each (\<lambda>user. edit (clear_rsvp (r_id run) user))
                    (filter (\<lambda>u. \<not> contains (f_participants fixed) u) (r_participants run)))
             (bnd (recompute_after_roster_change (r_id run) now) (\<lambda>_. ret ())))))
      (seq (only_if (contains changed ChannelId)
             (edit (set_run_channel (r_id run) (f_channel_id fixed))))
      (only_if (reschedule \<and> \<not> contains keep_slot (r_id run))
        (bnd (dated (slot_in_week (AtZoned start) (rp_zone policy) (f_weekday fixed)
                       (f_time fixed))) (\<lambda>slot.
         let at = to_fixed slot in
         seq (attempt (set_run_datetime (r_id run) at week))
         (seq (only_if (at \<noteq> r_datetime run)
                 (seq (edit (set_run_pin (r_id run) None))
                      (bnd (recompute_after_roster_change (r_id run) now) (\<lambda>_. ret ()))))
         (refresh_run_reminders (r_id run) policy now))))))))"

definition push_one ::
  "str \<Rightarrow> fixed_field list \<Rightarrow> str list \<Rightarrow> fixed_run \<Rightarrow> reminder_policy \<Rightarrow> instant
    \<Rightarrow> nat \<Rightarrow> aware \<Rightarrow> nat plan" where
  "push_one fixed_id changed keep_slot fixed policy now touched wk_start =
     bnd (dated (astimezone wk_start (rp_zone policy))) (\<lambda>start.
     bnd (dated (utc_instant (AtZoned start))) (\<lambda>week.
     bnd (reads (\<lambda>d. run_for_fixed d fixed_id week)) (\<lambda>found.
     case found of
       None \<Rightarrow> ret touched
     | Some run \<Rightarrow>
         bnd (reads (\<lambda>d. is_terminal (r_status run) \<or> draft_ended d run now)) (\<lambda>skip.
         if skip then ret touched
         else
           seq (push_run changed keep_slot fixed policy now start week run)
           (ret (Suc touched))))))"

definition fixed_push ::
  "str \<Rightarrow> fixed_field list \<Rightarrow> str list \<Rightarrow> aware list \<Rightarrow> reminder_policy \<Rightarrow> instant \<Rightarrow> nat plan"
where
  "fixed_push fixed_id changed keep_slot week_starts policy now =
     bnd (reads (\<lambda>d. draft_fixed_run d fixed_id)) (\<lambda>timing.
     case timing of
       None \<Rightarrow> ret 0
     | Some fixed \<Rightarrow>
         if changed = [] then ret 0
         else gather (push_one fixed_id changed keep_slot fixed policy now) 0 week_starts)"

definition apply_fixed_to_runs ::
  "str \<Rightarrow> fixed_field list \<Rightarrow> aware list \<Rightarrow> reminder_policy \<Rightarrow> instant \<Rightarrow> nat plan" where
  "apply_fixed_to_runs fixed_id changed week_starts policy now =
     fixed_push fixed_id changed [] week_starts policy now"

definition retire_one ::
  "str \<Rightarrow> reminder_policy \<Rightarrow> instant \<Rightarrow> nat \<Rightarrow> aware \<Rightarrow> nat plan" where
  "retire_one fixed_id policy now cancelled wk_start =
     bnd (dated (astimezone wk_start (rp_zone policy))) (\<lambda>start.
     bnd (dated (utc_instant (AtZoned start))) (\<lambda>week.
     bnd (reads (\<lambda>d. run_for_fixed d fixed_id week)) (\<lambda>found.
     case found of
       None \<Rightarrow> ret cancelled
     | Some run \<Rightarrow>
         bnd (reads (\<lambda>d. is_terminal (r_status run) \<or> draft_ended d run now)) (\<lambda>skip.
         if skip then ret cancelled
         else
           seq (edit (set_run_status (r_id run) Cancelled))
           (seq (refresh_run_reminders (r_id run) policy now)
           (ret (Suc cancelled)))))))"

definition retire_fixed_run ::
  "str \<Rightarrow> aware list \<Rightarrow> reminder_policy \<Rightarrow> instant \<Rightarrow> nat plan" where
  "retire_fixed_run fixed_id week_starts policy now =
     bnd (gather (retire_one fixed_id policy now) 0 week_starts) (\<lambda>cancelled.
     seq (edit (delete_fixed_run fixed_id)) (ret cancelled))"

section \<open>Materialisation\<close>

text \<open>Equality of two boss lists as \<open>BTreeSet\<close>s.\<close>

definition same_set :: "str list \<Rightarrow> str list \<Rightarrow> bool" where
  "same_set xs ys \<longleftrightarrow> set xs = set ys"

definition run_over :: "draft \<Rightarrow> run \<Rightarrow> instant \<Rightarrow> bool" where
  "run_over d run now =
     (case dr_ends d of
        Some ends \<Rightarrow> ends_ended ends run now
      | None \<Rightarrow> is_past (r_datetime run) now)"

definition adoptable_run :: "fixed_run \<Rightarrow> instant \<Rightarrow> instant \<Rightarrow> draft \<Rightarrow> run option" where
  "adoptable_run fixed wk_start now d =
     (case filter (\<lambda>run.
             r_fixed_run_id run = None \<and> \<not> is_terminal (r_status run) \<and>
             same_set (r_bosses run) (f_bosses fixed) \<and>
             r_channel_id run = f_channel_id fixed \<and> \<not> run_over d run now)
           (draft_runs d (Some wk_start)) of
        [run] \<Rightarrow> Some run
      | _ \<Rightarrow> None)"

definition adopt_run ::
  "run \<Rightarrow> fixed_run \<Rightarrow> zoned \<Rightarrow> reminder_policy \<Rightarrow> instant \<Rightarrow> unit plan" where
  "adopt_run run fixed slot policy now =
     seq (attempt (set_run_fixed (r_id run) (Some (f_id fixed))))
     (seq (attempt (set_run_datetime (r_id run) (to_fixed slot) (r_week_start run)))
     (seq (only_if (r_participants run \<noteq> f_participants fixed)
             (seq (edit (set_run_participants (r_id run) (f_participants fixed) now))
                  (bnd (recompute_after_roster_change (r_id run) now) (\<lambda>_. ret ()))))
     (refresh_run_reminders (r_id run) policy now)))"

definition new_run_of :: "fixed_run \<Rightarrow> instant \<Rightarrow> instant \<Rightarrow> new_run" where
  "new_run_of fixed week run_at =
     \<lparr>nr_fixed_run_id = Some (f_id fixed), nr_channel_id = f_channel_id fixed,
      nr_week_start = week, nr_datetime = run_at, nr_bosses = f_bosses fixed,
      nr_participants = f_participants fixed, nr_status = Planned, nr_source = FixedSource\<rparr>"

definition slot_over :: "zoned \<Rightarrow> str list \<Rightarrow> instant \<Rightarrow> draft \<Rightarrow> schedule_error + bool" where
  "slot_over slot bosses now d =
     (case dr_ends d of
        Some ends \<Rightarrow> Ok (slot_ended ends (to_fixed slot) bosses now)
      | None \<Rightarrow> is_past_slot slot now)"

definition materialise_one ::
  "zoned \<Rightarrow> instant \<Rightarrow> zoned \<Rightarrow> reminder_policy \<Rightarrow> instant \<Rightarrow> str list \<Rightarrow> fixed_run
    \<Rightarrow> str list plan" where
  "materialise_one start week end policy now created fixed =
     bnd (reads (\<lambda>d. run_for_fixed d (f_id fixed) week \<noteq> None)) (\<lambda>present.
     if present then ret created
     else
       bnd (dated (slot_in_week (AtZoned start) (rp_zone policy) (f_weekday fixed) (f_time fixed))) (\<lambda>slot.
       if zd_wall slot < zd_wall start \<or> zd_wall slot \<ge> zd_wall end then ret created
       else
         bnd (reads (slot_over slot (f_bosses fixed) now)) (\<lambda>over_result.
         bnd (check over_result) (\<lambda>over.
         if over then ret created
         else
           let run_at = to_fixed slot in
           bnd (reads (adoptable_run fixed week now)) (\<lambda>adoptable.
           case adoptable of
             Some run \<Rightarrow> seq (adopt_run run fixed slot policy now) (ret created)
           | None \<Rightarrow>
               bnd (create_run (new_run_of fixed week run_at)) (\<lambda>rid. ret (created @ [rid])))))))"

definition materialise_week :: "aware \<Rightarrow> reminder_policy \<Rightarrow> instant \<Rightarrow> str list plan" where
  "materialise_week wk_start policy now =
     bnd (dated (astimezone wk_start (rp_zone policy))) (\<lambda>start.
     bnd (dated (utc_instant (AtZoned start))) (\<lambda>week.
     bnd (dated (week_end (AtZoned start) (rp_zone policy))) (\<lambda>end.
     bnd (reads draft_fixed_runs) (\<lambda>timings.
     bnd (gather (materialise_one start week end policy now) [] timings) (\<lambda>created.
     bnd (reads (\<lambda>d. draft_runs d (Some week))) (\<lambda>runs.
     seq (each (\<lambda>run. bnd (ensure_reminders (r_id run) policy now False) (\<lambda>_. ret ())) runs)
     (ret created)))))))"

definition materialise_weeks :: "schedule_policy \<Rightarrow> instant \<Rightarrow> str list plan" where
  "materialise_weeks policy now =
     bnd (dated (materialised_weeks policy now)) (\<lambda>weeks.
     bnd (gather (\<lambda>created week.
            bnd (materialise_week (AtZoned week) (sp_reminders policy) now) (\<lambda>more.
            ret (created @ more))) [] weeks) (\<lambda>created.
     bnd (reconcile_day_of (sp_reminders policy) now) (\<lambda>_.
     ret created)))"

end
