(* ===== verification/FixedEdit.thy ===== *)
theory FixedEdit
  imports Lifecycle
begin

text \<open>
  Editing a weekly timing with a choice for each amended run, and changing its party by a delta
  that keeps each run's substitutions (\<open>schedule/fixed_edit.rs\<close>).
\<close>

section \<open>Edits\<close>

record fixed_edit =
  e_bosses :: "str list option"
  e_weekday :: "weekday option"
  e_time :: "clock option"
  e_participants :: "str list option"
  e_channel_id :: "str option"
  e_note :: "str option"
  e_owner_id :: "str option"

record amended_run =
  am_run_id :: str
  am_week_start :: instant
  am_datetime :: instant
  am_fixed_slot :: instant
  am_new_slot :: instant

datatype amended_run_choice = UpdateToFixed | KeepForThisWeek

datatype fixed_edit_choices =
  UpdateAll | PerRun "(str, amended_run_choice) table"

record fixed_edit_request =
  er_fixed_id :: str
  er_edit :: fixed_edit
  er_choices :: fixed_edit_choices

definition slot_at :: "zoned \<Rightarrow> tz \<Rightarrow> weekday \<Rightarrow> clock \<Rightarrow> date_out_of_range + instant" where
  "slot_at week zone day at = res_bind (slot_in_week (AtZoned week) zone day at) (\<lambda>s. Ok (to_fixed s))"

fun preview_weeks ::
  "draft \<Rightarrow> str \<Rightarrow> fixed_run \<Rightarrow> weekday \<Rightarrow> clock \<Rightarrow> tz \<Rightarrow> instant \<Rightarrow> zoned list
    \<Rightarrow> date_out_of_range + amended_run list" where
  "preview_weeks d fixed_id fixed day at zone now [] = Ok []"
| "preview_weeks d fixed_id fixed day at zone now (week # weeks) =
     res_bind (utc_instant (AtZoned week)) (\<lambda>start.
     case run_for_fixed d fixed_id start of
       None \<Rightarrow> preview_weeks d fixed_id fixed day at zone now weeks
     | Some run \<Rightarrow>
         if is_terminal (r_status run) \<or> draft_ended d run now then
           preview_weeks d fixed_id fixed day at zone now weeks
         else
           res_bind (slot_at week zone (f_weekday fixed) (f_time fixed)) (\<lambda>fixed_slot.
           res_bind (slot_at week zone day at) (\<lambda>new_slot.
           res_bind (preview_weeks d fixed_id fixed day at zone now weeks) (\<lambda>affected.
           Ok (if r_datetime run \<noteq> fixed_slot \<and> r_datetime run \<noteq> new_slot then
                 \<lparr>am_run_id = r_id run, am_week_start = start, am_datetime = r_datetime run,
                  am_fixed_slot = fixed_slot, am_new_slot = new_slot\<rparr> # affected
               else affected)))))"

definition preview_fixed_edit ::
  "draft \<Rightarrow> str \<Rightarrow> fixed_edit \<Rightarrow> schedule_policy \<Rightarrow> instant \<Rightarrow> schedule_error + amended_run list"
where
  "preview_fixed_edit d fixed_id edit' policy now =
     res_bind (ok_or (UnknownFixedRun fixed_id) (draft_fixed_run d fixed_id)) (\<lambda>fixed.
     if e_weekday edit' = None \<and> e_time edit' = None then Ok []
     else
       let day = (case e_weekday edit' of Some x \<Rightarrow> x | None \<Rightarrow> f_weekday fixed);
           at = (case e_time edit' of Some x \<Rightarrow> x | None \<Rightarrow> f_time fixed)
       in res_map_err DateError
            (res_bind (materialised_weeks policy now) (\<lambda>weeks.
             preview_weeks d fixed_id fixed day at (sp_zone policy) now weeks)))"

definition kept_runs :: "amended_run list \<Rightarrow> fixed_edit_choices \<Rightarrow> schedule_error + str list" where
  "kept_runs affected choices =
     (case choices of
        UpdateAll \<Rightarrow> Ok []
      | PerRun t \<Rightarrow>
          (case find (\<lambda>rid. \<not> list_ex (\<lambda>run. am_run_id run = rid) affected) (t_keys t) of
             Some stray \<Rightarrow> Err (UnexpectedChoice stray)
           | None \<Rightarrow>
               (case find (\<lambda>run. \<not> t_has t (am_run_id run)) affected of
                  Some missing \<Rightarrow> Err (MissingChoice (am_run_id missing))
                | None \<Rightarrow> Ok (map fst (filter (\<lambda>(_, choice). choice = KeepForThisWeek) t)))))"

text \<open>The patch and the touched fields, in the order they are pushed; validation stops at the first
  bad field.\<close>

definition edit_patch ::
  "(str \<Rightarrow> str) \<Rightarrow> directory \<Rightarrow> fixed_edit \<Rightarrow> schedule_error + fixed_run_patch \<times> fixed_field list"
where
  "edit_patch lower dir edit' =
     res_bind (case e_participants edit' of
                 None \<Rightarrow> Ok None
               | Some ids \<Rightarrow> res_bind (validate_participants lower dir ids) (\<lambda>party. Ok (Some party))) (\<lambda>party.
     res_bind (case e_channel_id edit' of
                 None \<Rightarrow> Ok None
               | Some c \<Rightarrow> res_bind (validate_channel dir c) (\<lambda>c. Ok (Some c))) (\<lambda>channel.
     res_bind (case e_owner_id edit' of
                 None \<Rightarrow> Ok (None, None)
               | Some o' \<Rightarrow>
                   if o' = [] then Ok (None, Some False)
                   else res_bind (validate_participants lower dir [o']) (\<lambda>owners.
                        Ok (Some (last owners), Some True))) (\<lambda>(owner_id, owner_pinned).
     Ok (\<lparr>p_owner_id = owner_id, p_owner_pinned = owner_pinned, p_channel_id = channel,
          p_bosses = e_bosses edit', p_weekday = e_weekday edit', p_time = e_time edit',
          p_participants = party, p_note = e_note edit'\<rparr>,
         (if e_bosses edit' \<noteq> None then [Bosses] else []) @
         (if e_weekday edit' \<noteq> None then [Weekday] else []) @
         (if e_time edit' \<noteq> None then [Time] else []) @
         (if e_participants edit' \<noteq> None then [Participants] else []) @
         (if e_channel_id edit' \<noteq> None then [ChannelId] else []) @
         (if e_note edit' \<noteq> None then [Note] else []) @
         (if e_owner_id edit' \<noteq> None then [OwnerId] else [])))))"

definition fixed_notice :: "fixed_run \<Rightarrow> notice_change \<Rightarrow> str list \<Rightarrow> notice" where
  "fixed_notice fixed change listed =
     \<lparr>no_change = change, no_channel_id = f_channel_id fixed, no_listed = listed,
      no_via_portal = True\<rparr>"

definition require_fixed :: "str \<Rightarrow> fixed_run plan" where
  "require_fixed fixed_id =
     bnd (reads (\<lambda>d. ok_or (UnknownFixedRun fixed_id) (draft_fixed_run d fixed_id))) check"

definition apply_fixed_edit ::
  "(str \<Rightarrow> str) \<Rightarrow> directory \<Rightarrow> fixed_edit_request \<Rightarrow> schedule_policy \<Rightarrow> instant
    \<Rightarrow> fixed_run outcome plan" where
  "apply_fixed_edit lower dir request policy now =
     (let fixed_id = er_fixed_id request; edit' = er_edit request in
      bnd (require_fixed fixed_id) (\<lambda>_.
      bnd (check (edit_patch lower dir edit')) (\<lambda>(patch, pushed).
      if pushed = [] then fail NothingToChange
      else
        let touched = sort_key fixed_field_str pushed in
        bnd (reads (\<lambda>d. preview_fixed_edit d fixed_id edit' policy now)) (\<lambda>preview.
        bnd (check preview) (\<lambda>affected.
        bnd (check (kept_runs affected (er_choices request))) (\<lambda>keep_slot.
        seq (edit (update_fixed_run fixed_id patch))
        (bnd (dated (materialised_weeks policy now)) (\<lambda>weeks.
         bnd (fixed_push fixed_id touched keep_slot (map AtZoned weeks) (sp_reminders policy) now) (\<lambda>_.
         bnd (materialise_weeks policy now) (\<lambda>_.
         bnd (require_fixed fixed_id) (\<lambda>updated.
         let listed = (if touched = [OwnerId] then [owner updated] else f_participants updated) in
         ret \<lparr>oc_value = updated,
              oc_notices =
                [fixed_notice updated
                   (NFixedChanged fixed_id touched (f_weekday updated) (f_time updated)
                      (f_participants updated)) listed]\<rparr>)))))))))))"

section \<open>Party deltas\<close>

definition party_delta :: "str list \<Rightarrow> str list \<Rightarrow> str list \<Rightarrow> str list" where
  "party_delta party add remove =
     foldl push_new (filter (\<lambda>user. \<not> contains remove user) party) add"

record party_delta_result =
  pd_fixed :: fixed_run
  pd_emptied :: "str list"

definition delta_one ::
  "str \<Rightarrow> str list \<Rightarrow> str list \<Rightarrow> instant \<Rightarrow> str list \<Rightarrow> zoned \<Rightarrow> str list plan" where
  "delta_one fixed_id add remove now emptied wk_start =
     bnd (dated (utc_instant (AtZoned wk_start))) (\<lambda>week.
     bnd (reads (\<lambda>d. run_for_fixed d fixed_id week)) (\<lambda>found.
     case found of
       None \<Rightarrow> ret emptied
     | Some run \<Rightarrow>
         bnd (reads (\<lambda>d. is_terminal (r_status run) \<or> draft_ended d run now)) (\<lambda>skip.
         let next = party_delta (r_participants run) add remove in
         if skip \<or> next = r_participants run then ret emptied
         else if next = [] then ret (emptied @ [r_id run])
         else
           seq (edit (set_run_participants (r_id run) next now))
           (seq (each (\<lambda>user. edit (clear_rsvp (r_id run) user))
                  (filter (\<lambda>user. contains remove user) (r_participants run)))
           (bnd (recompute_after_roster_change (r_id run) now) (\<lambda>_.
            ret emptied))))))"

definition apply_party_delta ::
  "(str \<Rightarrow> str) \<Rightarrow> directory \<Rightarrow> str \<Rightarrow> str list \<Rightarrow> str list \<Rightarrow> schedule_policy \<Rightarrow> instant
    \<Rightarrow> party_delta_result outcome plan" where
  "apply_party_delta lower dir fixed_id add remove policy now =
     bnd (require_fixed fixed_id) (\<lambda>fixed.
     bnd (check (validate_participants lower dir (party_delta (f_participants fixed) add remove))) (\<lambda>party.
     seq (edit (update_fixed_run fixed_id (empty_patch\<lparr>p_participants := Some party\<rparr>)))
     (bnd (dated (materialised_weeks policy now)) (\<lambda>weeks.
      bnd (gather (delta_one fixed_id add remove now) [] weeks) (\<lambda>emptied.
      bnd (materialise_weeks policy now) (\<lambda>_.
      bnd (require_fixed fixed_id) (\<lambda>updated.
      ret \<lparr>oc_value = \<lparr>pd_fixed = updated, pd_emptied = emptied\<rparr>,
           oc_notices =
             [fixed_notice updated
                (NFixedChanged fixed_id [Participants] (f_weekday updated) (f_time updated)
                   (f_participants updated)) (f_participants updated)]\<rparr>)))))))"

end
