(* ===== verification/Op.thy ===== *)
theory Op
  imports FixedEdit
begin

text \<open>
  Every attributed schedule mutation as one value, and its single implementation \<open>apply_op\<close>
  (\<open>schedule/op.rs\<close>). Policies and directories are the operation's arguments, as in the source;
  the standard library's lowercasing is an argument of \<open>apply_op\<close>.
\<close>

datatype op =
    AddFixedRun new_fixed_run
  | AddFixedRunMaterialised new_fixed_run schedule_policy
  | CreateRun new_run
  | MaterialiseWeek week_start reminder_policy
  | SetRunStatus str run_status
  | SetRsvp str str rsvp_state rsvp_source
  | ApplyReaction str str str bool
  | EditFixedRun str fixed_run_patch "fixed_field list" "week_start list" reminder_policy
  | RetireFixedRun str "week_start list" reminder_policy
  | EnsureReminders str bool reminder_policy
  | AddReminder str str instant "instant option"
  | MarkReminderSent str "str option"
  | RescheduleUnpostedReminder str instant
  | ReconcileDayOf reminder_policy
  | MaterialiseWeeks schedule_policy
  | SetStatus str status_change reminder_policy
  | AmendRun str instant schedule_policy
  | RescheduleRun str instant schedule_policy
  | SwapRunSlots str str "nat option" schedule_policy
  | SwapParticipants str "str list" "str list" bool directory
  | ApplyFixedEdit fixed_edit_request directory schedule_policy
  | ResetToFixed str schedule_policy
  | RecountAttendance
  | FixedParticipants str "str list" "str list" directory schedule_policy
  | SetRunBosses str "str list" reminder_policy
  | RecountRun str
  | ReviveRun str
  | FinishRun str
  | SettleRun settle_press reminder_policy

text \<open>\<open>Op::schedule_policy\<close>.\<close>

fun op_schedule_policy :: "op \<Rightarrow> schedule_policy option" where
  "op_schedule_policy (MaterialiseWeeks policy) = Some policy"
| "op_schedule_policy (AddFixedRunMaterialised _ policy) = Some policy"
| "op_schedule_policy (AmendRun _ _ policy) = Some policy"
| "op_schedule_policy (RescheduleRun _ _ policy) = Some policy"
| "op_schedule_policy (SwapRunSlots _ _ _ policy) = Some policy"
| "op_schedule_policy (ApplyFixedEdit _ _ policy) = Some policy"
| "op_schedule_policy (ResetToFixed _ policy) = Some policy"
| "op_schedule_policy (FixedParticipants _ _ _ _ policy) = Some policy"
| "op_schedule_policy _ = None"

datatype op_result =
    OCreated str
  | OIds "str list"
  | ODone
  | OReaction reaction_result
  | OCount nat
  | OReminder "str option"
  | OChanged bool
  | ORun run_state
  | ORuns "run_state list"
  | OFixed fixed_run
  | OPartyDelta party_delta_result

text \<open>A planner's result as an operation's, without notices (\<open>quiet\<close>) or with its own.\<close>

definition quietly :: "('a \<Rightarrow> op_result) \<Rightarrow> 'a plan \<Rightarrow> op_result outcome plan" where
  "quietly wrap m = bnd m (\<lambda>v. ret (quiet (wrap v)))"

definition loudly :: "('a \<Rightarrow> op_result) \<Rightarrow> 'a outcome plan \<Rightarrow> op_result outcome plan" where
  "loudly wrap m = bnd m (\<lambda>oc. ret \<lparr>oc_value = wrap (oc_value oc), oc_notices = oc_notices oc\<rparr>)"

definition op_add_fixed_run :: "new_fixed_run \<Rightarrow> op_result outcome plan" where
  "op_add_fixed_run new =
     bnd (add_fixed_run new) (\<lambda>fixed_id.
     bnd (require_fixed fixed_id) (\<lambda>fixed.
     ret \<lparr>oc_value = OCreated fixed_id,
          oc_notices =
            [fixed_notice fixed
               (NFixedAdded fixed_id (f_bosses fixed) (f_weekday fixed) (f_time fixed)
                  (f_participants fixed)) (f_participants fixed)]\<rparr>))"

definition op_set_run_status :: "str \<Rightarrow> run_status \<Rightarrow> unit plan" where
  "op_set_run_status run_id status =
     seq (edit (set_run_status run_id status))
     (bnd (reads (\<lambda>d. case Option.bind (draft_run d run_id) r_status_pin of
                        Some pin \<Rightarrow> pin_status pin \<noteq> status | None \<Rightarrow> False)) (\<lambda>stale.
      only_if stale (edit (set_run_pin run_id None))))"

definition op_retire_fixed_run ::
  "str \<Rightarrow> week_start list \<Rightarrow> reminder_policy \<Rightarrow> instant \<Rightarrow> op_result outcome plan" where
  "op_retire_fixed_run fixed_id weeks policy now =
     bnd (require_fixed fixed_id) (\<lambda>fixed.
     bnd (retire_fixed_run fixed_id (map AtWeek weeks) policy now) (\<lambda>cancelled.
     ret \<lparr>oc_value = OCount cancelled,
          oc_notices =
            [fixed_notice fixed
               (NFixedRemoved fixed_id (f_bosses fixed) (f_weekday fixed) (f_time fixed)
                  (f_participants fixed) cancelled) (f_participants fixed)]\<rparr>))"

definition op_set_run_bosses ::
  "str \<Rightarrow> str list \<Rightarrow> reminder_policy \<Rightarrow> instant \<Rightarrow> unit plan" where
  "op_set_run_bosses run_id bosses policy now =
     bnd (get_run run_id) (\<lambda>_.
     seq (not_ended run_id now)
     (seq (edit (set_run_bosses run_id bosses))
     (refresh_run_reminders run_id policy now)))"

definition op_recount_run :: "str \<Rightarrow> instant \<Rightarrow> bool plan" where
  "op_recount_run run_id now =
     bnd (get_run run_id) (\<lambda>run.
     bnd (reads (\<lambda>d. d_status (derive_run_status d run (r_status run) now))) (\<lambda>status.
     seq (only_if (status \<noteq> r_status run) (edit (set_run_status run_id status)))
     (ret (status \<noteq> r_status run))))"

definition op_revive_run :: "str \<Rightarrow> bool plan" where
  "op_revive_run run_id =
     bnd (get_run run_id) (\<lambda>run.
     let revive = (r_status run \<in> {Cancelled, Otot}) in
     seq (only_if revive (edit (revive_run run_id (r_status run)))) (ret revive))"

fun apply_op :: "(str \<Rightarrow> str) \<Rightarrow> op \<Rightarrow> instant \<Rightarrow> op_result outcome plan" where
  "apply_op lower (AddFixedRun new) now = op_add_fixed_run new"
| "apply_op lower (AddFixedRunMaterialised new policy) now =
     bnd (op_add_fixed_run new) (\<lambda>out. bnd (materialise_weeks policy now) (\<lambda>_. ret out))"
| "apply_op lower (CreateRun new) now = quietly OCreated (create_run new)"
| "apply_op lower (MaterialiseWeek week policy) now =
     quietly OIds (materialise_week (AtWeek week) policy now)"
| "apply_op lower (SetRunStatus run_id status) now =
     quietly (\<lambda>_. ODone) (op_set_run_status run_id status)"
| "apply_op lower (SetRsvp run_id user_id state source) now =
     quietly (\<lambda>_. ODone)
       (seq (not_ended run_id now) (edit (set_rsvp run_id user_id state source now)))"
| "apply_op lower (ApplyReaction run_id user_id emoji added) now =
     quietly OReaction (apply_reaction run_id user_id emoji added now)"
| "apply_op lower (EditFixedRun fixed_id patch changed weeks policy) now =
     quietly OCount
       (seq (edit (update_fixed_run fixed_id patch))
            (apply_fixed_to_runs fixed_id changed (map AtWeek weeks) policy now))"
| "apply_op lower (RetireFixedRun fixed_id weeks policy) now =
     op_retire_fixed_run fixed_id weeks policy now"
| "apply_op lower (EnsureReminders run_id rebuild policy) now =
     quietly OIds (ensure_reminders run_id policy now rebuild)"
| "apply_op lower (AddReminder run_id kind fire_at sent_at) now =
     quietly OReminder (add_reminder run_id kind fire_at sent_at)"
| "apply_op lower (MarkReminderSent reminder_id message_id) now =
     quietly (\<lambda>_. ODone) (edit (mark_reminder_sent reminder_id message_id now))"
| "apply_op lower (RescheduleUnpostedReminder reminder_id fire_at) now =
     quietly OChanged (act (reschedule_unposted_reminder reminder_id fire_at now))"
| "apply_op lower (ReconcileDayOf policy) now = quietly OCount (reconcile_day_of policy now)"
| "apply_op lower (FinishRun run_id) now = quietly OChanged (finish_run run_id)"
| "apply_op lower (SettleRun settle policy) now = quietly OChanged (settle_run settle policy now)"
| "apply_op lower (MaterialiseWeeks policy) now = quietly OIds (materialise_weeks policy now)"
| "apply_op lower (SetStatus run_id change policy) now =
     loudly ORun (set_status run_id change policy now)"
| "apply_op lower (AmendRun run_id to policy) now =
     loudly ORun (amend_run lower run_id to policy now)"
| "apply_op lower (RescheduleRun run_id to policy) now =
     loudly ORun (reschedule_run lower run_id to policy now)"
| "apply_op lower (SwapRunSlots run_id with_id version policy) now =
     loudly ORuns (swap_run_slots run_id with_id policy now)"
| "apply_op lower (SwapParticipants run_id remove add via_portal dir) now =
     loudly ORun (swap_participants lower dir run_id remove add via_portal now)"
| "apply_op lower (ApplyFixedEdit request dir policy) now =
     loudly OFixed (apply_fixed_edit lower dir request policy now)"
| "apply_op lower (FixedParticipants fixed_id add remove dir policy) now =
     loudly OPartyDelta (apply_party_delta lower dir fixed_id add remove policy now)"
| "apply_op lower RecountAttendance now = quietly OIds (recount_attendance now)"
| "apply_op lower (ResetToFixed run_id policy) now = loudly ORun (reset_to_fixed run_id policy now)"
| "apply_op lower (SetRunBosses run_id bosses policy) now =
     quietly (\<lambda>_. ODone) (op_set_run_bosses run_id bosses policy now)"
| "apply_op lower (RecountRun run_id) now = quietly OChanged (op_recount_run run_id now)"
| "apply_op lower (ReviveRun run_id) now = quietly OChanged (op_revive_run run_id)"

text \<open>Operations one after another, each at its own time; the first error ends the sequence.\<close>

fun apply_ops :: "(str \<Rightarrow> str) \<Rightarrow> (op \<times> instant) list \<Rightarrow> unit plan" where
  "apply_ops lower [] = ret ()"
| "apply_ops lower ((op, now) # ops) =
     bnd (apply_op lower op now) (\<lambda>_. apply_ops lower ops)"

end
