(* ===== verification/Preservation.thy ===== *)
theory Preservation
  imports Op
begin

text \<open>
  Every planner, every operation and every sequence of operations keeps any property of drafts
  that the methods of the working copy keep: proved once in the locales of \<open>DraftLaws\<close>, for all
  the invariants that interpret them.
\<close>

lemma keeps_get_run [keeps_rules]: "keeps I (get_run run_id)"
  unfolding get_run_def by (intro keeps_rules)

lemma keeps_dated [keeps_rules]: "keeps I (dated r)"
  unfolding dated_def by (intro keeps_rules)

lemma keeps_not_ended [keeps_rules]: "keeps I (not_ended run_id now)"
  unfolding not_ended_def by (intro keeps_rules)

lemma keeps_require_fixed [keeps_rules]: "keeps I (require_fixed fixed_id)"
  unfolding require_fixed_def by (intro keeps_rules)

lemma get_run_Ok_iff:
  "get_run run_id (d, ids) = Ok (run, d', ids') \<longleftrightarrow> draft_run d run_id = Some run \<and> d' = d \<and> ids' = ids"
  by (auto simp: get_run_def run_simps require_run_def run_check_Ok_iff)

lemma run_get_run: "draft_run d run_id = Some run \<Longrightarrow> get_run run_id (d, ids) = Ok (run, d, ids)"
  by (simp add: get_run_Ok_iff)

lemma run_not_ended:
  "draft_run d run_id = Some run \<Longrightarrow>
   not_ended run_id now (d, ids) = (if draft_ended d run now then Err (RunEnded run_id) else Ok ((), d, ids))"
  by (simp add: not_ended_def run_simps refuse_ended_def draft_run_def)

lemma valid_get_run:
  "valid I (get_run run_id) (\<lambda>run d. I d \<and> draft_run d run_id = Some run)"
  by (rule validI) (auto simp: get_run_Ok_iff)

lemma draft_run_set_status:
  "draft_run (set_run_status rid st d) rid' =
     (if rid' = rid then map_option (run_set_status st) (draft_run d rid) else draft_run d rid')"
  by (simp add: draft_run_def set_run_status_def modify_run_def)

lemma r_status_run_set_status [simp]: "r_status (run_set_status st run) = st"
  by (simp add: run_set_status_def)

lemma keeps_quietly [keeps_rules]: "keeps I m \<Longrightarrow> keeps I (quietly f m)"
  unfolding quietly_def by (intro keeps_rules)

lemma keeps_loudly [keeps_rules]: "keeps I m \<Longrightarrow> keeps I (loudly f m)"
  unfolding loudly_def by (intro keeps_rules)

context run_writes
begin

lemma keeps_clear_rsvps [keeps_rules]: "keeps I (each (\<lambda>user. edit (clear_rsvp rid user)) users)"
  by (intro keeps_rules clear_rsvp)

text \<open>A status set by hand: its pin agrees with the status the run then has.\<close>

lemma hand_pinned:
  assumes "I d" "\<And>run. draft_run d rid = Some run \<Longrightarrow> r_status run = st"
  shows "I (set_run_pin rid (hand_pin st now) d)"
  using assms by (auto simp: hand_pin_def intro!: set_pin clear_pin)

lemma keeps_set_status_pin:
  assumes "keeps I m"
  shows "keeps I (seq (edit (set_run_status rid st)) (seq (edit (set_run_pin rid (hand_pin st now))) m))"
  unfolding seq_def
proof (rule valid_bnd [where Q = "\<lambda>_ d. I d \<and> (\<forall>run. draft_run d rid = Some run \<longrightarrow> r_status run = st)"])
  show "valid I (edit (set_run_status rid st))
      (\<lambda>_ d. I d \<and> (\<forall>run. draft_run d rid = Some run \<longrightarrow> r_status run = st))"
    by (rule valid_edit) (auto simp: draft_run_set_status set_status)
qed (rule valid_bnd, rule valid_edit, rule hand_pinned, auto intro: assms)

lemma keeps_repin:
  assumes "r_status run = st" "keeps I m"
  shows "valid (\<lambda>d. I d \<and> draft_run d rid = Some run)
    (seq (only_if b (edit (set_run_pin rid (hand_pin st now)))) m) (\<lambda>_. I)"
  unfolding seq_def
proof (rule valid_bnd [where Q = "\<lambda>_. I"])
  have "valid (\<lambda>d. I d \<and> draft_run d rid = Some run)
      (edit (set_run_pin rid (hand_pin st now))) (\<lambda>_. I)"
    using assms(1) by (auto intro!: valid_edit hand_pinned)
  moreover have "valid (\<lambda>d. I d \<and> draft_run d rid = Some run) (ret ()) (\<lambda>_. I)"
    by (rule valid_pre [OF keeps_ret]) simp
  ultimately show "valid (\<lambda>d. I d \<and> draft_run d rid = Some run)
      (only_if b (edit (set_run_pin rid (hand_pin st now)))) (\<lambda>_. I)"
    unfolding only_if_def by (cases b) (simp_all only: if_True if_False)
qed (rule assms(2))

lemma hand_status:
  assumes "keeps I m" "keeps I m'" "keeps I u"
  shows "valid (\<lambda>d. I d \<and> draft_run d rid = Some run)
    (if r_status run = st then seq (only_if b (edit (set_run_pin rid (hand_pin st now)))) m
     else seq u (seq (edit (set_run_status rid st))
            (seq (edit (set_run_pin rid (hand_pin st now))) m'))) (\<lambda>_. I)"
  using assms by (auto intro: keeps_repin valid_pre [of I] keeps_seq keeps_set_status_pin)

lemma keeps_set_status [keeps_rules]: "keeps I (set_status rid change policy now)"
proof -
  note step = valid_bnd [OF valid_get_run hand_status]
  show ?thesis
    unfolding set_status_def Let_def by (intro keeps_if keeps_fail step keeps_rules)
qed

lemma keeps_settle_move [keeps_rules]: "keeps I (settle_after_move rid policy now)"
  unfolding settle_after_move_def by (intro keeps_rules run_edits)

lemma keeps_amend [keeps_rules]: "keeps I (amend_run lower rid to policy now)"
  unfolding amend_run_def by (intro keeps_rules run_steps)

lemma keeps_reschedule_run [keeps_rules]: "keeps I (reschedule_run lower rid to policy now)"
  unfolding reschedule_run_def by (intro keeps_rules)

lemma keeps_swap_participants [keeps_rules]:
  "keeps I (swap_participants lower dir rid leaving add via_portal now)"
  unfolding swap_participants_def by (intro keeps_rules run_steps)

lemma keeps_reset [keeps_rules]: "keeps I (reset_to_fixed rid policy now)"
  unfolding reset_to_fixed_def by (intro keeps_rules run_steps)

lemma keeps_finish [keeps_rules]: "keeps I (finish_run rid)"
  unfolding finish_run_def by (intro keeps_rules run_edits)

lemma keeps_push_run:
  assumes "r_id run = rid"
  shows "keeps I (push_run changed keep_slot fixed policy now start week run)"
  unfolding push_run_def assms by (intro keeps_rules run_steps)

lemma keeps_settle:
  assumes "se_run_id settle = rid"
  shows "keeps I (settle_run settle policy now)"
  unfolding settle_run_def assms by (intro keeps_rules)

lemma keeps_op_status [keeps_rules]: "keeps I (op_set_run_status rid status)"
  unfolding op_set_run_status_def by (intro keeps_rules run_steps)

lemma keeps_op_bosses [keeps_rules]: "keeps I (op_set_run_bosses rid bosses policy now)"
  unfolding op_set_run_bosses_def by (intro keeps_rules run_steps)

lemma keeps_op_recount [keeps_rules]: "keeps I (op_recount_run rid now)"
  unfolding op_recount_run_def by (intro keeps_rules run_steps)

lemma keeps_op_revive [keeps_rules]: "keeps I (op_revive_run rid)"
  unfolding op_revive_run_def by (intro keeps_rules run_steps)

end

context draft_invariant
begin

lemma keeps_swap_slots [keeps_rules]: "keeps I (swap_run_slots run_id with_id policy now)"
  unfolding swap_run_slots_def by (intro keeps_rules steps)

lemma keeps_push_one: "keeps I (push_one fixed_id changed keep fixed policy now touched week)"
  unfolding push_one_def by (intro keeps_rules run.keeps_push_run [OF refl])

lemma keeps_fixed_push [keeps_rules]: "keeps I (fixed_push fixed_id changed keep weeks policy now)"
  unfolding fixed_push_def by (intro keeps_rules keeps_push_one)

lemma keeps_apply_fixed [keeps_rules]: "keeps I (apply_fixed_to_runs fixed_id changed weeks policy now)"
  unfolding apply_fixed_to_runs_def by (intro keeps_rules)

lemma keeps_retire_one: "keeps I (retire_one fixed_id policy now n week)"
  unfolding retire_one_def by (intro keeps_rules steps)

lemma keeps_retire [keeps_rules]: "keeps I (retire_fixed_run fixed_id weeks policy now)"
  unfolding retire_fixed_run_def by (intro keeps_rules keeps_retire_one steps)

lemma keeps_adopt [keeps_rules]: "keeps I (adopt_run run fixed slot policy now)"
  unfolding adopt_run_def by (intro keeps_rules steps)

lemma keeps_materialise_one: "keeps I (materialise_one start week end policy now created fixed)"
  unfolding materialise_one_def by (intro keeps_rules)

lemma keeps_materialise_week [keeps_rules]: "keeps I (materialise_week week policy now)"
  unfolding materialise_week_def by (intro keeps_rules keeps_materialise_one)

lemma keeps_materialise_weeks [keeps_rules]: "keeps I (materialise_weeks policy now)"
  unfolding materialise_weeks_def by (intro keeps_rules)

lemma keeps_fixed_edit [keeps_rules]: "keeps I (apply_fixed_edit lower dir request policy now)"
  unfolding apply_fixed_edit_def by (intro keeps_rules steps)

lemma keeps_delta_one: "keeps I (delta_one fixed_id add remove now emptied week)"
  unfolding delta_one_def by (intro keeps_rules steps)

lemma keeps_party_delta [keeps_rules]: "keeps I (apply_party_delta lower dir fixed_id add remove policy now)"
  unfolding apply_party_delta_def by (intro keeps_rules steps keeps_delta_one)

lemma keeps_op_add [keeps_rules]: "keeps I (op_add_fixed_run new)"
  unfolding op_add_fixed_run_def by (intro keeps_rules steps)

lemma keeps_op_retire [keeps_rules]: "keeps I (op_retire_fixed_run rid weeks policy now)"
  unfolding op_retire_fixed_run_def by (intro keeps_rules steps)

text \<open>The one theorem the invariants rest on.\<close>

lemma keeps_apply_op: "keeps I (apply_op lower op now)"
  by (cases op; simp only: apply_op.simps; intro keeps_rules steps run.keeps_settle [OF refl] keeps_recount)

lemma keeps_apply_ops: "keeps I (apply_ops lower ops)"
  by (induction ops rule: apply_ops.induct [of _ lower]) (auto intro: keeps_rules keeps_apply_op)

end

end
