(* ===== verification/Invariants.thy ===== *)
theory Invariants
  imports Preservation "HOL-Library.Multiset"
begin

text \<open>
  What is true of every working copy, whatever operations built it: rows sit under their own
  keys, a weekly timing has at most one run in a boss week, a run at most one reminder of a
  kind, a timing's standing answers and a run's recorded attendance name members of the party,
  a pinned status is one an administrator may pin, and runs are never deleted. Each is an
  interpretation of \<open>draft_invariant\<close>, so \<open>keeps_apply_ops\<close> gives it for every sequence of
  operations; with the first three the store can always write the copy back (\<open>Store\<close>).
\<close>

section \<open>The methods on rows\<close>

named_theorems draft_defs "methods of the working copy"

lemmas [draft_defs] = insert_reminder_def delete_reminders_def delete_unsent_reminders_def
  mark_reminder_sent_def set_run_status_def set_run_pin_def
  modify_run_def set_run_participants_def set_run_bosses_def set_run_channel_def set_rsvp_def
  put_rsvp_def clear_rsvp_def insert_fixed_run_def update_fixed_run_def delete_fixed_run_def
  note_revived_def draft_run_def

lemma reschedule_cases:
  "snd (reschedule_unposted_reminder rid fire_at now d) = d \<or>
   (\<exists>row row'. t_get (dr_reminders d) rid = Some row \<and>
      rescheduled (contains (sn_unproven_retired (dr_base d)) rid) fire_at now row = Some row' \<and>
      snd (reschedule_unposted_reminder rid fire_at now d) =
        d\<lparr>dr_reminders := t_modify rid (\<lambda>_. row') (dr_reminders d)\<rparr>)"
  by (auto simp: reschedule_unposted_reminder_def draft_reminder_def split: option.splits)

lemma rescheduled_same:
  "rescheduled u fire_at now row = Some row' \<Longrightarrow>
     m_id row' = m_id row \<and> m_run_id row' = m_run_id row \<and> m_kind row' = m_kind row \<and>
     m_message_id row' = m_message_id row"
  by (auto simp: rescheduled_def split: if_splits option.splits)

lemma set_run_datetime_cases:
  assumes "set_run_datetime rid at week d = Ok d'"
  shows "d' = d \<or> (\<exists>run. t_get (dr_runs d) rid = Some run \<and>
    check_fixed_week rid (r_fixed_run_id run) week d = Ok () \<and>
    d' = modify_run rid (\<lambda>run. run\<lparr>r_datetime := at, r_week_start := week\<rparr>) d)"
  using assms by (auto simp: set_run_datetime_def draft_run_def res_bind_Ok_iff split: option.splits)

lemma set_run_fixed_cases:
  assumes "set_run_fixed rid fixed d = Ok d'"
  shows "d' = d \<or> (\<exists>run. t_get (dr_runs d) rid = Some run \<and>
    check_fixed_week rid fixed (r_week_start run) d = Ok () \<and>
    d' = modify_run rid (r_fixed_run_id_update (\<lambda>_. fixed)) d)"
  using assms by (auto simp: set_run_fixed_def draft_run_def res_bind_Ok_iff split: option.splits)

text \<open>The row \<open>create_run\<close> stores.\<close>

definition fresh_run :: "str \<Rightarrow> new_run \<Rightarrow> run" where
  "fresh_run rid new =
     \<lparr>r_id = rid, r_fixed_run_id = nr_fixed_run_id new, r_channel_id = nr_channel_id new,
      r_week_start = nr_week_start new, r_datetime = nr_datetime new, r_bosses = nr_bosses new,
      r_participants = nr_participants new, r_status = nr_status new, r_source = nr_source new,
      r_attendance = [], r_status_pin = None\<rparr>"

lemma insert_run_cases:
  assumes "insert_run rid new d = Ok d'"
  shows "check_fixed_week rid (nr_fixed_run_id new) (nr_week_start new) d = Ok ()"
    "d' = d\<lparr>dr_runs := t_insert rid (fresh_run rid new) (dr_runs d)\<rparr>"
  using assms by (auto simp: insert_run_def res_bind_Ok_iff fresh_run_def)

lemma f_id_patched [simp]: "f_id (patched patch row) = f_id row"
  by (simp add: patched_def set_opt_def patch_participants_def split: option.split)

lemma run_edits [simp]:
  "r_id (run_set_status st run) = r_id run"
  "r_fixed_run_id (run_set_status st run) = r_fixed_run_id run"
  "r_week_start (run_set_status st run) = r_week_start run"
  "r_datetime (run_set_status st run) = r_datetime run"
  "r_participants (run_set_status st run) = r_participants run"
  "r_bosses (run_set_status st run) = r_bosses run"
  "r_channel_id (run_set_status st run) = r_channel_id run"
  "r_source (run_set_status st run) = r_source run"
  "r_id (run_set_participants ps now run) = r_id run"
  "r_fixed_run_id (run_set_participants ps now run) = r_fixed_run_id run"
  "r_week_start (run_set_participants ps now run) = r_week_start run"
  "r_datetime (run_set_participants ps now run) = r_datetime run"
  "r_participants (run_set_participants ps now run) = ps"
  "r_bosses (run_set_participants ps now run) = r_bosses run"
  "r_channel_id (run_set_participants ps now run) = r_channel_id run"
  "r_source (run_set_participants ps now run) = r_source run"
  "r_status (run_set_participants ps now run) = r_status run"
  by (simp_all add: run_set_status_def run_set_participants_def)

section \<open>Rows under their own keys\<close>

definition rows_keyed :: "draft \<Rightarrow> bool" where
  "rows_keyed d \<longleftrightarrow>
     t_ok (dr_fixed d) \<and> t_ok (dr_runs d) \<and> t_ok (dr_reminders d) \<and> t_ok (dr_rsvps d) \<and>
     tbl.keyed_by f_id (dr_fixed d) \<and> tbl.keyed_by r_id (dr_runs d) \<and>
     tbl.keyed_by m_id (dr_reminders d) \<and> tbl.keyed_by rsvp_key (dr_rsvps d)"

lemma keyed_by_modify: "tbl.keyed_by key t \<Longrightarrow> (\<And>v. key (f v) = key v) \<Longrightarrow> tbl.keyed_by key (t_modify k f t)"
  by (auto simp: tbl.keyed_by_def)

lemma keyed_by_retain: "t_ok t \<Longrightarrow> tbl.keyed_by key t \<Longrightarrow> tbl.keyed_by key (t_retain p t)"
  by (auto simp: tbl.keyed_by_def t_get_retain split: option.splits if_splits)

lemma keyed_by_put: "tbl.keyed_by key t \<Longrightarrow> key v = k \<Longrightarrow> tbl.keyed_by key (t_insert k v t)"
  using tbl.keyed_put [of key t v] by simp

interpretation keyed: draft_invariant rows_keyed
proof unfold_locales
  fix d rid fire_at now
  assume "rows_keyed d"
  then show "rows_keyed (snd (reschedule_unposted_reminder rid fire_at now d))"
    using reschedule_cases [of rid fire_at now d]
    by (auto simp: rows_keyed_def tbl.keyed_by_def dest!: rescheduled_same split: if_splits)
next
  fix d rid at week d'
  assume "rows_keyed d" "set_run_datetime rid at week d = Ok d'"
  then show "rows_keyed d'"
    by (auto simp: rows_keyed_def modify_run_def dest!: set_run_datetime_cases intro!: keyed_by_modify)
next
  fix d rid fixed d'
  assume "rows_keyed d" "set_run_fixed rid fixed d = Ok d'"
  then show "rows_keyed d'"
    by (auto simp: rows_keyed_def modify_run_def dest!: set_run_fixed_cases intro!: keyed_by_modify)
next
  fix d rid new d'
  assume "rows_keyed d" "insert_run rid new d = Ok d'"
  then show "rows_keyed d'"
    by (auto simp: rows_keyed_def fresh_run_def dest!: insert_run_cases(2) intro!: keyed_by_put)
qed (auto simp: rows_keyed_def draft_defs Let_def rsvp_key_def
    intro!: keyed_by_put keyed_by_modify keyed_by_retain tbl.keyed_del)

text \<open>What each method leaves alone.\<close>

lemma frame_insert_reminder [simp]:
  "dr_runs (snd (insert_reminder rid run_id kind fire_at sent_at d)) = dr_runs d"
  "dr_fixed (snd (insert_reminder rid run_id kind fire_at sent_at d)) = dr_fixed d"
  "dr_base (snd (insert_reminder rid run_id kind fire_at sent_at d)) = dr_base d"
  by (simp_all add: insert_reminder_def Let_def)

lemma frame_reschedule [simp]:
  "dr_runs (snd (reschedule_unposted_reminder rid fire_at now d)) = dr_runs d"
  "dr_fixed (snd (reschedule_unposted_reminder rid fire_at now d)) = dr_fixed d"
  "dr_base (snd (reschedule_unposted_reminder rid fire_at now d)) = dr_base d"
  using reschedule_cases [of rid fire_at now d] by auto

lemma frame_runs [simp]:
  "dr_runs (delete_reminders run_id d) = dr_runs d"
  "dr_runs (delete_unsent_reminders run_id kinds d) = dr_runs d"
  "dr_runs (mark_reminder_sent rid message at d) = dr_runs d"
  "dr_runs (set_rsvp run_id user state source at d) = dr_runs d"
  "dr_runs (clear_rsvp run_id user d) = dr_runs d"
  "dr_runs (insert_fixed_run rid newf d) = dr_runs d"
  "dr_runs (update_fixed_run rid patch d) = dr_runs d"
  "dr_runs (delete_fixed_run rid d) = dr_runs d"
  "dr_runs (note_revived rid from d) = dr_runs d"
  by (simp_all add: draft_defs)

lemma frame_modify_run [simp]:
  "dr_runs (modify_run rid f d) = t_modify rid f (dr_runs d)"
  "dr_fixed (modify_run rid f d) = dr_fixed d"
  "dr_reminders (modify_run rid f d) = dr_reminders d"
  "dr_rsvps (modify_run rid f d) = dr_rsvps d"
  "dr_base (modify_run rid f d) = dr_base d"
  by (simp_all add: modify_run_def)

lemma run_methods_runs:
  "dr_runs (set_run_status rid status d) = t_modify rid (run_set_status status) (dr_runs d)"
  "dr_runs (set_run_pin rid pin d) = t_modify rid (r_status_pin_update (\<lambda>_. pin)) (dr_runs d)"
  "dr_runs (set_run_participants rid people now d) =
     t_modify rid (run_set_participants people now) (dr_runs d)"
  "dr_runs (set_run_bosses rid bosses d) = t_modify rid (r_bosses_update (\<lambda>_. bosses)) (dr_runs d)"
  "dr_runs (set_run_channel rid channel d) =
     t_modify rid (r_channel_id_update (\<lambda>_. channel)) (dr_runs d)"
  by (simp_all add: draft_defs)

section \<open>One run per timing and week\<close>

definition one_run_per_week :: "(str, run) table \<Rightarrow> bool" where
  "one_run_per_week t \<longleftrightarrow>
     (\<forall>i j a b. t_get t i = Some a \<and> t_get t j = Some b \<and>
        r_fixed_run_id a \<noteq> None \<and> r_fixed_run_id a = r_fixed_run_id b \<and>
        r_week_start a = r_week_start b \<longrightarrow> i = j)"

definition weeks_ok :: "draft \<Rightarrow> bool" where
  "weeks_ok d \<longleftrightarrow> rows_keyed d \<and> one_run_per_week (dr_runs d)"

lemma run_for_fixed_Some:
  assumes "rows_keyed d" "run_for_fixed d f week = Some run"
  shows "t_get (dr_runs d) (r_id run) = Some run" "r_fixed_run_id run = Some f" "r_week_start run = week"
proof -
  have "run \<in> set (t_values (dr_runs d)) \<and> r_fixed_run_id run = Some f \<and> r_week_start run = week"
    using assms(2) unfolding run_for_fixed_def by (rule find_Some_in)
  moreover from this obtain k where "t_get (dr_runs d) k = Some run"
    using assms(1) by (auto simp: rows_keyed_def in_t_values)
  ultimately show "t_get (dr_runs d) (r_id run) = Some run" "r_fixed_run_id run = Some f"
    "r_week_start run = week"
    using assms(1) by (auto simp: rows_keyed_def tbl.keyed_by_def)
qed

lemma run_for_fixed_None:
  assumes "run_for_fixed d f week = None" "t_get (dr_runs d) i = Some run"
  shows "\<not> (r_fixed_run_id run = Some f \<and> r_week_start run = week)"
  using assms t_get_values [OF assms(2)] by (auto simp: run_for_fixed_def find_None_iff)

lemma run_for_fixed_only:
  assumes ok: "weeks_ok d" and at: "t_get (dr_runs d) i = Some run" and f: "r_fixed_run_id run = Some f"
  shows "run_for_fixed d f (r_week_start run) = Some run"
proof -
  obtain other where o: "run_for_fixed d f (r_week_start run) = Some other"
    using run_for_fixed_None [OF _ at, of f "r_week_start run"] f
    by (cases "run_for_fixed d f (r_week_start run)") auto
  have "rows_keyed d" using ok by (simp add: weeks_ok_def)
  note r = run_for_fixed_Some [OF this o]
  have "one_run_per_week (dr_runs d)" using ok by (simp add: weeks_ok_def)
  then have "r_id other = i" using r at f unfolding one_run_per_week_def by (metis option.discI)
  then show ?thesis using o at r(1) by simp
qed

text \<open>What the check before a write guarantees.\<close>

lemma check_fixed_week_free:
  assumes "weeks_ok d" "check_fixed_week rid fixed week d = Ok ()"
    "t_get (dr_runs d) i = Some run" "fixed \<noteq> None" "r_fixed_run_id run = fixed" "r_week_start run = week"
  shows "i = rid"
proof -
  obtain f where f: "fixed = Some f" using assms(4) by blast
  have "run_for_fixed d f week = Some run" using run_for_fixed_only [of d i run f] assms f by auto
  then have "r_id run = rid" using assms(2) f by (auto simp: check_fixed_week_def split: if_splits)
  then show ?thesis using assms(1,3) by (auto simp: weeks_ok_def rows_keyed_def tbl.keyed_by_def)
qed

lemma one_run_modify:
  assumes "one_run_per_week t" "\<And>run. r_fixed_run_id (f run) = r_fixed_run_id run"
    "\<And>run. r_week_start (f run) = r_week_start run"
  shows "one_run_per_week (t_modify rid f t)"
proof -
  have "t_get (t_modify rid f t) i = Some a \<Longrightarrow>
      \<exists>a0. t_get t i = Some a0 \<and> r_fixed_run_id a = r_fixed_run_id a0 \<and> r_week_start a = r_week_start a0"
    for i a using assms(2,3) by (auto split: if_splits)
  then show ?thesis
    using assms(1) unfolding one_run_per_week_def by metis
qed

text \<open>A write of one row, checked against the others.\<close>

lemma one_run_write:
  assumes ok: "weeks_ok d" and free: "check_fixed_week rid (r_fixed_run_id row) (r_week_start row) d = Ok ()"
    and rows: "\<And>i. t_get t i = (if i = rid then Some row else t_get (dr_runs d) i)"
  shows "one_run_per_week t"
  unfolding one_run_per_week_def
proof (intro allI impI, elim conjE)
  fix i j a b
  assume ab: "t_get t i = Some a" "t_get t j = Some b"
    "r_fixed_run_id a \<noteq> None" "r_fixed_run_id a = r_fixed_run_id b" "r_week_start a = r_week_start b"
  show "i = j"
  proof (cases "i = rid"; cases "j = rid")
    assume "i = rid" "j \<noteq> rid"
    then have "a = row" "t_get (dr_runs d) j = Some b" using ab(1,2) rows [of i] rows [of j] by simp_all
    moreover from this ab(3-5) have "r_fixed_run_id row \<noteq> None" "r_fixed_run_id b = r_fixed_run_id row"
      "r_week_start b = r_week_start row" by metis+
    ultimately have "j = rid" using check_fixed_week_free [OF ok free] by blast
    then show ?thesis using \<open>i = rid\<close> by simp
  next
    assume "i \<noteq> rid" "j = rid"
    then have "b = row" "t_get (dr_runs d) i = Some a" using ab(1,2) rows [of i] rows [of j] by simp_all
    moreover from this ab(3-5) have "r_fixed_run_id row \<noteq> None" "r_fixed_run_id a = r_fixed_run_id row"
      "r_week_start a = r_week_start row" by metis+
    ultimately have "i = rid" using check_fixed_week_free [OF ok free] by blast
    then show ?thesis using \<open>j = rid\<close> by simp
  next
    assume "i \<noteq> rid" "j \<noteq> rid"
    then have "t_get (dr_runs d) i = Some a" "t_get (dr_runs d) j = Some b"
      using ab(1,2) rows [of i] rows [of j] by simp_all
    moreover have "one_run_per_week (dr_runs d)" using ok by (simp add: weeks_ok_def)
    ultimately show ?thesis using ab(3-5) unfolding one_run_per_week_def by metis
  qed simp
qed

interpretation weeks: draft_invariant weeks_ok
proof unfold_locales
  fix d rid at week d'
  assume ok: "weeks_ok d" and e: "set_run_datetime rid at week d = Ok d'"
  have "rows_keyed d'" using keyed.set_datetime [OF _ e] ok by (simp add: weeks_ok_def)
  moreover have "one_run_per_week (dr_runs d')"
  proof (cases "d' = d")
    case True
    then show ?thesis using ok by (simp add: weeks_ok_def)
  next
    case False
    then obtain run where "t_get (dr_runs d) rid = Some run"
      "check_fixed_week rid (r_fixed_run_id run) week d = Ok ()"
      "d' = modify_run rid (\<lambda>run. run\<lparr>r_datetime := at, r_week_start := week\<rparr>) d"
      using set_run_datetime_cases [OF e] by blast
    then show ?thesis
      using one_run_write [OF ok, of rid "run\<lparr>r_datetime := at, r_week_start := week\<rparr>" "dr_runs d'"]
      by simp
  qed
  ultimately show "weeks_ok d'" by (simp add: weeks_ok_def)
next
  fix d rid fixed d'
  assume ok: "weeks_ok d" and e: "set_run_fixed rid fixed d = Ok d'"
  have "rows_keyed d'" using keyed.set_fixed [OF _ e] ok by (simp add: weeks_ok_def)
  moreover have "one_run_per_week (dr_runs d')"
  proof (cases "d' = d")
    case True
    then show ?thesis using ok by (simp add: weeks_ok_def)
  next
    case False
    then obtain run where "t_get (dr_runs d) rid = Some run"
      "check_fixed_week rid fixed (r_week_start run) d = Ok ()"
      "d' = modify_run rid (r_fixed_run_id_update (\<lambda>_. fixed)) d"
      using set_run_fixed_cases [OF e] by blast
    then show ?thesis
      using one_run_write [OF ok, of rid "run\<lparr>r_fixed_run_id := fixed\<rparr>" "dr_runs d'"]
      by simp
  qed
  ultimately show "weeks_ok d'" by (simp add: weeks_ok_def)
next
  fix d rid new d'
  assume ok: "weeks_ok d" and e: "insert_run rid new d = Ok d'"
  have "rows_keyed d'" using keyed.insert_run [OF _ e] ok by (simp add: weeks_ok_def)
  moreover have "one_run_per_week (dr_runs d')"
    using one_run_write [OF ok, of rid "fresh_run rid new" "dr_runs d'"] insert_run_cases [OF e]
    by (simp add: fresh_run_def)
  ultimately show "weeks_ok d'" by (simp add: weeks_ok_def)
next
  fix d rid and pin :: status_pin
  assume "weeks_ok d" "pin_status pin \<in> {Planned, Confirmed}"
    "\<And>run. draft_run d rid = Some run \<Longrightarrow> r_status run = pin_status pin"
  then show "weeks_ok (set_run_pin rid (Some pin) d)"
    using keyed.set_pin [of d pin rid] by (simp add: weeks_ok_def run_methods_runs one_run_modify)
qed (simp_all add: weeks_ok_def keyed.edits run_methods_runs one_run_modify)

section \<open>One reminder of a kind per run\<close>

definition one_reminder_per_kind :: "(str, reminder) table \<Rightarrow> bool" where
  "one_reminder_per_kind t \<longleftrightarrow>
     (\<forall>i j a b. t_get t i = Some a \<and> t_get t j = Some b \<and>
        m_run_id a = m_run_id b \<and> m_kind a = m_kind b \<longrightarrow> i = j)"

definition kinds_ok :: "draft \<Rightarrow> bool" where
  "kinds_ok d \<longleftrightarrow> rows_keyed d \<and> one_reminder_per_kind (dr_reminders d)"

lemma one_reminder_mono:
  assumes "one_reminder_per_kind t"
    "\<And>i a. t_get t' i = Some a \<Longrightarrow> \<exists>a0. t_get t i = Some a0 \<and> m_run_id a = m_run_id a0 \<and> m_kind a = m_kind a0"
  shows "one_reminder_per_kind t'"
  using assms unfolding one_reminder_per_kind_def by metis

lemma one_reminder_insert:
  assumes "one_reminder_per_kind (dr_reminders d)"
  shows "one_reminder_per_kind (dr_reminders (snd (insert_reminder rid run_id kind fire_at sent_at d)))"
proof (cases "list_ex (\<lambda>row. m_run_id row = run_id \<and> m_kind row = kind) (t_values (dr_reminders d)) \<or>
    t_has (dr_reminders d) rid")
  case True
  then show ?thesis using assms by (simp add: insert_reminder_def Let_def)
next
  case False
  then have free: "m_run_id a \<noteq> run_id \<or> m_kind a \<noteq> kind" if "t_get (dr_reminders d) i = Some a" for i a
    using t_get_values [OF that] by (auto simp: list_ex_iff)
  let ?row = "\<lparr>m_id = rid, m_run_id = run_id, m_kind = kind, m_fire_at = fire_at, m_sent_at = sent_at,
    m_message_id = None\<rparr>"
  have new: "dr_reminders (snd (insert_reminder rid run_id kind fire_at sent_at d)) =
      t_insert rid ?row (dr_reminders d)"
    using False by (simp add: insert_reminder_def Let_def)
  show ?thesis
    unfolding new one_reminder_per_kind_def
  proof (intro allI impI, elim conjE)
    fix i j a b
    assume "t_get (t_insert rid ?row (dr_reminders d)) i = Some a"
      "t_get (t_insert rid ?row (dr_reminders d)) j = Some b" "m_run_id a = m_run_id b" "m_kind a = m_kind b"
    note ab = this
    have old: "i = j" if "t_get (dr_reminders d) i = Some a" "t_get (dr_reminders d) j = Some b"
      using that ab(3,4) assms unfolding one_reminder_per_kind_def by blast
    show "i = j"
    proof (cases "i = rid"; cases "j = rid")
      assume "i = rid" "j \<noteq> rid"
      then show ?thesis using ab free [of j b] by auto
    next
      assume "i \<noteq> rid" "j = rid"
      then show ?thesis using ab free [of i a] by auto
    next
      assume "i \<noteq> rid" "j \<noteq> rid"
      then show ?thesis using ab(1,2) old by simp
    qed simp
  qed
qed

lemma one_reminder_reschedule:
  assumes "one_reminder_per_kind (dr_reminders d)"
  shows "one_reminder_per_kind (dr_reminders (snd (reschedule_unposted_reminder rid fire_at now d)))"
  using reschedule_cases [of rid fire_at now d]
proof (elim disjE exE conjE)
  fix row row'
  assume row: "t_get (dr_reminders d) rid = Some row"
    "rescheduled (contains (sn_unproven_retired (dr_base d)) rid) fire_at now row = Some row'"
    "snd (reschedule_unposted_reminder rid fire_at now d) =
       d\<lparr>dr_reminders := t_modify rid (\<lambda>_. row') (dr_reminders d)\<rparr>"
  then show ?thesis
    using rescheduled_same [OF row(2)]
    by (auto intro!: one_reminder_mono [OF assms] split: if_splits)
qed (use assms in simp)

lemma frame_reminders [simp]:
  "dr_reminders (set_run_status rid status d) = dr_reminders d"
  "dr_reminders (set_run_pin rid pin d) = dr_reminders d"
  "dr_reminders (set_run_participants rid people now d) = dr_reminders d"
  "dr_reminders (set_run_bosses rid bosses d) = dr_reminders d"
  "dr_reminders (set_run_channel rid channel d) = dr_reminders d"
  "dr_reminders (set_rsvp run_id user state source at d) = dr_reminders d"
  "dr_reminders (clear_rsvp run_id user d) = dr_reminders d"
  "dr_reminders (insert_fixed_run rid newf d) = dr_reminders d"
  "dr_reminders (update_fixed_run rid patch d) = dr_reminders d"
  "dr_reminders (delete_fixed_run rid d) = dr_reminders d"
  "dr_reminders (note_revived rid from d) = dr_reminders d"
  by (simp_all add: draft_defs)

interpretation kinds: draft_invariant kinds_ok
proof unfold_locales
  fix d rid run_id kind fire_at sent_at
  assume "kinds_ok d"
  then show "kinds_ok (snd (insert_reminder rid run_id kind fire_at sent_at d))"
    using one_reminder_insert by (simp add: kinds_ok_def keyed.insert_reminder)
next
  fix d rid fire_at now
  assume "kinds_ok d"
  then show "kinds_ok (snd (reschedule_unposted_reminder rid fire_at now d))"
    using one_reminder_reschedule by (simp add: kinds_ok_def keyed.reschedule)
next
  fix d run_id
  assume "kinds_ok d"
  moreover from this have "one_reminder_per_kind (dr_reminders (delete_reminders run_id d))"
    by (auto simp: kinds_ok_def rows_keyed_def delete_reminders_def t_get_retain
        intro!: one_reminder_mono [of "dr_reminders d"] split: option.splits if_splits)
  ultimately show "kinds_ok (delete_reminders run_id d)" by (simp add: kinds_ok_def keyed.delete_reminders)
next
  fix d run_id kinds
  assume "kinds_ok d"
  moreover from this have "one_reminder_per_kind (dr_reminders (delete_unsent_reminders run_id kinds d))"
    by (auto simp: kinds_ok_def rows_keyed_def delete_unsent_reminders_def t_get_retain
        intro!: one_reminder_mono [of "dr_reminders d"] split: option.splits if_splits)
  ultimately show "kinds_ok (delete_unsent_reminders run_id kinds d)"
    by (simp add: kinds_ok_def keyed.delete_unsent)
next
  fix d rid message at
  assume "kinds_ok d"
  moreover from this have "one_reminder_per_kind (dr_reminders (mark_reminder_sent rid message at d))"
    by (auto simp: kinds_ok_def mark_reminder_sent_def
        intro!: one_reminder_mono [of "dr_reminders d"] split: if_splits)
  ultimately show "kinds_ok (mark_reminder_sent rid message at d)" by (simp add: kinds_ok_def keyed.mark_sent)
next
  fix d rid and pin :: status_pin
  assume "kinds_ok d" "pin_status pin \<in> {Planned, Confirmed}"
    "\<And>run. draft_run d rid = Some run \<Longrightarrow> r_status run = pin_status pin"
  then show "kinds_ok (set_run_pin rid (Some pin) d)"
    using keyed.set_pin [of d pin rid] by (simp add: kinds_ok_def)
next
  fix d rid at week d'
  assume "kinds_ok d" "set_run_datetime rid at week d = Ok d'"
  then show "kinds_ok d'"
    using keyed.set_datetime [of d rid at week d'] set_run_datetime_cases [of rid at week d d']
    by (auto simp: kinds_ok_def)
next
  fix d rid fixed d'
  assume "kinds_ok d" "set_run_fixed rid fixed d = Ok d'"
  then show "kinds_ok d'"
    using keyed.set_fixed [of d rid fixed d'] set_run_fixed_cases [of rid fixed d d']
    by (auto simp: kinds_ok_def)
next
  fix d rid new d'
  assume "kinds_ok d" "insert_run rid new d = Ok d'"
  then show "kinds_ok d'"
    using keyed.insert_run [of d rid new d'] insert_run_cases(2) [of rid new d d']
    by (auto simp: kinds_ok_def)
qed (simp_all add: kinds_ok_def keyed.edits)

section \<open>Standing answers of the party\<close>

text \<open>One standing answer per member at most, in user order as the store loads them.\<close>

definition all_rows :: "('r \<Rightarrow> bool) \<Rightarrow> ('k, 'r) table \<Rightarrow> bool" where
  "all_rows p t \<longleftrightarrow> (\<forall>k row. t_get t k = Some row \<longrightarrow> p row)"

lemma all_rows_simps [simp]:
  "all_rows p t \<Longrightarrow> p row \<Longrightarrow> all_rows p (t_insert k row t)"
  "all_rows p t \<Longrightarrow> all_rows p (t_remove k t)"
  by (simp_all add: all_rows_def)

lemma all_rows_modify: "all_rows p t \<Longrightarrow> (\<And>row. p row \<Longrightarrow> p (f row)) \<Longrightarrow> all_rows p (t_modify k f t)"
  by (auto simp: all_rows_def)

definition standing_ok :: "fixed_run \<Rightarrow> bool" where
  "standing_ok fixed \<longleftrightarrow>
     sorted_wrt (<) (map st_user_id (f_standing fixed)) \<and>
     (\<forall>s \<in> set (f_standing fixed). st_user_id s \<in> set (f_participants fixed))"

lemma standing_ok_patched: "standing_ok row \<Longrightarrow> standing_ok (patched patch row)"
  by (auto simp: patched_def set_opt_def patch_participants_def standing_ok_def sorted_wrt_map
      intro: sorted_wrt_filter split: option.splits)

lemma frame_fixed [simp]:
  "dr_fixed (delete_reminders run_id d) = dr_fixed d"
  "dr_fixed (delete_unsent_reminders run_id kinds d) = dr_fixed d"
  "dr_fixed (mark_reminder_sent rid message at d) = dr_fixed d"
  "dr_fixed (set_rsvp run_id user state source at d) = dr_fixed d"
  "dr_fixed (clear_rsvp run_id user d) = dr_fixed d"
  "dr_fixed (set_run_status rid status d) = dr_fixed d"
  "dr_fixed (set_run_pin rid pin d) = dr_fixed d"
  "dr_fixed (set_run_participants rid people now d) = dr_fixed d"
  "dr_fixed (set_run_bosses rid bosses d) = dr_fixed d"
  "dr_fixed (set_run_channel rid channel d) = dr_fixed d"
  "dr_fixed (note_revived rid from d) = dr_fixed d"
  by (simp_all add: draft_defs)

lemma writes_fixed:
  "set_run_datetime rid at week d = Ok d' \<Longrightarrow> dr_fixed d' = dr_fixed d"
  "set_run_fixed rid fixed d = Ok d' \<Longrightarrow> dr_fixed d' = dr_fixed d"
  "insert_run rid new d = Ok d' \<Longrightarrow> dr_fixed d' = dr_fixed d"
  by (auto dest!: set_run_datetime_cases set_run_fixed_cases insert_run_cases(2))

definition standing_in_party :: "draft \<Rightarrow> bool" where
  "standing_in_party d \<longleftrightarrow> all_rows standing_ok (dr_fixed d)"

interpretation standing: draft_invariant standing_in_party
  by unfold_locales
    (auto simp: standing_in_party_def writes_fixed insert_fixed_run_def standing_ok_def
      delete_fixed_run_def update_fixed_run_def intro!: all_rows_modify intro: standing_ok_patched)

section \<open>Attendance and pins of a run\<close>

text \<open>Attendance is recorded for a done run, once of a member on it, in user order; a pinned status is planned or confirmed
  and only held by a run in one of the answer-driven statuses.\<close>

definition attendance_ok :: "run \<Rightarrow> bool" where
  "attendance_ok run \<longleftrightarrow>
     (r_attendance run \<noteq> [] \<longrightarrow> r_status run = Done) \<and>
     sorted_wrt (<) (map ar_user_id (r_attendance run)) \<and>
     (\<forall>rec \<in> set (r_attendance run). ar_user_id rec \<in> set (r_participants run))"

definition pin_ok :: "run \<Rightarrow> bool" where
  "pin_ok run \<longleftrightarrow>
     (case r_status_pin run of
        None \<Rightarrow> True
      | Some pin \<Rightarrow> pin_status pin \<in> {Planned, Confirmed} \<and> answer_driven (r_status run))"

definition runs_ok :: "draft \<Rightarrow> bool" where
  "runs_ok d \<longleftrightarrow> all_rows (\<lambda>run. attendance_ok run \<and> pin_ok run) (dr_runs d)"

lemma run_ok_edits:
  "attendance_ok run \<Longrightarrow> attendance_ok (run_set_status st run)"
  "attendance_ok run \<Longrightarrow> attendance_ok (run_set_participants ps now run)"
  "attendance_ok run \<Longrightarrow> attendance_ok (run\<lparr>r_status_pin := pin\<rparr>)"
  "attendance_ok run \<Longrightarrow> attendance_ok (run\<lparr>r_bosses := bosses\<rparr>)"
  "attendance_ok run \<Longrightarrow> attendance_ok (run\<lparr>r_channel_id := channel\<rparr>)"
  "attendance_ok run \<Longrightarrow> attendance_ok (run\<lparr>r_fixed_run_id := fixed\<rparr>)"
  "attendance_ok run \<Longrightarrow> attendance_ok (run\<lparr>r_datetime := at, r_week_start := week\<rparr>)"
  "pin_ok run \<Longrightarrow> pin_ok (run_set_status st run)"
  "pin_ok run \<Longrightarrow> pin_ok (run_set_participants ps now run)"
  "pin_ok (run\<lparr>r_status_pin := None\<rparr>)"
  "pin_ok run \<Longrightarrow> pin_ok (run\<lparr>r_bosses := bosses\<rparr>)"
  "pin_ok run \<Longrightarrow> pin_ok (run\<lparr>r_channel_id := channel\<rparr>)"
  "pin_ok run \<Longrightarrow> pin_ok (run\<lparr>r_fixed_run_id := fixed\<rparr>)"
  "pin_ok run \<Longrightarrow> pin_ok (run\<lparr>r_datetime := at, r_week_start := week\<rparr>)"
  by (auto simp: attendance_ok_def pin_ok_def run_set_status_def run_set_participants_def
      answer_driven_def sorted_wrt_map intro: sorted_wrt_filter split: option.splits)

lemma run_ok_fresh: "attendance_ok (fresh_run rid new) \<and> pin_ok (fresh_run rid new)"
  by (simp add: attendance_ok_def pin_ok_def fresh_run_def)

interpretation runs: draft_invariant runs_ok
proof unfold_locales
  fix d rid and pin :: status_pin
  assume ok: "runs_ok d" and pin: "pin_status pin \<in> {Planned, Confirmed}"
    "\<And>run. draft_run d rid = Some run \<Longrightarrow> r_status run = pin_status pin"
  then have "attendance_ok (run\<lparr>r_status_pin := Some pin\<rparr>) \<and> pin_ok (run\<lparr>r_status_pin := Some pin\<rparr>)"
    if "t_get (dr_runs d) rid = Some run" for run
    using that by (auto simp: runs_ok_def all_rows_def pin_ok_def answer_driven_def draft_run_def
        intro: run_ok_edits)
  then show "runs_ok (set_run_pin rid (Some pin) d)"
    using ok by (auto simp: runs_ok_def all_rows_def run_methods_runs split: if_splits)
next
  fix d rid at week d'
  assume "runs_ok d" "set_run_datetime rid at week d = Ok d'"
  then show "runs_ok d'"
    by (auto simp: runs_ok_def dest!: set_run_datetime_cases intro!: all_rows_modify intro: run_ok_edits)
next
  fix d rid fixed d'
  assume "runs_ok d" "set_run_fixed rid fixed d = Ok d'"
  then show "runs_ok d'"
    by (auto simp: runs_ok_def dest!: set_run_fixed_cases intro!: all_rows_modify intro: run_ok_edits)
next
  fix d rid new d'
  assume "runs_ok d" "insert_run rid new d = Ok d'"
  then show "runs_ok d'"
    using run_ok_fresh by (auto simp: runs_ok_def dest!: insert_run_cases(2))
qed (auto simp: runs_ok_def run_methods_runs intro!: all_rows_modify intro: run_ok_edits)

section \<open>Runs are kept\<close>

text \<open>Against an earlier copy: every run is still there, and what was loaded, the attendance rules and
  the run ends are the same.\<close>

definition grown_from :: "draft \<Rightarrow> draft \<Rightarrow> bool" where
  "grown_from d0 d \<longleftrightarrow>
     (\<forall>i. t_get (dr_runs d0) i \<noteq> None \<longrightarrow> t_get (dr_runs d) i \<noteq> None) \<and>
     dr_base d = dr_base d0 \<and> dr_attendance d = dr_attendance d0 \<and> dr_ends d = dr_ends d0"

lemma grown_from_refl [simp]: "grown_from d d"
  by (simp add: grown_from_def)

interpretation grown: draft_invariant "grown_from d0" for d0
proof unfold_locales
  fix d rid fire_at now
  assume "grown_from d0 d"
  then show "grown_from d0 (snd (reschedule_unposted_reminder rid fire_at now d))"
    using reschedule_cases [of rid fire_at now d] by (auto simp: grown_from_def)
next
  fix d rid at week d'
  assume "grown_from d0 d" "set_run_datetime rid at week d = Ok d'"
  then show "grown_from d0 d'"
    by (auto simp: grown_from_def modify_run_def dest!: set_run_datetime_cases)
next
  fix d rid fixed d'
  assume "grown_from d0 d" "set_run_fixed rid fixed d = Ok d'"
  then show "grown_from d0 d'"
    by (auto simp: grown_from_def modify_run_def dest!: set_run_fixed_cases)
next
  fix d rid new d'
  assume "grown_from d0 d" "insert_run rid new d = Ok d'"
  then show "grown_from d0 d'"
    by (auto simp: grown_from_def dest!: insert_run_cases(2))
qed (auto simp: grown_from_def draft_defs Let_def)

section \<open>From snapshot to snapshot\<close>

text \<open>The copy the scheduler plans on.\<close>

definition start_draft :: "snapshot \<Rightarrow> attendance_policy \<Rightarrow> run_ends option \<Rightarrow> draft" where
  "start_draft base p e = with_run_ends e (with_attendance p (draft_new base))"

lemma start_draft_simps [simp]:
  "dr_base (start_draft base p e) = base"
  "dr_fixed (start_draft base p e) = keyed (sn_fixed_runs base) f_id"
  "dr_runs (start_draft base p e) = keyed (sn_runs base) r_id"
  "dr_reminders (start_draft base p e) = keyed (sn_reminders base) m_id"
  "dr_rsvps (start_draft base p e) = keyed (sn_rsvps base) rsvp_key"
  "dr_ends (start_draft base p e) = e"
  "dr_attendance (start_draft base p e) = p"
  by (simp_all add: start_draft_def with_run_ends_def with_attendance_def draft_new_def)

lemma keyed_ok [simp]: "t_ok (keyed rows key)"
  by (simp add: keyed_def)

lemma keyed_get: "t_get (keyed rows key) k = Some row \<Longrightarrow> row \<in> set rows \<and> key row = k"
  by (auto simp: keyed_def t_get_collect rev_map dest!: map_of_SomeD)

lemma keyed_has: "row \<in> set rows \<Longrightarrow> t_get (keyed rows key) (key row) \<noteq> None"
  by (auto simp: keyed_def t_get_collect rev_map map_of_eq_None_iff image_image)

lemma keyed_keyed [simp]: "tbl.keyed_by key (keyed rows key)"
  by (auto simp: tbl.keyed_by_def dest: keyed_get)

lemma start_keyed [simp]: "rows_keyed (start_draft base p e)"
  by (simp add: rows_keyed_def)

lemma snapshot_rows [simp]:
  "set (sn_runs (to_snapshot d)) = set (t_values (dr_runs d))"
  "set (sn_fixed_runs (to_snapshot d)) = set (t_values (dr_fixed d))"
  "set (sn_reminders (to_snapshot d)) = set (t_values (dr_reminders d))"
  "set (sn_rsvps (to_snapshot d)) = set (t_values (dr_rsvps d))"
  by (simp_all add: to_snapshot_def snapshot_sort_def)

lemma mset_snapshot_runs: "mset (sn_runs (to_snapshot d)) = mset (t_values (dr_runs d))"
  by (simp add: to_snapshot_def snapshot_sort_def)

lemma keyed_values:
  assumes "t_ok t" "tbl.keyed_by key t"
  shows "map key (t_values t) = t_keys t"
  using assms
  by (auto simp: t_values_def t_keys_def tbl.keyed_by_def t_get_iff_in [symmetric] intro!: map_cong)

lemma keyed_values_inj:
  assumes "t_ok t" "tbl.keyed_by key t" "a \<in> set (t_values t)"
  shows "t_get t (key a) = Some a"
  using assms by (auto simp: in_t_values tbl.keyed_by_def)

lemma snapshot_run_ids_distinct:
  assumes "rows_keyed d"
  shows "distinct (map r_id (sn_runs (to_snapshot d)))"
proof -
  have "distinct (map r_id (t_values (dr_runs d)))"
    using assms t_ok_distinct by (auto simp: rows_keyed_def keyed_values t_keys_def)
  moreover have "mset (map r_id (sn_runs (to_snapshot d))) = mset (map r_id (t_values (dr_runs d)))"
    by (simp add: mset_snapshot_runs)
  ultimately show ?thesis by (metis mset_eq_imp_distinct_iff)
qed

text \<open>A timing, its run of a week and one reminder of it.\<close>

definition sample_fixed :: fixed_run where
  "sample_fixed =
     \<lparr>f_id = lit ''f1'', f_owner_id = lit ''11'', f_channel_id = None, f_bosses = [lit ''HStar''],
      f_weekday = Mon, f_time = hours 12, f_participants = [lit ''11'', lit ''12''], f_note = None,
      f_attendance_default = OptIn,
      f_standing = [\<lparr>st_user_id = lit ''11'', st_set_by = lit ''user:11'', st_at = 0\<rparr>],
      f_owner_pinned = False\<rparr>"

definition sample_base :: snapshot where
  "sample_base =
     \<lparr>sn_revision = 1, sn_fixed_runs = [sample_fixed], sn_runs = [sample_run],
      sn_reminders =
        [\<lparr>m_id = lit ''m1'', m_run_id = lit ''r1'', m_kind = day_of, m_fire_at = hours 97,
          m_sent_at = None, m_message_id = None\<rparr>],
      sn_rsvps = [], sn_unproven_retired = []\<rparr>"

definition sample_ids :: id_source where
  "sample_ids = \<lparr>id_supply = (\<lambda>n. lit ''new'' @ dec n), id_drawn = 0\<rparr>"

definition sample_ops :: "(op \<times> instant) list" where
  "sample_ops =
     [(SetRsvp (lit ''r1'') (lit ''12'') Yes Slash, hours 1),
      (RecountRun (lit ''r1''), hours 2),
      (FinishRun (lit ''r1''), hours 103)]"

lemma sample_ops_run:
  obtains d' ids' where
    "apply_ops (\<lambda>s. s) sample_ops (start_draft sample_base attendance_v5 None, sample_ids) = Ok ((), d', ids')"
proof -
  have "is_ok_and (\<lambda>_. True)
      (apply_ops (\<lambda>s. s) sample_ops (start_draft sample_base attendance_v5 None, sample_ids))"
    by code_simp
  then show thesis using that by (auto simp: is_ok_and_def split: sum.splits)
qed

section \<open>Properties\<close>

text \<open>C2. Whatever operations are applied, in whatever order and at whatever times, a weekly timing never
  has two runs in one boss week and no two runs share an id, provided that held of the rows
  loaded.\<close>

theorem ops_keep_one_run_per_week:
  assumes "\<forall>a \<in> set (sn_runs base). \<forall>b \<in> set (sn_runs base).
      r_fixed_run_id a \<noteq> None \<and> r_fixed_run_id a = r_fixed_run_id b \<and> r_week_start a = r_week_start b
      \<longrightarrow> r_id a = r_id b"
    and "apply_ops lower ops (start_draft base p e, ids) = Ok ((), d', ids')"
  shows "distinct (map r_id (sn_runs (to_snapshot d'))) \<and>
    (\<forall>a \<in> set (sn_runs (to_snapshot d')). \<forall>b \<in> set (sn_runs (to_snapshot d')).
       r_fixed_run_id a \<noteq> None \<and> r_fixed_run_id a = r_fixed_run_id b \<and> r_week_start a = r_week_start b
       \<longrightarrow> a = b)"
proof -
  have "one_run_per_week (dr_runs (start_draft base p e))"
    using assms(1) unfolding one_run_per_week_def by (auto dest!: keyed_get)
  then have "weeks_ok (start_draft base p e)" by (simp add: weeks_ok_def)
  then have "weeks_ok d'" using validD [OF weeks.keeps_apply_ops assms(2)] by simp
  then have k: "rows_keyed d'" and o: "one_run_per_week (dr_runs d')" by (simp_all add: weeks_ok_def)
  have "t_get (dr_runs d') (r_id a) = Some a" if "a \<in> set (t_values (dr_runs d'))" for a
    using k that by (auto simp: rows_keyed_def intro: keyed_values_inj)
  then have "a = b" if "a \<in> set (t_values (dr_runs d'))" "b \<in> set (t_values (dr_runs d'))"
      "r_fixed_run_id a \<noteq> None" "r_fixed_run_id a = r_fixed_run_id b" "r_week_start a = r_week_start b" for a b
    using o that unfolding one_run_per_week_def by (metis option.inject)
  then show ?thesis using snapshot_run_ids_distinct [OF k] unfolding snapshot_rows by blast
qed

theorem ops_keep_one_run_per_week_witness:
  "\<exists>d' ids'. apply_ops (\<lambda>s. s) sample_ops (start_draft sample_base attendance_v5 None, sample_ids) = Ok ((), d', ids') \<and>
     distinct (map r_id (sn_runs (to_snapshot d')))"
proof -
  obtain d' ids' where run: "apply_ops (\<lambda>s. s) sample_ops (start_draft sample_base attendance_v5 None, sample_ids) = Ok ((), d', ids')"
    by (rule sample_ops_run)
  then show ?thesis
    using ops_keep_one_run_per_week [OF _ run] by (auto simp: sample_base_def)
qed

text \<open>C16. Likewise a run never has two reminders of one kind, so no ping is posted twice for want of
  the table's uniqueness, whatever ids the generator gives.\<close>

theorem ops_keep_one_reminder_per_kind:
  assumes "\<forall>a \<in> set (sn_reminders base). \<forall>b \<in> set (sn_reminders base).
      m_run_id a = m_run_id b \<and> m_kind a = m_kind b \<longrightarrow> m_id a = m_id b"
    and "apply_ops lower ops (start_draft base p e, ids) = Ok ((), d', ids')"
  shows "\<forall>a \<in> set (sn_reminders (to_snapshot d')). \<forall>b \<in> set (sn_reminders (to_snapshot d')).
    m_run_id a = m_run_id b \<and> m_kind a = m_kind b \<longrightarrow> a = b"
proof -
  have "one_reminder_per_kind (dr_reminders (start_draft base p e))"
    using assms(1) unfolding one_reminder_per_kind_def by (auto dest!: keyed_get)
  then have "kinds_ok (start_draft base p e)" by (simp add: kinds_ok_def)
  then have "kinds_ok d'" using validD [OF kinds.keeps_apply_ops assms(2)] by simp
  then have k: "rows_keyed d'" and o: "one_reminder_per_kind (dr_reminders d')" by (simp_all add: kinds_ok_def)
  have "t_get (dr_reminders d') (m_id a) = Some a" if "a \<in> set (t_values (dr_reminders d'))" for a
    using k that by (auto simp: rows_keyed_def intro: keyed_values_inj)
  then show ?thesis
    using o unfolding one_reminder_per_kind_def by (metis option.inject snapshot_rows(3))
qed

theorem ops_keep_one_reminder_per_kind_witness:
  "\<exists>d' ids'. apply_ops (\<lambda>s. s) sample_ops (start_draft sample_base attendance_v5 None, sample_ids) = Ok ((), d', ids') \<and>
     (\<forall>a \<in> set (sn_reminders (to_snapshot d')). \<forall>b \<in> set (sn_reminders (to_snapshot d')).
        m_run_id a = m_run_id b \<and> m_kind a = m_kind b \<longrightarrow> a = b)"
proof -
  obtain d' ids' where run: "apply_ops (\<lambda>s. s) sample_ops (start_draft sample_base attendance_v5 None, sample_ids) = Ok ((), d', ids')"
    by (rule sample_ops_run)
  then show ?thesis
    using ops_keep_one_reminder_per_kind [OF _ run] by (auto simp: sample_base_def)
qed

text \<open>C29. A weekly timing's standing answers always name members of its party: a party edit or delta
  drops the standing answer of everyone it takes off, and no operation adds one.\<close>

theorem ops_keep_standing_in_party:
  assumes "\<forall>f \<in> set (sn_fixed_runs base). standing_ok f"
    and "apply_ops lower ops (start_draft base p e, ids) = Ok ((), d', ids')"
  shows "\<forall>f \<in> set (sn_fixed_runs (to_snapshot d')). standing_ok f"
proof -
  have "standing_in_party (start_draft base p e)"
    using assms(1) by (auto simp: standing_in_party_def all_rows_def dest: keyed_get)
  then have "standing_in_party d'" using validD [OF standing.keeps_apply_ops assms(2)] by simp
  moreover have "t_ok (dr_fixed d')"
    using validD [OF keyed.keeps_apply_ops assms(2)] by (simp add: rows_keyed_def)
  ultimately show ?thesis by (auto simp: standing_in_party_def all_rows_def in_t_values)
qed

theorem ops_keep_standing_in_party_witness:
  "\<exists>d' ids'. apply_ops (\<lambda>s. s) sample_ops (start_draft sample_base attendance_v5 None, sample_ids) = Ok ((), d', ids') \<and>
     (\<forall>f \<in> set (sn_fixed_runs (to_snapshot d')). standing_ok f)"
proof -
  obtain d' ids' where run: "apply_ops (\<lambda>s. s) sample_ops (start_draft sample_base attendance_v5 None, sample_ids) = Ok ((), d', ids')"
    by (rule sample_ops_run)
  then show ?thesis
    using ops_keep_standing_in_party [OF _ run]
    by (auto simp: sample_base_def sample_fixed_def standing_ok_def)
qed

text \<open>C15. Recorded attendance is only ever on a done run and once of a member on it, and a status pin is planned
  or confirmed and only on a run whose status answers drive (what the store's CHECK on
  \<open>run_status_pins\<close> demands), whatever operations are applied.\<close>

theorem ops_keep_attendance_and_pins:
  assumes "\<forall>r \<in> set (sn_runs base). attendance_ok r \<and> pin_ok r"
    and "apply_ops lower ops (start_draft base p e, ids) = Ok ((), d', ids')"
  shows "\<forall>r \<in> set (sn_runs (to_snapshot d')). attendance_ok r \<and> pin_ok r"
proof -
  have "runs_ok (start_draft base p e)"
    using assms(1) by (auto simp: runs_ok_def all_rows_def dest: keyed_get)
  then have "runs_ok d'" using validD [OF runs.keeps_apply_ops assms(2)] by simp
  moreover have "t_ok (dr_runs d')"
    using validD [OF keyed.keeps_apply_ops assms(2)] by (simp add: rows_keyed_def)
  ultimately show ?thesis by (auto simp: runs_ok_def all_rows_def in_t_values)
qed

theorem ops_keep_attendance_and_pins_witness:
  "\<exists>d' ids'. apply_ops (\<lambda>s. s) sample_ops (start_draft sample_base attendance_v5 None, sample_ids) = Ok ((), d', ids') \<and>
     (\<forall>r \<in> set (sn_runs (to_snapshot d')). attendance_ok r \<and> pin_ok r)"
proof -
  obtain d' ids' where run: "apply_ops (\<lambda>s. s) sample_ops (start_draft sample_base attendance_v5 None, sample_ids) = Ok ((), d', ids')"
    by (rule sample_ops_run)
  then show ?thesis
    using ops_keep_attendance_and_pins [OF _ run]
    by (auto simp: sample_base_def sample_run_def attendance_ok_def pin_ok_def)
qed

text \<open>C30. No operation deletes a run, and none changes the snapshot the copy was loaded from, its
  revision or the rules it is planned under: every loaded run is in the result under its id.\<close>

theorem ops_keep_every_run:
  assumes "apply_ops lower ops (start_draft base p e, ids) = Ok ((), d', ids')"
  shows "r_id ` set (sn_runs base) \<subseteq> r_id ` set (sn_runs (to_snapshot d')) \<and>
    sn_revision (to_snapshot d') = sn_revision base \<and> dr_base d' = base \<and>
    dr_attendance d' = p \<and> dr_ends d' = e"
proof -
  have g: "grown_from (start_draft base p e) d'"
    using validD [OF grown.keeps_apply_ops assms] by simp
  have k: "rows_keyed d'" using validD [OF keyed.keeps_apply_ops assms] by simp
  have "r_id r \<in> r_id ` set (t_values (dr_runs d'))" if "r \<in> set (sn_runs base)" for r
  proof -
    have "t_get (dr_runs (start_draft base p e)) (r_id r) \<noteq> None"
      using keyed_has [OF that] by simp
    then obtain r' where "t_get (dr_runs d') (r_id r) = Some r'"
      using g unfolding grown_from_def by blast
    moreover from this have "r_id r' = r_id r" using k by (auto simp: rows_keyed_def tbl.keyed_by_def)
    ultimately show ?thesis using t_get_values by (metis image_eqI)
  qed
  moreover have "sn_revision (to_snapshot d') = sn_revision (dr_base d')"
    by (simp add: to_snapshot_def snapshot_sort_def)
  ultimately show ?thesis using g by (auto simp: grown_from_def)
qed

theorem ops_keep_every_run_witness:
  "\<exists>d' ids'. apply_ops (\<lambda>s. s) sample_ops (start_draft sample_base attendance_v5 None, sample_ids) = Ok ((), d', ids') \<and>
     lit ''r1'' \<in> r_id ` set (sn_runs (to_snapshot d'))"
proof -
  obtain d' ids' where run: "apply_ops (\<lambda>s. s) sample_ops (start_draft sample_base attendance_v5 None, sample_ids) = Ok ((), d', ids')"
    by (rule sample_ops_run)
  have "lit ''r1'' \<in> r_id ` set (sn_runs sample_base)" by (simp add: sample_base_def sample_run_def)
  then show ?thesis using ops_keep_every_run [OF run] run by blast
qed

end
