(* ===== verification/Locality.thy ===== *)
theory Locality
  imports Invariants
begin

text \<open>
  What an operation leaves alone. \<open>only_run\<close> relates a copy to an earlier one that differs from
  it in one run at most, \<open>run_kept\<close> to one that has a given run, its answers and its reminders
  unchanged; both keep to the contract of a property of one run (\<open>run_writes\<close>), so every planner
  on one run is local, and the planners that go over the runs of a weekly timing leave those that
  have ended as they were.
\<close>

section \<open>One run differs\<close>

lemma retain_Some_iff: "t_ok t \<Longrightarrow> t_get (t_retain p t) k = Some v \<longleftrightarrow> t_get t k = Some v \<and> p v"
  by (auto simp: t_get_retain split: option.splits)

definition only_run :: "str \<Rightarrow> draft \<Rightarrow> draft \<Rightarrow> bool" where
  "only_run rid d0 d \<longleftrightarrow>
     t_ok (dr_reminders d) \<and>
     (\<forall>k. k \<noteq> rid \<longrightarrow> t_get (dr_runs d) k = t_get (dr_runs d0) k) \<and>
     (\<forall>k user. k \<noteq> rid \<longrightarrow> t_get (dr_rsvps d) (k, user) = t_get (dr_rsvps d0) (k, user)) \<and>
     (\<forall>i m. m_run_id m \<noteq> rid \<longrightarrow> t_get (dr_reminders d) i = Some m \<longleftrightarrow> t_get (dr_reminders d0) i = Some m) \<and>
     dr_fixed d = dr_fixed d0 \<and> dr_base d = dr_base d0 \<and> dr_attendance d = dr_attendance d0 \<and>
     dr_ends d = dr_ends d0"

interpretation local: run_writes "only_run rid d0" rid for rid d0
proof unfold_locales
  fix d at week d'
  assume "only_run rid d0 d" "set_run_datetime rid at week d = Ok d'"
  then show "only_run rid d0 d'"
    by (auto simp: only_run_def modify_run_def dest!: set_run_datetime_cases)
next
  fix d fixed d'
  assume "only_run rid d0 d" "set_run_fixed rid fixed d = Ok d'"
  then show "only_run rid d0 d'"
    by (auto simp: only_run_def modify_run_def dest!: set_run_fixed_cases)
next
  fix d mid kind fire_at sent_at
  assume "only_run rid d0 d"
  then show "only_run rid d0 (snd (insert_reminder mid rid kind fire_at sent_at d))"
    by (auto simp: only_run_def insert_reminder_def Let_def t_has_def) (metis option.distinct(1))
next
  fix d kinds
  assume "only_run rid d0 d"
  then show "only_run rid d0 (delete_reminders rid d)" "only_run rid d0 (delete_unsent_reminders rid kinds d)"
    by (auto simp: only_run_def delete_reminders_def delete_unsent_reminders_def retain_Some_iff)
qed (auto simp: only_run_def draft_defs rsvp_key_def)

lemma only_run_refl [simp]: "t_ok (dr_reminders d) \<Longrightarrow> only_run rid d d"
  by (simp add: only_run_def)

section \<open>One run is kept\<close>

definition run_kept :: "str \<Rightarrow> draft \<Rightarrow> draft \<Rightarrow> bool" where
  "run_kept rid d0 d \<longleftrightarrow>
     rows_keyed d \<and> t_get (dr_runs d) rid = t_get (dr_runs d0) rid \<and>
     (\<forall>user. t_get (dr_rsvps d) (rid, user) = t_get (dr_rsvps d0) (rid, user)) \<and>
     (\<forall>i m. m_run_id m = rid \<longrightarrow> t_get (dr_reminders d) i = Some m \<longleftrightarrow> t_get (dr_reminders d0) i = Some m) \<and>
     dr_ends d = dr_ends d0 \<and> t_get (dr_revived d) rid = t_get (dr_revived d0) rid"

lemma run_kept_refl [simp]: "rows_keyed d \<Longrightarrow> run_kept rid d d"
  by (simp add: run_kept_def)

lemma run_kept_other:
  assumes "other \<noteq> rid"
  shows "run_writes (run_kept rid d0) other"
proof unfold_locales
  fix d at week d'
  assume "run_kept rid d0 d" "set_run_datetime other at week d = Ok d'"
  then show "run_kept rid d0 d'"
    using keyed.set_datetime [of d other at week d'] assms
    by (auto simp: run_kept_def modify_run_def dest!: set_run_datetime_cases)
next
  fix d fixed d'
  assume "run_kept rid d0 d" "set_run_fixed other fixed d = Ok d'"
  then show "run_kept rid d0 d'"
    using keyed.set_fixed [of d other fixed d'] assms
    by (auto simp: run_kept_def modify_run_def dest!: set_run_fixed_cases)
next
  fix d mid kind fire_at sent_at
  assume k: "run_kept rid d0 d"
  then have "rows_keyed (snd (insert_reminder mid other kind fire_at sent_at d))"
    by (intro keyed.insert_reminder) (simp add: run_kept_def)
  then show "run_kept rid d0 (snd (insert_reminder mid other kind fire_at sent_at d))"
    using k assms by (auto simp: run_kept_def insert_reminder_def Let_def t_has_def)
      (metis option.distinct(1))
next
  fix d kinds
  assume k: "run_kept rid d0 d"
  then have r: "rows_keyed d" by (simp add: run_kept_def)
  then have "t_ok (dr_reminders d)" by (simp add: rows_keyed_def)
  then show "run_kept rid d0 (delete_reminders other d)" "run_kept rid d0 (delete_unsent_reminders other kinds d)"
    using k assms keyed.delete_reminders [OF r, of other] keyed.delete_unsent [OF r, of other kinds]
    by (auto simp: run_kept_def delete_reminders_def delete_unsent_reminders_def
        retain_Some_iff)
next
  fix d status
  assume "run_kept rid d0 d"
  then show "run_kept rid d0 (set_run_status other status d)"
    using keyed.set_status [of d other status] assms by (auto simp: run_kept_def draft_defs)
next
  fix d
  assume "run_kept rid d0 d"
  then show "run_kept rid d0 (set_run_pin other None d)"
    using keyed.clear_pin [of d other] assms by (auto simp: run_kept_def draft_defs)
next
  fix d and pin :: status_pin
  assume "run_kept rid d0 d" "pin_status pin \<in> {Planned, Confirmed}"
    "\<And>run. draft_run d other = Some run \<Longrightarrow> r_status run = pin_status pin"
  then show "run_kept rid d0 (set_run_pin other (Some pin) d)"
    using keyed.set_pin [of d pin other] assms by (auto simp: run_kept_def draft_defs)
next
  fix d people now
  assume "run_kept rid d0 d"
  then show "run_kept rid d0 (set_run_participants other people now d)"
    using keyed.set_participants [of d other people now] assms by (auto simp: run_kept_def draft_defs)
next
  fix d bosses
  assume "run_kept rid d0 d"
  then show "run_kept rid d0 (set_run_bosses other bosses d)"
    using keyed.set_bosses [of d other bosses] assms by (auto simp: run_kept_def draft_defs)
next
  fix d channel
  assume "run_kept rid d0 d"
  then show "run_kept rid d0 (set_run_channel other channel d)"
    using keyed.set_channel [of d other channel] assms by (auto simp: run_kept_def draft_defs)
next
  fix d user state source at
  assume "run_kept rid d0 d"
  then show "run_kept rid d0 (set_rsvp other user state source at d)"
    using keyed.set_rsvp [of d other user state source at] assms
    by (auto simp: run_kept_def draft_defs rsvp_key_def)
next
  fix d user
  assume "run_kept rid d0 d"
  then show "run_kept rid d0 (clear_rsvp other user d)"
    using keyed.clear_rsvp [of d other user] assms by (auto simp: run_kept_def draft_defs)
next
  fix d "from"
  assume "run_kept rid d0 d"
  then show "run_kept rid d0 (note_revived other from d)"
    using keyed.note_revived [of d other "from"] assms by (auto simp: run_kept_def draft_defs)
qed

text \<open>A loop over the runs of a timing that skips a run once it has ended.\<close>

lemma ended_run_skipped:
  assumes ended: "draft_run d0 rid = Some run" "draft_ended d0 run now"
    and body: "\<And>found. r_id found \<noteq> rid \<Longrightarrow> keeps (run_kept rid d0) (m found)"
    and skipped: "\<And>found. keeps (run_kept rid d0) (n found)"
  shows "keeps (run_kept rid d0)
    (bnd (reads (\<lambda>d. run_for_fixed d fixed_id week)) (\<lambda>found.
       case found of
         None \<Rightarrow> ret x
       | Some found \<Rightarrow>
           bnd (reads (\<lambda>d. is_terminal (r_status found) \<or> draft_ended d found now)) (\<lambda>skip.
           if skip then n found else m found)))"
proof (rule valid_reads_bnd)
  fix d1 assume k: "run_kept rid d0 d1"
  show "valid (\<lambda>d. run_kept rid d0 d \<and> d = d1)
     (case run_for_fixed d1 fixed_id week of
        None \<Rightarrow> ret x
      | Some found \<Rightarrow>
          bnd (reads (\<lambda>d. is_terminal (r_status found) \<or> draft_ended d found now)) (\<lambda>skip.
          if skip then n found else m found)) (\<lambda>_. run_kept rid d0)"
  proof (cases "run_for_fixed d1 fixed_id week")
    case None
    then show ?thesis by (auto intro: valid_pre [OF keeps_ret])
  next
    case (Some found)
    have "is_terminal (r_status found) \<or> draft_ended d1 found now" if "r_id found = rid"
    proof -
      have "found \<in> set (t_values (dr_runs d1))"
        using Some by (auto simp: run_for_fixed_def dest: find_Some_in)
      then have "t_get (dr_runs d1) rid = Some found"
        using k that keyed_values_inj [of "dr_runs d1" r_id found] by (auto simp: run_kept_def rows_keyed_def)
      then have "found = run" using ended(1) k by (simp add: run_kept_def draft_run_def)
      moreover have "draft_ended d1 run now = draft_ended d0 run now" if "r_id run = rid"
      proof -
        have "dr_ends d1 = dr_ends d0" "t_get (dr_revived d1) rid = t_get (dr_revived d0) rid"
          using k unfolding run_kept_def by blast+
        then show ?thesis unfolding draft_ended_def that by (simp only:)
      qed
      ultimately show ?thesis using ended(2) that by simp
    qed
    then have "valid (\<lambda>d. run_kept rid d0 d \<and> d = d1)
        (if is_terminal (r_status found) \<or> draft_ended d1 found now then n found else m found)
        (\<lambda>_. run_kept rid d0)"
      using body skipped by (auto intro: valid_pre [of "run_kept rid d0"])
    then show ?thesis
      unfolding Some option.case by (auto simp: valid_def run_simps)
  qed
qed

section \<open>The planners on one run\<close>

text \<open>The run an operation is on, when it is on one.\<close>

fun op_run :: "op \<Rightarrow> str option" where
  "op_run (SetRunStatus rid _) = Some rid"
| "op_run (SetRsvp rid _ _ _) = Some rid"
| "op_run (ApplyReaction rid _ _ _) = Some rid"
| "op_run (EnsureReminders rid _ _) = Some rid"
| "op_run (AddReminder rid _ _ _) = Some rid"
| "op_run (SetStatus rid _ _) = Some rid"
| "op_run (AmendRun rid _ _) = Some rid"
| "op_run (RescheduleRun rid _ _) = Some rid"
| "op_run (SwapParticipants rid _ _ _ _) = Some rid"
| "op_run (ResetToFixed rid _) = Some rid"
| "op_run (SetRunBosses rid _ _) = Some rid"
| "op_run (RecountRun rid) = Some rid"
| "op_run (ReviveRun rid) = Some rid"
| "op_run (FinishRun rid) = Some rid"
| "op_run (SettleRun settle _) = Some (se_run_id settle)"
| "op_run _ = None"

context run_writes
begin

lemma keeps_op_on_run:
  assumes "op_run op = Some rid"
  shows "keeps I (apply_op lower op now)"
proof (cases op)
  case (SettleRun settle policy)
  then have "se_run_id settle = rid" using assms by simp
  then show ?thesis unfolding SettleRun apply_op.simps by (intro keeps_rules keeps_settle)
qed (use assms in \<open>auto intro!: keeps_rules run_steps\<close>)

lemma keeps_cancel: "keeps I m \<Longrightarrow>
   keeps I (seq (edit (set_run_status rid Cancelled)) (seq (refresh_run_reminders rid policy now) m))"
  by (intro keeps_rules run_steps)

lemma keeps_delta_run:
  "keeps I (seq (edit (set_run_participants rid party now))
     (seq (each (\<lambda>user. edit (clear_rsvp rid user)) users)
     (bnd (recompute_after_roster_change rid now) (\<lambda>_. ret x))))"
  by (intro keeps_rules run_steps)

end

section \<open>What one sees of a run\<close>

definition same_run :: "str \<Rightarrow> draft \<Rightarrow> draft \<Rightarrow> bool" where
  "same_run rid d d' \<longleftrightarrow>
     draft_run d' rid = draft_run d rid \<and> draft_rsvp d' rid = draft_rsvp d rid \<and>
     draft_reminders d' rid = draft_reminders d rid"

lemma t_values_retain: "t_values (t_retain p t) = filter p (t_values t)"
  by (induction t) (auto simp: t_values_def t_retain_def)

lemma same_reminders:
  assumes "t_ok (dr_reminders d)" "t_ok (dr_reminders d')"
    and "\<And>i m. m_run_id m = rid \<Longrightarrow> t_get (dr_reminders d') i = Some m \<longleftrightarrow> t_get (dr_reminders d) i = Some m"
  shows "draft_reminders d' rid = draft_reminders d rid"
proof -
  let ?p = "\<lambda>row. m_run_id row = rid"
  have "t_retain ?p (dr_reminders d') = t_retain ?p (dr_reminders d)"
  proof (rule t_ok_ext)
    fix i
    show "t_get (t_retain ?p (dr_reminders d')) i = t_get (t_retain ?p (dr_reminders d)) i"
    proof (rule option_iffI)
      fix m
      show "t_get (t_retain ?p (dr_reminders d')) i = Some m \<longleftrightarrow> t_get (t_retain ?p (dr_reminders d)) i = Some m"
        using assms(3) [of m i] by (auto simp: retain_Some_iff assms(1,2))
    qed
  qed (simp_all add: assms(1,2))
  then have "filter ?p (t_values (dr_reminders d')) = filter ?p (t_values (dr_reminders d))"
    by (metis t_values_retain)
  then show ?thesis by (simp add: draft_reminders_def)
qed

lemma only_run_same: "only_run rid d d' \<Longrightarrow> t_ok (dr_reminders d) \<Longrightarrow> other \<noteq> rid \<Longrightarrow> same_run other d d'"
  by (auto simp: only_run_def same_run_def draft_run_def draft_rsvp_def intro!: same_reminders)

lemma run_kept_same: "run_kept rid d d' \<Longrightarrow> t_ok (dr_reminders d) \<Longrightarrow> same_run rid d d'"
  by (auto simp: run_kept_def rows_keyed_def same_run_def draft_run_def draft_rsvp_def
      intro!: same_reminders)

end
