(* ===== verification/RunProperties.thy ===== *)
theory RunProperties
  imports Locality
begin

text \<open>
  Properties of the operations on runs: what they leave alone, what they refuse once a run has
  ended, and what each does to the run it is on.
\<close>

lemma reached_keyed:
  assumes "apply_ops lower ops (start_draft base p e, ids0) = Ok ((), d, ids)"
  shows "rows_keyed d" "t_ok (dr_reminders d)"
  using validD [OF keyed.keeps_apply_ops assms] by (simp_all add: rows_keyed_def)

section \<open>Locality\<close>

text \<open>C17. An operation on one run changes that run only: after whatever operations led to the copy, every
  other run keeps its row, its answers and its reminders, and no weekly timing changes.\<close>

theorem run_operations_are_local:
  assumes "apply_ops lower ops (start_draft base p e, ids0) = Ok ((), d, ids)"
    and "op_run op = Some rid" "apply_op lower op now (d, ids) = Ok (out, d', ids')"
  shows "(\<forall>other. other \<noteq> rid \<longrightarrow> same_run other d d') \<and> dr_fixed d' = dr_fixed d"
proof -
  note ok = reached_keyed(2) [OF assms(1)]
  have "only_run rid d d'"
    using validD [OF local.keeps_op_on_run [OF assms(2)] assms(3)] ok by simp
  then show ?thesis using only_run_same [OF _ ok] by (auto simp: only_run_def)
qed

theorem run_operations_are_local_witness:
  "\<exists>out d' ids'. apply_op (\<lambda>s. s) (FinishRun (lit ''r1'')) 0 (start_draft sample_base attendance_v5 None, sample_ids)
      = Ok (out, d', ids') \<and> same_run (lit ''r2'') (start_draft sample_base attendance_v5 None) d'"
proof -
  have "is_ok_and (\<lambda>_. True) (apply_op (\<lambda>s. s) (FinishRun (lit ''r1'')) 0
      (start_draft sample_base attendance_v5 None, sample_ids))"
    by code_simp
  then obtain out d' ids' where run: "apply_op (\<lambda>s. s) (FinishRun (lit ''r1'')) 0
      (start_draft sample_base attendance_v5 None, sample_ids) = Ok (out, d', ids')"
    by (auto simp only: is_ok_and_def split: sum.splits prod.splits)
  have start: "apply_ops (\<lambda>s. s) [] (start_draft sample_base attendance_v5 None, sample_ids) =
      Ok ((), start_draft sample_base attendance_v5 None, sample_ids)"
    by (simp add: run_simps)
  have "\<forall>other. other \<noteq> lit ''r1'' \<longrightarrow> same_run other (start_draft sample_base attendance_v5 None) d'"
    using run_operations_are_local [OF start _ run] by simp
  moreover have "lit ''r2'' \<noteq> lit ''r1''" by (simp add: lit_def)
  ultimately show ?thesis using run by blast
qed

section \<open>Runs that have ended\<close>


text \<open>The sample's run ends half an hour after its start.\<close>

definition ended_draft :: draft where
  "ended_draft = start_draft sample_base attendance_v5 (Some sample_ends)"

lemma ended_draft_run: "draft_run ended_draft (lit ''r1'') = Some sample_run"
    "draft_ended ended_draft sample_run (hours 103)"
  by (code_simp, code_simp)

lemma ended_draft_reached: "apply_ops lower [] (start_draft sample_base attendance_v5 (Some sample_ends), sample_ids) =
    Ok ((), ended_draft, sample_ids)"
  by (simp add: run_simps ended_draft_def)


lemma run_steps_of:
  "draft_run d rid = Some run \<Longrightarrow> bnd (get_run rid) k (d, ids) = k run (d, ids)"
  "draft_run d rid = Some run \<Longrightarrow> draft_ended d run now \<Longrightarrow> bnd (not_ended rid now) k' (d, ids) = Err (RunEnded rid)"
  "draft_run d rid = Some run \<Longrightarrow> \<not> draft_ended d run now \<Longrightarrow> bnd (not_ended rid now) k' (d, ids) = k' () (d, ids)"
  by (auto intro: run_bnd_Ok run_bnd_Err simp: run_get_run run_not_ended)

lemma not_ended_Ok_iff:
  "not_ended other now (d, ids) = Ok (u, d', ids') \<longleftrightarrow>
     refuse_ended other now d = Ok () \<and> d' = d \<and> ids' = ids"
  by (auto simp: not_ended_def run_bnd_Ok_iff run_prims run_check_Ok_iff)

lemma ended_refused:
  "draft_run d rid = Some run \<Longrightarrow> draft_ended d run now \<Longrightarrow> refuse_ended rid now d = Err (RunEnded rid)"
  by (simp add: refuse_ended_def draft_run_def)

text \<open>C35. A run that has ended is closed to ordinary edits: moving it, changing its party or bosses and
  answering for it, by command or by reaction, are refused with \<open>RunEnded\<close> and nothing else, and
  neither a swap of slots on either side nor a reset to its weekly timing can go through.\<close>

theorem ended_runs_refuse_edits:
  assumes "draft_run d rid = Some run" "draft_ended d run now"
  shows "apply_op lower (AmendRun rid to policy) now (d, ids) = Err (RunEnded rid) \<and>
    apply_op lower (SwapParticipants rid leaving add via dir) now (d, ids) = Err (RunEnded rid) \<and>
    apply_op lower (SetRunBosses rid bosses reminders) now (d, ids) = Err (RunEnded rid) \<and>
    apply_op lower (SetRsvp rid user state source) now (d, ids) = Err (RunEnded rid) \<and>
    (user \<in> set (r_participants run) \<and> state_for_emoji emoji \<noteq> None \<longrightarrow>
       apply_op lower (ApplyReaction rid user emoji added) now (d, ids) = Err (RunEnded rid)) \<and>
    (\<forall>r. apply_op lower (SwapRunSlots rid other v policy) now (d, ids) \<noteq> Ok r \<and>
       apply_op lower (SwapRunSlots other rid v policy) now (d, ids) \<noteq> Ok r \<and>
       apply_op lower (ResetToFixed rid policy) now (d, ids) \<noteq> Ok r)"
proof -
  note one = run_steps_of [OF assms(1)] and refused = run_steps_of(2) [OF assms]
  have "apply_op lower (AmendRun rid to policy) now (d, ids) = Err (RunEnded rid)"
    "apply_op lower (SwapParticipants rid leaving add via dir) now (d, ids) = Err (RunEnded rid)"
    "apply_op lower (SetRunBosses rid bosses reminders) now (d, ids) = Err (RunEnded rid)"
    "apply_op lower (SetRsvp rid user state source) now (d, ids) = Err (RunEnded rid)"
    by (auto simp: loudly_def quietly_def amend_run_def swap_participants_def op_set_run_bosses_def
        seq_def run_bnd_bnd one refused)
  moreover have "apply_op lower (ApplyReaction rid user emoji added) now (d, ids) = Err (RunEnded rid)"
    if "user \<in> set (r_participants run)" "state_for_emoji emoji \<noteq> None"
  proof -
    show ?thesis
      using that assms(1) ended_refused [OF assms]
      by (auto simp: quietly_def apply_reaction_def run_bnd_bnd run_simps require_run_def Let_def
          list_ex_iff)
  qed
  moreover have "apply_op lower (SwapRunSlots rid other v policy) now (d, ids) \<noteq> Ok r" for r
    using refused
    by (cases "draft_run d other")
      (auto simp: loudly_def swap_run_slots_def run_bnd_Ok_iff fail_def one seq_def run_not_ended [OF assms(1)] assms(2)
        get_run_Ok_iff split: if_splits)
  moreover have "apply_op lower (SwapRunSlots other rid v policy) now (d, ids) \<noteq> Ok r" for r
    by (auto simp: loudly_def swap_run_slots_def run_bnd_Ok_iff fail_def seq_def not_ended_Ok_iff
        ended_refused [OF assms] get_run_Ok_iff split: if_splits)
  moreover have "apply_op lower (ResetToFixed rid policy) now (d, ids) \<noteq> Ok r" for r
    by (auto simp: loudly_def reset_to_fixed_def run_bnd_Ok_iff run_prims one seq_def not_ended_Ok_iff
        ended_refused [OF assms] split: option.splits if_splits)
  ultimately show ?thesis by blast
qed

theorem ended_runs_refuse_edits_witness:
  "apply_op (\<lambda>s. s) (ApplyReaction (lit ''r1'') (lit ''12'') [0x2705] True) (hours 103) (ended_draft, sample_ids)
     = Err (RunEnded (lit ''r1''))"
proof -
  have "lit ''12'' \<in> set (r_participants sample_run) \<and> state_for_emoji [0x2705] \<noteq> None"
    by (simp add: sample_run_def state_for_emoji_def)
  then show ?thesis
    using ended_runs_refuse_edits [OF ended_draft_run, of "\<lambda>s. s" 0 sample_policy sample_ids] by blast
qed

end
