(* ===== verification/Iso.thy ===== *)
theory Iso
  imports Notice Weeks
begin

text \<open>
  Reading ISO text back (\<open>time/iso_parse.rs\<close> and \<open>from_iso\<close> of \<open>time/iso.rs\<close>): Python's
  \<open>datetime.fromisoformat\<close> for the forms that are stored, with its error messages. Byte offsets of
  the source are character offsets here: every slice it takes lies after characters already found
  to be ASCII, and text with others is refused either way.
\<close>

section \<open>Digits and fields\<close>

definition ascii_digit :: "nat \<Rightarrow> bool" where
  "ascii_digit c \<longleftrightarrow> 48 \<le> c \<and> c \<le> 57"

text \<open>\<open>str::parse::<u32>\<close> of ASCII digits: refused beyond 32 bits.\<close>

definition digits :: "str \<Rightarrow> nat option" where
  "digits txt =
     (if txt = [] \<or> \<not> list_all ascii_digit txt then None
      else if undec txt < 2 ^ 32 then Some (undec txt) else None)"

fun pairs :: "str \<Rightarrow> str list" where
  "pairs (a # b # cs) = [a, b] # pairs cs"
| "pairs _ = []"

definition hms_fields :: "str \<Rightarrow> (nat \<times> nat \<times> nat) option" where
  "hms_fields txt =
     (let parts =
        (if contains txt 58 then Some (split_on (\<lambda>c. c = 58) [] txt)
         else if even (length txt) \<and> list_all (\<lambda>c. c < 128) txt then Some (pairs txt)
         else None)
      in case parts of None \<Rightarrow> None
      | Some parts \<Rightarrow>
          if parts = [] \<or> 3 < length parts \<or> list_ex (\<lambda>part. length part \<noteq> 2) parts then None
          else
            (case those (map digits parts) of None \<Rightarrow> None
             | Some ns \<Rightarrow> Some (ns ! 0, if 1 < length ns then ns ! 1 else 0,
                             if 2 < length ns then ns ! 2 else 0)))"

text \<open>Hour, minute, second and microsecond, not yet range-checked.\<close>

definition clock_fields :: "str \<Rightarrow> (nat \<times> nat \<times> nat \<times> nat) option" where
  "clock_fields txt =
     (let point = (\<lambda>c. c = 46 \<or> c = 44);
          hms = takeWhile (\<lambda>c. \<not> point c) txt;
          rest = dropWhile (\<lambda>c. \<not> point c) txt
      in case hms_fields hms of None \<Rightarrow> None
      | Some (hour, minute, second) \<Rightarrow>
          (case rest of [] \<Rightarrow> Some (hour, minute, second, 0)
           | _ # fraction \<Rightarrow>
               (case digits fraction of None \<Rightarrow> None
                | Some _ \<Rightarrow>
                    let kept = take 6 fraction in
                    (case digits kept of None \<Rightarrow> None
                     | Some n \<Rightarrow> Some (hour, minute, second, n * 10 ^ (6 - length kept))))))"

definition offset_seconds :: "str \<Rightarrow> int option" where
  "offset_seconds txt =
     (if txt = lit ''Z'' then Some 0
      else
        (case txt of [] \<Rightarrow> None
         | c # hms \<Rightarrow>
             let sign = (if c = 43 then Some 1 else if c = 45 then Some (-1) else None) in
             (case (sign, hms_fields hms) of
                (Some sign, Some (h, m, s)) \<Rightarrow>
                  Some (sign * (int h * 3600 + int m * 60 + int s))
              | _ \<Rightarrow> None)))"

definition date_fields :: "str \<Rightarrow> (nat \<times> nat \<times> nat) option" where
  "date_fields txt =
     (if length txt \<noteq> 10 \<or> txt ! 4 \<noteq> 45 \<or> txt ! 7 \<noteq> 45 then None
      else
        (case (digits (take 4 txt), digits (take 2 (drop 5 txt)), digits (drop 8 txt)) of
           (Some year, Some month, Some day) \<Rightarrow> Some (year, month, day)
         | _ \<Rightarrow> None))"

section \<open>Datetimes\<close>

datatype iso_error = IsoNaive | IsoInvalid str | IsoOutOfRange str | IsoOverflow

text \<open>The \<open>Display\<close> of the error.\<close>

fun iso_error_display :: "iso_error \<Rightarrow> str" where
  "iso_error_display IsoNaive = lit ''refusing to serialise a naive datetime''"
| "iso_error_display (IsoInvalid value) = lit ''Invalid isoformat string: '' @ repr value"
| "iso_error_display (IsoOutOfRange message) = message"
| "iso_error_display IsoOverflow = lit ''date value out of range''"

text \<open>An aware value is its instant and its offset in seconds.\<close>

datatype iso_date_time = NaiveAt wall | AwareAt instant int

text \<open>\<open>NaiveDate::from_ymd_opt\<close>: the date, when the calendar has that day.\<close>

definition from_ymd :: "nat \<Rightarrow> nat \<Rightarrow> nat \<Rightarrow> date option" where
  "from_ymd y m d =
     (let date = date_of_civil (int y) (int m) (int d)
      in if civil_of_date date = (int y, int m, int d) then Some date else None)"

definition iso_date :: "nat \<Rightarrow> nat \<Rightarrow> nat \<Rightarrow> iso_error + date" where
  "iso_date year month day =
     (if year = 0 then Err (IsoOutOfRange (lit ''year '' @ dec year @ lit '' is out of range''))
      else if \<not> (1 \<le> month \<and> month \<le> 12) then Err (IsoOutOfRange (lit ''month must be in 1..12''))
      else ok_or (IsoOutOfRange (lit ''day is out of range for month'')) (from_ymd year month day))"

definition iso_time :: "nat \<Rightarrow> nat \<Rightarrow> nat \<Rightarrow> nat \<Rightarrow> iso_error + clock" where
  "iso_time hour minute second micros =
     (if hour > 23 then Err (IsoOutOfRange (lit ''hour must be in 0..'' @ dec 23))
      else if minute > 59 then Err (IsoOutOfRange (lit ''minute must be in 0..'' @ dec 59))
      else if second > 59 then Err (IsoOutOfRange (lit ''second must be in 0..'' @ dec 59))
      else if micros > 999999 then Err (IsoOutOfRange (lit ''microsecond must be in 0..999999''))
      else Ok (hours (int hour) + minutes (int minute) + seconds (int second) + int micros * 1000))"

text \<open>\<open>repr(timedelta(seconds=...))\<close>.\<close>

definition timedelta_repr :: "int \<Rightarrow> str" where
  "timedelta_repr secs =
     (let d = secs div 86400; s = secs mod 86400;
          fields = (if d \<noteq> 0 then [lit ''days='' @ int_dec d] else []) @
                   (if s \<noteq> 0 then [lit ''seconds='' @ int_dec s] else []);
          fields = (if fields = [] then [lit ''0''] else fields)
      in lit ''datetime.timedelta('' @ join (lit '', '') fields @ lit '')'')"

text \<open>\<open>FixedOffset::east_opt\<close>.\<close>

definition east_opt :: "int \<Rightarrow> iso_error + int" where
  "east_opt secs =
     (if - 86400 < secs \<and> secs < 86400 then Ok secs
      else Err (IsoOutOfRange
        (lit ''offset must be a timedelta strictly between -timedelta(hours=24) and timedelta(hours=24), not ''
         @ timedelta_repr secs @ lit ''.'')))"

text \<open>A wall clock of the years 0..9999 always has an instant under a fixed offset.\<close>

definition iso_parse :: "str \<Rightarrow> iso_error + iso_date_time" where
  "iso_parse value =
     (let invalid = IsoInvalid value in
      res_bind (ok_or invalid (date_fields (take 10 value))) (\<lambda>(year, month, day).
      res_bind
        (case drop 10 value of
           [] \<Rightarrow> Ok ((0, 0, 0, 0), None)
         | _ # rest \<Rightarrow>
             let mark = (\<lambda>c. c = 43 \<or> c = 45 \<or> c = 90);
                 clock = takeWhile (\<lambda>c. \<not> mark c) rest;
                 tail = dropWhile (\<lambda>c. \<not> mark c) rest
             in res_bind (ok_or invalid (clock_fields clock)) (\<lambda>fields.
                if tail = [] then Ok (fields, None)
                else res_bind (ok_or invalid (offset_seconds tail)) (\<lambda>offset. Ok (fields, Some offset))))
        (\<lambda>((hour, minute, second, micros), offset).
      res_bind (case offset of None \<Rightarrow> Ok None | Some secs \<Rightarrow> res_bind (east_opt secs) (\<lambda>off. Ok (Some off))) (\<lambda>offset.
      res_bind (iso_date year month day) (\<lambda>date.
      res_bind (iso_time hour minute second micros) (\<lambda>time.
      let w = and_time date time in
      Ok (case offset of None \<Rightarrow> NaiveAt w | Some off \<Rightarrow> AwareAt (w - seconds off) off)))))))"

definition iso_value_to_iso :: "iso_date_time \<Rightarrow> iso_error + str" where
  "iso_value_to_iso value =
     (case value of
        NaiveAt _ \<Rightarrow> Err IsoNaive
      | AwareAt at _ \<Rightarrow> res_map_err (\<lambda>_. IsoOverflow) (to_iso at))"

definition from_iso :: "str \<Rightarrow> iso_error + instant" where
  "from_iso value =
     res_bind (iso_parse value) (\<lambda>parsed.
     let at = (case parsed of NaiveAt w \<Rightarrow> w | AwareAt at _ \<Rightarrow> at)
     in if python_year at then Ok at else Err IsoOverflow)"

section \<open>Round trip\<close>

lemma undec_append: "undec (xs @ ys) = foldl (\<lambda>a d. 10 * a + (d - 48)) (undec xs) ys"
  by (simp add: undec_def)

lemma dec_digits: "list_all ascii_digit (dec n)" "dec n \<noteq> []"
proof -
  show "list_all ascii_digit (dec n)"
  proof (induction n rule: dec.induct)
    case (1 n)
    show ?case
    proof (cases "n < 10")
      case True
      then show ?thesis by (simp add: dec.simps [of n] ascii_digit_def)
    next
      case False
      moreover have "n mod 10 \<le> 9" by (simp add: mod_less_eq_dividend flip: less_Suc_eq_le)
      ultimately show ?thesis using 1 by (simp add: dec.simps [of n] ascii_digit_def)
    qed
  qed
  show "dec n \<noteq> []" by (simp add: dec.simps [of n])
qed

lemma length_dec: "n < 10 ^ w \<Longrightarrow> 0 < w \<Longrightarrow> length (dec n) \<le> w"
proof (induction n arbitrary: w rule: dec.induct)
  case (1 n)
  show ?case
  proof (cases "n < 10")
    case False
    then obtain w' where w: "w = Suc w'" "0 < w'" using "1.prems" by (cases w; cases "w - 1") auto
    then have "n div 10 < 10 ^ w'" using "1.prems" by (simp add: less_mult_imp_div_less mult.commute)
    then show ?thesis using 1 w False by (simp add: dec.simps [of n])
  qed (use 1 in \<open>simp add: dec.simps [of n]\<close>)
qed

lemma undec_zeros: "undec (replicate k 48 @ ds) = undec ds"
  by (induction k) (simp_all add: undec_def)

lemma dec_pad_fields:
  assumes "n < 10 ^ w" "0 < w"
  shows "length (dec_pad w n) = w" "list_all ascii_digit (dec_pad w n)" "undec (dec_pad w n) = n"
    "dec_pad w n \<noteq> []"
  using length_dec [OF assms] dec_digits [of n] assms(2)
  by (auto simp: dec_pad_def Let_def undec_zeros undec_dec list_all_iff ascii_digit_def)

lemma digits_dec_pad: "n < 10 ^ w \<Longrightarrow> 0 < w \<Longrightarrow> n < 2 ^ 32 \<Longrightarrow> digits (dec_pad w n) = Some n"
  using dec_pad_fields [of n w] by (simp add: digits_def)

lemma dec2_pad: "n < 100 \<Longrightarrow> dec2 n = dec_pad 2 n"
  using length_dec [of n 2] dec_digits(2) [of "n div 10"]
  by (cases "n < 10") (auto simp: dec2_def dec_pad_def Let_def dec.simps [of n] le_Suc_eq)

text \<open>The fields of a wall clock in the representable years.\<close>

lemma wall_fields:
  assumes "python_year w" "civil_of_date (wall_date w) = (y, m, d)"
  shows "1 \<le> y" "y \<le> 9999" "nat y < 10 ^ 4" "nat m < 100" "nat d < 100" "wall_hour w < 24" "wall_minute w < 60"
    "nat (wall_time w div 1000000000 mod 60) < 60" "nat (wall_time w mod 1000000000 div 1000) < 10 ^ 6"
    "hours (int (wall_hour w)) + minutes (int (wall_minute w)) + seconds (wall_time w div 1000000000 mod 60) +
       wall_time w mod 1000000000 div 1000 * 1000 = wall_time w div 1000 * 1000"
proof -
  show y: "1 \<le> y" "y \<le> 9999" using assms by (auto simp: python_year_def wall_year_def)
  note f = civil_of_date_fields [OF assms(2)]
  show "nat y < 10 ^ 4" "nat m < 100" "nat d < 100" using y f by auto
  define t where "t = wall_time w"
  have t: "0 \<le> t" "t < 86400000000000" unfolding t_def using is_clock_wall_time [of w] by (auto simp: is_clock_def)
  have h: "int (wall_hour w) = t div 3600000000000" "int (wall_minute w) = t div 60000000000 mod 60"
    using t by (simp_all add: wall_hour_def wall_minute_def t_def)
  have "t div 3600000000000 < 24" using t by linarith
  then show "wall_hour w < 24" using h(1) by linarith
  have "t div 60000000000 mod 60 < 60" by simp
  then show "wall_minute w < 60" using h(2) by linarith
  show "nat (wall_time w div 1000000000 mod 60) < 60" by (simp add: nat_less_iff)
  have "t mod 1000000000 div 1000 < 1000000" by linarith
  then show "nat (wall_time w mod 1000000000 div 1000) < 10 ^ 6" by (simp add: t_def nat_less_iff)
  define a where "a = t div 1000"
  have "t div (1000 * 1000000) = a div 1000000" "t div (1000 * 60000000) = a div 60000000"
    "t div (1000 * 3600000000) = a div 3600000000"
    "t mod (1000 * 1000000) = 1000 * (a mod 1000000) + t mod 1000"
    unfolding a_def by (rule zdiv_zmult2_eq zmod_zmult2_eq; simp)+
  moreover have "a div (1000000 * 60) = a div 1000000 div 60" "a div (1000000 * 3600) = a div 1000000 div 3600"
    "a div 1000000 div (60 * 60) = a div 1000000 div 60 div 60"
    by (rule zdiv_zmult2_eq; simp)+
  ultimately have units: "t div 1000000000 = a div 1000000" "t div 60000000000 = a div 1000000 div 60"
    "t div 3600000000000 = a div 1000000 div 60 div 60" "t mod 1000000000 = 1000 * (a mod 1000000) + t mod 1000"
    by (simp_all only: mult_numeral_left mult_numeral_left_semiring_numeral arith_simps mult_1_right mult_1_left)
  have micros: "t mod 1000000000 div 1000 = a mod 1000000"
    using units(4) by (rule int_div_pos_eq) simp_all
  have "t div 3600000000000 * 3600000000000 + t div 60000000000 mod 60 * 60000000000 +
      t div 1000000000 mod 60 * 1000000000 + t mod 1000000000 div 1000 * 1000 = t div 1000 * 1000"
  proof -
    define s1 m1 h1 ra rs rm where "s1 = a div 1000000" and "m1 = s1 div 60" and "h1 = m1 div 60"
      and "ra = a mod 1000000" and "rs = s1 mod 60" and "rm = m1 mod 60"
    then have "s1 * 1000000 + ra = a" "m1 * 60 + rs = s1" "h1 * 60 + rm = m1" by simp_all
    then have "h1 * 3600000000000 + rm * 60000000000 + rs * 1000000000 + ra * 1000 = a * 1000" by linarith
    then show ?thesis
      unfolding units(1-3) micros a_def [symmetric] s1_def m1_def h1_def ra_def rs_def rm_def .
  qed
  then show "hours (int (wall_hour w)) + minutes (int (wall_minute w)) + seconds (wall_time w div 1000000000 mod 60) +
       wall_time w mod 1000000000 div 1000 * 1000 = wall_time w div 1000 * 1000"
    unfolding delta_defs h t_def [symmetric] .
qed

lemma those_map_Some: "(\<And>x. x \<in> set xs \<Longrightarrow> f x = Some (g x)) \<Longrightarrow> those (map f xs) = Some (map g xs)"
  by (induction xs) auto

lemma takeWhile_all: "list_all p xs \<Longrightarrow> takeWhile p xs = xs" "list_all p xs \<Longrightarrow> dropWhile p xs = []"
  by (simp_all add: list_all_iff)

lemma split_on_none: "list_all (\<lambda>c. \<not> p c) xs \<Longrightarrow> split_on p acc (xs @ ys) = split_on p (rev xs @ acc) ys"
  by (induction xs arbitrary: acc) auto

lemma split_on_parts:
  assumes "list_all (\<lambda>c. \<not> p c) a"
  shows "split_on p [] a = [a]" "p sep \<Longrightarrow> split_on p [] (a @ sep # rest) = a # split_on p [] rest"
  using split_on_none [OF assms, of "[]" "[]"] split_on_none [OF assms, of "[]" "sep # rest"] by simp_all

lemma hms_fields_colons:
  assumes "length a = 2" "length b = 2" "length c = 2"
    and "digits a = Some h" "digits b = Some m" "digits c = Some s"
  shows "hms_fields (a @ 58 # b @ 58 # c) = Some (h, m, s)" "hms_fields (a @ 58 # b) = Some (h, m, 0)"
proof -
  have no_colon: "list_all (\<lambda>ch. ch \<noteq> 58) u" if "digits u = Some n" for u n
    using that by (auto simp: digits_def list_all_iff ascii_digit_def split: if_splits)
  note plain = no_colon [OF assms(4)] no_colon [OF assms(5)] no_colon [OF assms(6)]
  have "split_on (\<lambda>ch. ch = 58) [] (a @ 58 # b @ 58 # c) = [a, b, c]"
    "split_on (\<lambda>ch. ch = 58) [] (a @ 58 # b) = [a, b]"
    using plain by (simp_all add: split_on_parts)
  then show "hms_fields (a @ 58 # b @ 58 # c) = Some (h, m, s)" "hms_fields (a @ 58 # b) = Some (h, m, 0)"
    using assms by (simp_all add: hms_fields_def)
qed

lemma span_mark:
  "list_all (\<lambda>c. \<not> p c) xs \<Longrightarrow> p c \<Longrightarrow> takeWhile (\<lambda>c. \<not> p c) (xs @ c # ys) = xs"
  "list_all (\<lambda>c. \<not> p c) xs \<Longrightarrow> p c \<Longrightarrow> dropWhile (\<lambda>c. \<not> p c) (xs @ c # ys) = c # ys"
  by (simp_all add: takeWhile_append2 dropWhile_append2 list_all_iff)

lemma list_all_digits: "list_all ascii_digit xs \<Longrightarrow> (\<And>c. ascii_digit c \<Longrightarrow> p c) \<Longrightarrow> list_all p xs"
  by (simp add: list_all_iff)

lemma clock_fields_text:
  assumes "hms_fields u = Some (h, m, s)" "list_all (\<lambda>ch. ch \<noteq> 46 \<and> ch \<noteq> 44) u" "us < 10 ^ 6"
  shows "clock_fields (u @ (if us \<noteq> 0 then 46 # dec_pad 6 us else [])) = Some (h, m, s, us)"
proof (cases "us = 0")
  case True
  then show ?thesis
    unfolding clock_fields_def Let_def de_Morgan_disj
    by (simp only: takeWhile_all [OF assms(2)] assms(1) if_False append_Nil2 simp_thms option.case prod.case list.case)
next
  case False
  have "digits (dec_pad 6 us) = Some us" "length (dec_pad 6 us) = 6"
    using assms(3) dec_pad_fields(1) [of us 6] by (simp_all add: digits_dec_pad)
  then show ?thesis
    using False assms(1) span_mark [of "\<lambda>ch. ch = 46 \<or> ch = 44" u 46 "dec_pad 6 us"] assms(2)
    by (simp add: clock_fields_def)
qed

lemma date_fields_text:
  assumes "length a = 4" "length b = 2" "length c = 2"
    and "digits a = Some y" "digits b = Some m" "digits c = Some d"
  shows "date_fields (a @ 45 # b @ 45 # c) = Some (y, m, d)"
  using assms by (simp add: date_fields_def nth_append)

lemma offset_zero: "offset_seconds (43 # lit ''00:00'') = Some 0"
  by (simp add: offset_seconds_def hms_fields_def digits_def undec_def ascii_digit_def lit_def)

lemma format_iso_text:
  assumes "python_year w" "civil_of_date (wall_date w) = (y, m, d)"
  shows "format_iso w (Some 0) =
    (dec_pad 4 (nat y) @ 45 # dec_pad 2 (nat m) @ 45 # dec_pad 2 (nat d)) @ 84 #
    (dec_pad 2 (wall_hour w) @ 58 # dec_pad 2 (wall_minute w) @ 58 #
     dec_pad 2 (nat (wall_time w div 1000000000 mod 60)) @
     (if nat (wall_time w mod 1000000000 div 1000) \<noteq> 0
      then 46 # dec_pad 6 (nat (wall_time w mod 1000000000 div 1000)) else [])) @ 43 # lit ''00:00''"
proof -
  note f = wall_fields [OF assms]
  have lits: "lit ''-'' = [45]" "lit ''T'' = [84]" "lit '':'' = [58]" "lit ''.'' = [46]"
    by (simp_all add: lit_def)
  have "iso_offset 0 = 43 # lit ''00:00''"
    by (simp add: iso_offset_def dec2_def dec.simps [of 0] lit_def)
  moreover have "dec2 (wall_hour w) = dec_pad 2 (wall_hour w)" "dec2 (wall_minute w) = dec_pad 2 (wall_minute w)"
    "dec2 (nat (wall_time w div 1000000000 mod 60)) = dec_pad 2 (nat (wall_time w div 1000000000 mod 60))"
    using f(6-8) by (simp_all only: dec2_pad less_trans [of _ _ 100])
  ultimately show ?thesis
    unfolding format_iso_def assms(2) Let_def prod.case option.case lits
    by (simp only: dec2_pad [OF f(4)] dec2_pad [OF f(5)] append.simps append_assoc)
qed

text \<open>Formatting an instant and parsing the text gives the instant back, in microseconds.\<close>

lemma from_iso_to_iso:
  assumes "to_iso at = Ok s"
  shows "from_iso s = Ok (at div 1000 * 1000)"
proof -
  have year: "python_year at" and shown: "s = format_iso at (Some 0)"
    using assms by (auto simp: to_iso_def split: if_splits)
  obtain y m d where civil: "civil_of_date (wall_date at) = (y, m, d)" by (metis prod_cases3)
  note f = wall_fields [OF year civil] and c = civil_of_date_fields [OF civil]
  define hms where "hms = dec_pad 2 (wall_hour at) @ 58 # dec_pad 2 (wall_minute at) @ 58 #
     dec_pad 2 (nat (wall_time at div 1000000000 mod 60))"
  define us where "us = nat (wall_time at mod 1000000000 div 1000)"
  define clock where "clock = hms @ (if us \<noteq> 0 then 46 # dec_pad 6 us else [])"
  define day where "day = dec_pad 4 (nat y) @ 45 # dec_pad 2 (nat m) @ 45 # dec_pad 2 (nat d)"
  have s: "s = day @ 84 # clock @ 43 # lit ''00:00''"
    unfolding shown format_iso_text [OF year civil] day_def clock_def hms_def us_def by simp
  have clock: "list_all ascii_digit (dec_pad 2 n)" "digits (dec_pad 2 n) = Some n" "length (dec_pad 2 n) = 2"
    if "n < 60 \<or> n < 24 \<or> n < 100" for n
    using that dec_pad_fields [of n 2] by (auto simp: digits_dec_pad)
  have hms: "hms_fields hms = Some (wall_hour at, wall_minute at, nat (wall_time at div 1000000000 mod 60))"
    unfolding hms_def using f(6-8) clock by (intro hms_fields_colons(1)) simp_all
  have plain: "list_all (\<lambda>c. c = 58 \<or> ascii_digit c) hms"
    unfolding hms_def using list_all_digits [OF clock(1), of _ "\<lambda>c. c = 58 \<or> ascii_digit c"] f(6-8) by simp
  have time: "clock_fields clock = Some (wall_hour at, wall_minute at, nat (wall_time at div 1000000000 mod 60), us)"
    unfolding clock_def
  proof (rule clock_fields_text [OF hms])
    show "list_all (\<lambda>ch. ch \<noteq> 46 \<and> ch \<noteq> 44) hms"
      using plain by (auto simp: list_all_iff ascii_digit_def)
  qed (use f(9) in \<open>simp add: us_def\<close>)
  have marks: "list_all (\<lambda>c. \<not> (c = 43 \<or> c = 45 \<or> c = 90)) clock"
    using plain dec_pad_fields(2) [of us 6] f(9)
    by (auto simp: clock_def list_all_iff ascii_digit_def us_def)
  have date: "date_fields day = Some (nat y, nat m, nat d)" "length day = 10"
    unfolding day_def using f(3-5) dec_pad_fields(1) [of _ 4]
    by (auto intro!: date_fields_text simp: digits_dec_pad dec_pad_fields)
  have ymd: "iso_date (nat y) (nat m) (nat d) = Ok (wall_date at)"
  proof -
    have "nat y \<noteq> 0" "1 \<le> nat m" "nat m \<le> 12" "int (nat y) = y" "int (nat m) = m" "int (nat d) = d"
      using f(1) c by linarith+
    then show ?thesis using c(5) civil by (simp add: iso_date_def from_ymd_def)
  qed
  have "hours (int (wall_hour at)) + minutes (int (wall_minute at)) + seconds (wall_time at div 1000000000 mod 60) +
      int us * 1000 = wall_time at div 1000 * 1000"
    using f(10) by (simp add: us_def pos_imp_zdiv_nonneg_iff)
  then have hms_clock: "iso_time (wall_hour at) (wall_minute at) (nat (wall_time at div 1000000000 mod 60)) us =
      Ok (wall_time at div 1000 * 1000)"
    using f(6-9) by (simp add: iso_time_def us_def)
  have at: "at = wall_date at * 86400000000000 + wall_time at"
    using and_time_wall [of at] by (simp add: and_time_def)
  have kept: "is_clock (wall_time at div 1000 * 1000)"
  proof -
    have "wall_time at div 1000 * 1000 + wall_time at mod 1000 = wall_time at" by simp
    moreover have "0 \<le> wall_time at mod 1000" "wall_time at div 1000 * 1000 \<ge> 0"
      using is_clock_wall_time [of at] by (simp_all add: is_clock_def pos_imp_zdiv_nonneg_iff)
    ultimately show ?thesis using is_clock_wall_time [of at] unfolding is_clock_def by linarith
  qed
  have whole: "and_time (wall_date at) (wall_time at div 1000 * 1000) = at div 1000 * 1000"
  proof -
    have "(wall_time at + 1000 * (wall_date at * 86400000000)) div 1000 = wall_date at * 86400000000 + wall_time at div 1000"
      by simp
    moreover have "wall_time at + 1000 * (wall_date at * 86400000000) = at" using at by simp
    ultimately show ?thesis by (simp add: and_time_def)
  qed
  have "python_year (at div 1000 * 1000)"
    using year unfolding python_year_def wall_year_def whole [symmetric] wall_date_and_time [OF kept] .
  then show ?thesis
    unfolding from_iso_def iso_parse_def s
    using date time span_mark [OF marks, of 43 "lit ''00:00''"] ymd hms_clock whole
    by (simp add: Let_def offset_zero east_opt_def seconds_def)
qed

lemma iso_time_whole: "iso_time h m s us = Ok t \<Longrightarrow> is_clock t \<and> t mod 1000 = 0"
proof -
  assume "iso_time h m s us = Ok t"
  then have "h \<le> 23 \<and> m \<le> 59 \<and> s \<le> 59 \<and> us \<le> 999999"
    and t: "t = hours (int h) + minutes (int m) + seconds (int s) + int us * 1000"
    by (auto simp: iso_time_def split: if_splits)
  then have "int h \<le> 23 \<and> int m \<le> 59 \<and> int s \<le> 59 \<and> int us \<le> 999999" by linarith
  then have "is_clock t" unfolding t is_clock_def delta_defs by linarith
  moreover have "t = 1000 * (3600000000 * int h + 60000000 * int m + 1000000 * int s + int us)"
    by (simp add: t delta_defs)
  ultimately show ?thesis by simp
qed

lemma from_iso_whole:
  assumes "from_iso v = Ok at"
  shows "python_year at" "at mod 1000 = 0"
proof -
  obtain parsed where parsed: "iso_parse v = Ok parsed" "at = (case parsed of NaiveAt w \<Rightarrow> w | AwareAt at _ \<Rightarrow> at)"
    and year: "python_year at"
    using assms by (auto simp: from_iso_def Let_def res_bind_Ok_iff split: if_splits)
  show "python_year at" by (rule year)
  obtain date time off h m s us where time: "iso_time h m s us = Ok time"
    and at: "at = and_time date time - seconds off \<or> at = and_time date time"
    using parsed by (auto simp: iso_parse_def Let_def res_bind_Ok_iff split: option.splits) blast+
  have "at = and_time date time - seconds off \<Longrightarrow> at = 1000 * (date * 86400000000 - off * 1000000) + time"
    "at = and_time date time \<Longrightarrow> at = 1000 * (date * 86400000000) + time"
    by (simp_all add: and_time_def seconds_def algebra_simps)
  then show "at mod 1000 = 0" using at iso_time_whole [OF time] by (metis add.commute mod_mult_self2)
qed



text \<open>Fractions are read as one 32-bit number before the digits past microseconds are dropped, so a
  fraction of ten digits can be refused.\<close>

lemma long_fraction_refused:
  "from_iso (lit ''2026-09-09T12:00:00.4294967296Z'') = Err (IsoInvalid (lit ''2026-09-09T12:00:00.4294967296Z''))"
  "iso_parse (lit ''2026-09-09T12:00:00.4294967295Z'') =
     Ok (AwareAt (and_time (date_of_civil 2026 9 9) (hours 12 + 429496000)) 0)"
proof -
  have day: "iso_date 2026 9 9 = Ok (date_of_civil 2026 9 9)"
  proof -
    have "civil_of_date (date_of_civil 2026 9 9) = (2026, 9, 9)" by code_simp
    then show ?thesis by (simp add: iso_date_def from_ymd_def)
  qed
  have txt6: "lit ''2026-09-09T12:00:00.4294967296Z'' = [50, 48, 50, 54, 45, 48, 57, 45, 48, 57, 84, 49, 50, 58, 48, 48, 58, 48, 48, 46, 52, 50, 57, 52, 57, 54, 55, 50, 57, 54, 90]"
    and txt5: "lit ''2026-09-09T12:00:00.4294967295Z'' = [50, 48, 50, 54, 45, 48, 57, 45, 48, 57, 84, 49, 50, 58, 48, 48, 58, 48, 48, 46, 52, 50, 57, 52, 57, 54, 55, 50, 57, 53, 90]"
    by (simp_all add: lit_def)
  note reads = iso_parse_def date_fields_def digits_def ascii_digit_def undec_def clock_fields_def
    hms_fields_def offset_seconds_def
  show "from_iso (lit ''2026-09-09T12:00:00.4294967296Z'') = Err (IsoInvalid (lit ''2026-09-09T12:00:00.4294967296Z''))"
    unfolding txt6 by (simp add: from_iso_def reads)
  show "iso_parse (lit ''2026-09-09T12:00:00.4294967295Z'') =
     Ok (AwareAt (and_time (date_of_civil 2026 9 9) (hours 12 + 429496000)) 0)"
    unfolding txt5 by (simp add: reads day iso_time_def hours_def east_opt_def lit_def minutes_def seconds_def)
qed

end
