(* ===== verification/Json.thy ===== *)
theory Json
  imports Iso Tables
begin

text \<open>
  JSON values as \<open>serde_json\<close> holds them, the field readers of \<open>history/record.rs\<close>, and the two
  library functions the history rests on: the JSON writer and reader, and SHA-256. Both libraries
  are parameters (\<open>codec\<close>); what is relied on is that the reader reads what the writer wrote.
\<close>

section \<open>Values\<close>

text \<open>Objects are \<open>BTreeMap\<close>s, so their keys are in order; numbers are the unsigned integers that
  occur.\<close>

datatype json =
    JNull
  | JBool bool
  | JNum nat
  | JStr str
  | JArr "json list"
  | JObj "(str \<times> json) list"

text \<open>\<open>json!({...})\<close>.\<close>

definition json_object :: "(str \<times> json) list \<Rightarrow> json" where
  "json_object kvs = JObj (t_collect kvs)"

text \<open>\<open>map.insert\<close> when the value is an object.\<close>

fun json_insert :: "str \<Rightarrow> json \<Rightarrow> json \<Rightarrow> json" where
  "json_insert k v (JObj t) = JObj (t_insert k v t)"
| "json_insert k v j = j"

fun json_get :: "json \<Rightarrow> str \<Rightarrow> json option" where
  "json_get (JObj t) k = t_get t k"
| "json_get _ k = None"

fun as_str :: "json \<Rightarrow> str option" where
  "as_str (JStr s) = Some s"
| "as_str _ = None"

fun as_array :: "json \<Rightarrow> json list option" where
  "as_array (JArr items) = Some items"
| "as_array _ = None"

fun as_u64 :: "json \<Rightarrow> nat option" where
  "as_u64 (JNum n) = Some n"
| "as_u64 _ = None"

fun as_bool :: "json \<Rightarrow> bool option" where
  "as_bool (JBool b) = Some b"
| "as_bool _ = None"

definition json_opt :: "str option \<Rightarrow> json" where
  "json_opt s = (case s of None \<Rightarrow> JNull | Some s \<Rightarrow> JStr s)"

text \<open>The values \<open>serde_json\<close> can hold: ordered objects, 64-bit numbers.\<close>

fun json_ok :: "json \<Rightarrow> bool" where
  "json_ok JNull = True"
| "json_ok (JBool b) = True"
| "json_ok (JNum n) \<longleftrightarrow> n < 2 ^ 64"
| "json_ok (JStr s) = True"
| "json_ok (JArr items) \<longleftrightarrow> list_all json_ok items"
| "json_ok (JObj kvs) \<longleftrightarrow> t_ok kvs \<and> list_all (\<lambda>field. json_ok (snd field)) kvs"

section \<open>Reading fields\<close>

text \<open>\<open>RecordError\<close> without its text.\<close>

datatype record_error = BadRecord

text \<open>\<open>map\<close> and \<open>collect::<Result<Vec<_>, _>>\<close>.\<close>

fun res_list :: "('a \<Rightarrow> 'e + 'b) \<Rightarrow> 'a list \<Rightarrow> 'e + 'b list" where
  "res_list f [] = Ok []"
| "res_list f (x # xs) = res_bind (f x) (\<lambda>y. res_bind (res_list f xs) (\<lambda>ys. Ok (y # ys)))"

text \<open>\<open>map\<close> and \<open>transpose\<close> of an optional value.\<close>

definition res_opt :: "('a \<Rightarrow> 'e + 'b) \<Rightarrow> 'a option \<Rightarrow> 'e + 'b option" where
  "res_opt f x = (case x of None \<Rightarrow> Ok None | Some a \<Rightarrow> res_bind (f a) (\<lambda>b. Ok (Some b)))"

definition text_field :: "json \<Rightarrow> str \<Rightarrow> record_error + str" where
  "text_field value field = ok_or BadRecord (Option.bind (json_get value field) as_str)"

definition optional_text :: "json \<Rightarrow> str \<Rightarrow> record_error + str option" where
  "optional_text value field =
     (case json_get value field of
        None \<Rightarrow> Ok None
      | Some JNull \<Rightarrow> Ok None
      | Some (JStr s) \<Rightarrow> Ok (Some s)
      | Some _ \<Rightarrow> Err BadRecord)"

definition texts_field :: "json \<Rightarrow> str \<Rightarrow> record_error + str list" where
  "texts_field value field =
     res_bind (ok_or BadRecord (Option.bind (json_get value field) as_array))
       (res_list (\<lambda>item. ok_or BadRecord (as_str item)))"

definition read_iso :: "str \<Rightarrow> record_error + instant" where
  "read_iso s = res_map_err (\<lambda>_. BadRecord) (from_iso s)"

definition write_iso :: "instant \<Rightarrow> record_error + str" where
  "write_iso at = res_map_err (\<lambda>_. BadRecord) (to_iso at)"

definition instant_field :: "json \<Rightarrow> str \<Rightarrow> record_error + instant" where
  "instant_field value field = res_bind (text_field value field) read_iso"

definition optional_instant_field :: "json \<Rightarrow> str \<Rightarrow> record_error + instant option" where
  "optional_instant_field value field = res_bind (optional_text value field) (res_opt read_iso)"

definition unsigned_field :: "json \<Rightarrow> str \<Rightarrow> record_error + nat" where
  "unsigned_field value field = ok_or BadRecord (Option.bind (json_get value field) as_u64)"

text \<open>\<open>str::parse::<u32>\<close>, which allows a leading plus sign.\<close>

definition u32_parse :: "str \<Rightarrow> nat option" where
  "u32_parse s = (case s of c # ds \<Rightarrow> if c = 43 then digits ds else digits s | [] \<Rightarrow> None)"

section \<open>The libraries\<close>

record codec =
  cd_write :: "json \<Rightarrow> str"
  cd_read :: "str \<Rightarrow> json option"
  cd_sha256 :: "str \<Rightarrow> nat list"

definition sha256_hex :: "codec \<Rightarrow> str \<Rightarrow> str" where
  "sha256_hex cd s = concat (map (hex_fixed 2) (cd_sha256 cd s))"

definition codec_ok :: "codec \<Rightarrow> bool" where
  "codec_ok cd \<longleftrightarrow> (\<forall>v. json_ok v \<longrightarrow> cd_read cd (cd_write cd v) = Some v)"

lemma codec_inject: "codec_ok cd \<Longrightarrow> json_ok a \<Longrightarrow> json_ok b \<Longrightarrow> cd_write cd a = cd_write cd b \<Longrightarrow> a = b"
  unfolding codec_ok_def by (metis option.inject)

text \<open>A codec that keeps the law, to show that it can be kept: values in prefix form.\<close>

fun plain_write :: "json \<Rightarrow> str" where
  "plain_write JNull = [0]"
| "plain_write (JBool b) = [1, if b then 1 else 0]"
| "plain_write (JNum n) = [2, n]"
| "plain_write (JStr s) = 3 # length s # s"
| "plain_write (JArr items) = 4 # length items # concat (map plain_write items)"
| "plain_write (JObj kvs) =
     5 # length kvs # concat (map (\<lambda>field. length (fst field) # fst field @ plain_write (snd field)) kvs)"

text \<open>The first argument bounds the depth of the calls.\<close>

fun plain_read :: "nat \<Rightarrow> str \<Rightarrow> (json \<times> str) option"
  and plain_items :: "nat \<Rightarrow> nat \<Rightarrow> str \<Rightarrow> (json list \<times> str) option"
  and plain_fields :: "nat \<Rightarrow> nat \<Rightarrow> str \<Rightarrow> ((str \<times> json) list \<times> str) option" where
  "plain_read 0 s = None"
| "plain_read (Suc d) s =
     (case s of
        [] \<Rightarrow> None
      | c # s \<Rightarrow>
          if c = 0 then Some (JNull, s)
          else
            (case s of
               [] \<Rightarrow> None
             | n # s \<Rightarrow>
                 if c = 1 then Some (JBool (n = 1), s)
                 else if c = 2 then Some (JNum n, s)
                 else if c = 3 then Some (JStr (take n s), drop n s)
                 else if c = 4 then map_option (apfst JArr) (plain_items d n s)
                 else map_option (apfst JObj) (plain_fields d n s)))"
| "plain_items d 0 s = Some ([], s)"
| "plain_items 0 (Suc n) s = None"
| "plain_items (Suc d) (Suc n) s =
     (case plain_read d s of None \<Rightarrow> None
      | Some (v, s) \<Rightarrow> map_option (apfst ((#) v)) (plain_items d n s))"
| "plain_fields d 0 s = Some ([], s)"
| "plain_fields 0 (Suc n) s = None"
| "plain_fields (Suc d) (Suc n) s =
     (case s of [] \<Rightarrow> None
      | k # s \<Rightarrow>
          (case plain_read d (drop k s) of None \<Rightarrow> None
           | Some (v, rest) \<Rightarrow> map_option (apfst ((#) (take k s, v))) (plain_fields d n rest)))"

fun json_depth :: "json \<Rightarrow> nat" where
  "json_depth (JArr items) = Suc (length items + sum_list (map json_depth items))"
| "json_depth (JObj kvs) = Suc (length kvs + sum_list (map (\<lambda>field. json_depth (snd field)) kvs))"
| "json_depth _ = 1"

lemma plain_items_read:
  assumes "\<And>v r d. v \<in> set vs \<Longrightarrow> json_depth v \<le> d \<Longrightarrow> plain_read d (plain_write v @ r) = Some (v, r)"
    and "length vs + sum_list (map json_depth vs) \<le> d"
  shows "plain_items d (length vs) (concat (map plain_write vs) @ r) = Some (vs, r)"
  using assms
proof (induction vs arbitrary: d)
  case (Cons v vs)
  then show ?case by (cases d) auto
qed simp

lemma plain_fields_read:
  assumes "\<And>f r d. f \<in> set kvs \<Longrightarrow> json_depth (snd f) \<le> d \<Longrightarrow>
      plain_read d (plain_write (snd f) @ r) = Some (snd f, r)"
    and "length kvs + sum_list (map (\<lambda>f. json_depth (snd f)) kvs) \<le> d"
  shows "plain_fields d (length kvs)
    (concat (map (\<lambda>f. length (fst f) # fst f @ plain_write (snd f)) kvs) @ r) = Some (kvs, r)"
  using assms
proof (induction kvs arbitrary: d)
  case (Cons f kvs)
  then show ?case by (cases d) auto
qed simp

lemma plain_read_write: "json_depth v \<le> d \<Longrightarrow> plain_read d (plain_write v @ r) = Some (v, r)"
proof (induction v arbitrary: d r rule: json_depth.induct)
  case (1 items)
  then obtain d' where "d = Suc d'" "length items + sum_list (map json_depth items) \<le> d'" by (cases d) auto
  then show ?case using plain_items_read [of items d' r] 1 by simp
next
  case (2 kvs)
  then obtain d' where "d = Suc d'" "length kvs + sum_list (map (\<lambda>f. json_depth (snd f)) kvs) \<le> d'"
    by (cases d) auto
  then show ?case using plain_fields_read [of kvs d' r] 2 by (simp add: Suc_leI)
qed (case_tac d; simp)+

definition plain_codec :: codec where
  "plain_codec =
     \<lparr>cd_write = \<lambda>v. json_depth v # plain_write v,
      cd_read = \<lambda>s. (case s of [] \<Rightarrow> None | d # s \<Rightarrow> map_option fst (plain_read d s)),
      cd_sha256 = \<lambda>s. s\<rparr>"

lemma codec_ok_plain: "codec_ok plain_codec"
  using plain_read_write [of _ _ "[]"] by (simp add: codec_ok_def plain_codec_def)

section \<open>Facts\<close>

lemma lit_inject [simp]: "lit a = lit b \<longleftrightarrow> a = b"
proof
  assume eq: "lit a = lit b"
  have "inj (of_char :: char \<Rightarrow> nat)" by (simp add: inj_on_def)
  then show "a = b" using eq unfolding lit_def by (metis inj_map_eq_map)
qed simp

named_theorems json_simps "reading the fields of an object"

lemma json_get_object [json_simps]: "json_get (json_object kvs) k = map_of (rev kvs) k"
  by (simp add: json_object_def t_get_collect)

lemma json_insert_object [json_simps]: "json_insert k v (json_object kvs) = json_object (kvs @ [(k, v)])"
  by (simp add: json_object_def t_collect_def)

lemma res_list_Ok: "(\<And>x. x \<in> set xs \<Longrightarrow> f x = Ok (g x)) \<Longrightarrow> res_list f xs = Ok (map g xs)"
  by (induction xs) auto

lemma res_list_inverse:
  "res_list f xs = Ok ys \<Longrightarrow> (\<And>x y. x \<in> set xs \<Longrightarrow> f x = Ok y \<Longrightarrow> g y = Ok x) \<Longrightarrow> res_list g ys = Ok xs"
  by (induction xs arbitrary: ys) (auto simp: res_bind_Ok_iff)

lemma res_list_all: "res_list f xs = Ok ys \<Longrightarrow> (\<And>x y. x \<in> set xs \<Longrightarrow> f x = Ok y \<Longrightarrow> p y) \<Longrightarrow> list_all p ys"
proof (induction xs arbitrary: ys)
  case (Cons x xs)
  then show ?case by (simp add: res_bind_Ok_iff) (metis Cons.prems(2) list.pred_inject(2) list.set_intros)
qed simp

lemma json_ok_object: "list_all (\<lambda>f. json_ok (snd f)) kvs \<Longrightarrow> json_ok (json_object kvs)"
proof -
  assume "list_all (\<lambda>f. json_ok (snd f)) kvs"
  moreover have "set (t_collect kvs) \<subseteq> set kvs"
  proof
    fix f assume "f \<in> set (t_collect kvs)"
    then have "map_of (rev kvs) (fst f) = Some (snd f)"
      using t_get_iff_in [OF t_ok_collect, of "fst f" "snd f" kvs] by (simp add: t_get_collect)
    then show "f \<in> set kvs" using map_of_SomeD by fastforce
  qed
  ultimately show ?thesis by (auto simp: json_object_def list_all_iff)
qed

lemma json_ok_insert: "json_ok j \<Longrightarrow> json_ok v \<Longrightarrow> json_ok (json_insert k v j)"
proof (cases j)
  case (JObj t)
  assume "json_ok j" "json_ok v"
  moreover have "set (t_insert k v t) \<subseteq> insert (k, v) (set t)"
    by (induction t rule: t_insert.induct [of _ k v, case_names nil cons]) auto
  ultimately show ?thesis using JObj by (force simp: list_all_iff)
qed auto

lemma json_ok_opt [simp]: "json_ok (json_opt s)"
  by (simp add: json_opt_def split: option.splits)

end
