(* ===== verification/Store.thy ===== *)
theory Store
  imports Invariants
begin

text \<open>
  What a commit does to the stored rows (\<open>Collapsed::new\<close>, \<open>write\<close> and the schedule part of
  \<open>commit_on\<close> in \<open>kanade-store/src/sqlite/schedule.rs\<close>): the change set collapsed to one final
  value per key, every touched key deleted, the surviving rows inserted, and the constraints the
  migrations put on the tables. A stored row holds its child rows (standing answers, attendance,
  pin), which \<open>write\<close> deletes and inserts with it. The request replay, the history records and the
  decline notices written in the same transaction are other tables and not modelled.
\<close>

section \<open>Collapsing a change set\<close>

record collapsed =
  co_fixed :: "(str, fixed_run option) table"
  co_runs :: "(str, run) table"
  co_reminders :: "(str, reminder option) table"
  co_rsvps :: "(str \<times> str, rsvp option) table"

fun collapse_one :: "change \<Rightarrow> collapsed \<Rightarrow> collapsed" where
  "collapse_one (PutFixedRun row) out = out\<lparr>co_fixed := t_insert (f_id row) (Some row) (co_fixed out)\<rparr>"
| "collapse_one (DeleteFixedRun rid) out = out\<lparr>co_fixed := t_insert rid None (co_fixed out)\<rparr>"
| "collapse_one (PutRun row) out = out\<lparr>co_runs := t_insert (r_id row) row (co_runs out)\<rparr>"
| "collapse_one (PutReminder row) out =
     out\<lparr>co_reminders := t_insert (m_id row) (Some row) (co_reminders out)\<rparr>"
| "collapse_one (DeleteReminder rid) out = out\<lparr>co_reminders := t_insert rid None (co_reminders out)\<rparr>"
| "collapse_one (PutRsvp row) out = out\<lparr>co_rsvps := t_insert (rsvp_key row) (Some row) (co_rsvps out)\<rparr>"
| "collapse_one (DeleteRsvp run_id user_id) out =
     out\<lparr>co_rsvps := t_insert (run_id, user_id) None (co_rsvps out)\<rparr>"

definition collapse :: "change list \<Rightarrow> collapsed" where
  "collapse changes =
     fold collapse_one changes \<lparr>co_fixed = [], co_runs = [], co_reminders = [], co_rsvps = []\<rparr>"

section \<open>Stored rows\<close>

datatype store_failure = RevisionConflict nat nat | ConstraintViolated

text \<open>The schedule's tables, rows under their primary keys.\<close>

record database =
  db_revision :: nat
  db_fixed :: "(str, fixed_run) table"
  db_runs :: "(str, run) table"
  db_reminders :: "(str, reminder) table"
  db_rsvps :: "(str \<times> str, rsvp) table"

text \<open>Instants are stored as ISO text with microseconds; those outside the representable years are
  refused.\<close>

definition col_instant :: "instant \<Rightarrow> store_failure + instant" where
  "col_instant at = (if python_year at then Ok (at div 1000 * 1000) else Err ConstraintViolated)"

definition col_optional_instant :: "instant option \<Rightarrow> store_failure + instant option" where
  "col_optional_instant at =
     (case at of None \<Rightarrow> Ok None | Some t \<Rightarrow> res_bind (col_instant t) (\<lambda>t. Ok (Some t)))"

text \<open>Clock times of weekly timings have no sub-second part.\<close>

definition col_wall_time :: "clock \<Rightarrow> store_failure + clock" where
  "col_wall_time time = (if time mod seconds 1 \<noteq> 0 then Err ConstraintViolated else Ok time)"

text \<open>Child rows, inserted one by one under the primary key \<open>(parent, user_id)\<close>.\<close>

fun col_children :: "('c \<Rightarrow> str) \<Rightarrow> ('c \<Rightarrow> store_failure + 'c) \<Rightarrow> 'c list \<Rightarrow> store_failure + 'c list" where
  "col_children key enc [] = Ok []"
| "col_children key enc (c # cs) =
     res_bind (enc c) (\<lambda>c'.
     if contains (map key cs) (key c) then Err ConstraintViolated
     else res_bind (col_children key enc cs) (\<lambda>cs'. Ok (c' # cs')))"

definition stored_fixed :: "fixed_run \<Rightarrow> store_failure + fixed_run" where
  "stored_fixed row =
     res_bind (col_wall_time (f_time row)) (\<lambda>time.
     res_bind (col_children st_user_id
                 (\<lambda>s. res_bind (col_instant (st_at s)) (\<lambda>at. Ok (s\<lparr>st_at := at\<rparr>))) (f_standing row)) (\<lambda>standing.
     Ok (row\<lparr>f_time := time, f_standing := standing\<rparr>)))"

text \<open>A pin row has \<open>CHECK (status IN ('planned', 'confirmed'))\<close>.\<close>

definition stored_pin :: "status_pin \<Rightarrow> store_failure + status_pin" where
  "stored_pin pin =
     res_bind (col_instant (pin_at pin)) (\<lambda>at.
     if pin_status pin \<in> {Planned, Confirmed} then Ok (pin\<lparr>pin_at := at\<rparr>) else Err ConstraintViolated)"

definition stored_run :: "run \<Rightarrow> store_failure + run" where
  "stored_run row =
     res_bind (col_instant (r_week_start row)) (\<lambda>week.
     res_bind (col_instant (r_datetime row)) (\<lambda>at.
     res_bind (col_children ar_user_id
                 (\<lambda>rec. res_bind (col_instant (ar_at rec)) (\<lambda>at. Ok (rec\<lparr>ar_at := at\<rparr>)))
                 (r_attendance row)) (\<lambda>attendance.
     res_bind (case r_status_pin row of
                 None \<Rightarrow> Ok None
               | Some pin \<Rightarrow> res_bind (stored_pin pin) (\<lambda>pin. Ok (Some pin))) (\<lambda>pin.
     Ok (row\<lparr>r_week_start := week, r_datetime := at, r_attendance := attendance, r_status_pin := pin\<rparr>)))))"

definition stored_reminder :: "reminder \<Rightarrow> store_failure + reminder" where
  "stored_reminder row =
     res_bind (col_instant (m_fire_at row)) (\<lambda>fire_at.
     res_bind (col_optional_instant (m_sent_at row)) (\<lambda>sent_at.
     Ok (row\<lparr>m_fire_at := fire_at, m_sent_at := sent_at\<rparr>)))"

definition stored_rsvp :: "rsvp \<Rightarrow> store_failure + rsvp" where
  "stored_rsvp row = res_bind (col_instant (a_at row)) (\<lambda>at. Ok (row\<lparr>a_at := at\<rparr>))"

text \<open>The unique indexes \<open>runs_fixed_week\<close> and \<open>(run_id, kind)\<close>.\<close>

definition same_fixed_week :: "run \<Rightarrow> run \<Rightarrow> bool" where
  "same_fixed_week a b \<longleftrightarrow>
     r_fixed_run_id a \<noteq> None \<and> r_fixed_run_id a = r_fixed_run_id b \<and> r_week_start a = r_week_start b"

definition same_run_kind :: "reminder \<Rightarrow> reminder \<Rightarrow> bool" where
  "same_run_kind a b \<longleftrightarrow> m_run_id a = m_run_id b \<and> m_kind a = m_kind b"

section \<open>Writing\<close>

text \<open>\<open>INSERT\<close> of each row, with uniqueness checked per statement.\<close>

fun insert_rows ::
  "('r \<Rightarrow> 'r \<Rightarrow> bool) \<Rightarrow> ('r \<Rightarrow> store_failure + 'r) \<Rightarrow> ('k::linorder \<times> 'r) list \<Rightarrow> ('k, 'r) table
    \<Rightarrow> store_failure + ('k, 'r) table" where
  "insert_rows clash enc [] t = Ok t"
| "insert_rows clash enc ((k, row) # rows) t =
     res_bind (enc row) (\<lambda>row'.
     if t_has t k \<or> list_ex (clash row') (t_values t) then Err ConstraintViolated
     else insert_rows clash enc rows (t_insert k row' t))"

definition present :: "('k, 'r option) table \<Rightarrow> ('k \<times> 'r) list" where
  "present t = List.map_filter (\<lambda>(k, row). map_option (Pair k) row) t"

definition store_write :: "collapsed \<Rightarrow> database \<Rightarrow> store_failure + database" where
  "store_write rows db =
     (let fixed = fold t_remove (t_keys (co_fixed rows)) (db_fixed db);
          runs = fold t_remove (t_keys (co_runs rows)) (db_runs db);
          reminders = fold t_remove (t_keys (co_reminders rows)) (db_reminders db);
          rsvps = fold t_remove (t_keys (co_rsvps rows)) (db_rsvps db)
      in res_bind (insert_rows (\<lambda>_ _. False) stored_fixed (present (co_fixed rows)) fixed) (\<lambda>fixed.
         res_bind (insert_rows same_fixed_week stored_run (co_runs rows) runs) (\<lambda>runs.
         res_bind (insert_rows same_run_kind stored_reminder (present (co_reminders rows)) reminders) (\<lambda>reminders.
         res_bind (insert_rows (\<lambda>_ _. False) stored_rsvp (present (co_rsvps rows)) rsvps) (\<lambda>rsvps.
         Ok \<lparr>db_revision = db_revision db + 1, db_fixed = fixed, db_runs = runs,
             db_reminders = reminders, db_rsvps = rsvps\<rparr>)))))"

text \<open>The foreign keys to \<open>runs\<close>, deferred to \<open>COMMIT\<close>.\<close>

definition references_ok :: "database \<Rightarrow> bool" where
  "references_ok db \<longleftrightarrow>
     list_all (\<lambda>row. t_has (db_runs db) (m_run_id row)) (t_values (db_reminders db)) \<and>
     list_all (\<lambda>row. t_has (db_runs db) (a_run_id row)) (t_values (db_rsvps db))"

text \<open>\<open>commit_on\<close> after the request and edit checks of the history: \<open>None\<close> when there is nothing to
  write.\<close>

definition store_commit :: "nat \<Rightarrow> change list \<Rightarrow> database \<Rightarrow> store_failure + database option" where
  "store_commit expected changes db =
     (if db_revision db \<noteq> expected then Err (RevisionConflict expected (db_revision db))
      else if changes = [] then Ok None
      else
        res_bind (store_write (collapse changes) db) (\<lambda>db'.
        if references_ok db' then Ok (Some db') else Err ConstraintViolated))"

section \<open>The last write of every key\<close>

fun fixed_write :: "change \<Rightarrow> (str \<times> fixed_run option) option" where
  "fixed_write (PutFixedRun row) = Some (f_id row, Some row)"
| "fixed_write (DeleteFixedRun rid) = Some (rid, None)"
| "fixed_write _ = None"

fun run_write :: "change \<Rightarrow> (str \<times> run) option" where
  "run_write (PutRun row) = Some (r_id row, row)"
| "run_write _ = None"

fun reminder_write :: "change \<Rightarrow> (str \<times> reminder option) option" where
  "reminder_write (PutReminder row) = Some (m_id row, Some row)"
| "reminder_write (DeleteReminder rid) = Some (rid, None)"
| "reminder_write _ = None"

fun rsvp_write :: "change \<Rightarrow> ((str \<times> str) \<times> rsvp option) option" where
  "rsvp_write (PutRsvp row) = Some (rsvp_key row, Some row)"
| "rsvp_write (DeleteRsvp run_id user_id) = Some ((run_id, user_id), None)"
| "rsvp_write _ = None"

lemma collapse_tables:
  "co_fixed (fold collapse_one cs out) = fold (\<lambda>(k, v). t_insert k v) (List.map_filter fixed_write cs) (co_fixed out)"
  "co_runs (fold collapse_one cs out) = fold (\<lambda>(k, v). t_insert k v) (List.map_filter run_write cs) (co_runs out)"
  "co_reminders (fold collapse_one cs out) = fold (\<lambda>(k, v). t_insert k v) (List.map_filter reminder_write cs) (co_reminders out)"
  "co_rsvps (fold collapse_one cs out) = fold (\<lambda>(k, v). t_insert k v) (List.map_filter rsvp_write cs) (co_rsvps out)"
  subgoal by (induction cs arbitrary: out) (simp_all add: map_filter_simps split: change.split, (case_tac a; simp))
  subgoal by (induction cs arbitrary: out) (simp_all add: map_filter_simps split: change.split, (case_tac a; simp))
  subgoal by (induction cs arbitrary: out) (simp_all add: map_filter_simps split: change.split, (case_tac a; simp))
  subgoal by (induction cs arbitrary: out) (simp_all add: map_filter_simps split: change.split, (case_tac a; simp))
  done

section \<open>A rewritten table\<close>

lemma map_filter_append: "List.map_filter f (xs @ ys) = List.map_filter f xs @ List.map_filter f ys"
  by (simp add: List.map_filter_def)

lemma map_filter_map_None: "(\<And>x. f (g x) = None) \<Longrightarrow> List.map_filter f (map g xs) = []"
  by (simp add: List.map_filter_def)

lemma map_filter_map_Some: "(\<And>x. f (g x) = Some (h x)) \<Longrightarrow> List.map_filter f (map g xs) = map h xs"
  by (simp add: List.map_filter_def)

lemma t_values_insert: "set (t_values (t_insert k v t)) \<subseteq> insert v (set (t_values t))"
  by (induction t rule: t_insert.induct [of _ k v, case_names nil cons]) (auto simp: t_values_def)

lemma insert_rows_Ok:
  assumes "distinct (map fst rows)"
    and "\<And>k row. (k, row) \<in> set rows \<Longrightarrow> t_get t k = None \<and> enc row = Ok row \<and>
      (\<forall>other \<in> set (t_values t). \<not> clash row other)"
    and "\<And>k row k' row'. (k, row) \<in> set rows \<Longrightarrow> (k', row') \<in> set rows \<Longrightarrow> k \<noteq> k' \<Longrightarrow> \<not> clash row row'"
  shows "insert_rows clash enc rows t = Ok (fold (\<lambda>(k, v). t_insert k v) rows t)"
  using assms
proof (induction rows arbitrary: t)
  case (Cons e rows)
  obtain k row where e: "e = (k, row)" by (cases e)
  have here: "t_get t k = None" "enc row = Ok row" "\<forall>other \<in> set (t_values t). \<not> clash row other"
    using Cons.prems(2) e by auto
  have "insert_rows clash enc rows (t_insert k row t) =
      Ok (fold (\<lambda>(k, v). t_insert k v) rows (t_insert k row t))"
  proof (rule Cons.IH)
    show "distinct (map fst rows)" using Cons.prems(1) by simp
    fix k' row' assume in': "(k', row') \<in> set rows"
    then have "k' \<noteq> k" using Cons.prems(1) e by force
    moreover have "\<not> clash row' row" using Cons.prems(3) [of k' row' k row] in' e calculation by simp
    ultimately show "t_get (t_insert k row t) k' = None \<and> enc row' = Ok row' \<and>
        (\<forall>other \<in> set (t_values (t_insert k row t)). \<not> clash row' other)"
      using Cons.prems(2) [of k' row'] in' t_values_insert [of k row t] by auto
  next
    fix k row k' row'
    assume "(k, row) \<in> set rows" "(k', row') \<in> set rows" "k \<noteq> k'"
    then show "\<not> clash row row'" by (meson Cons.prems(3) list.set_intros(2))
  qed
  then show ?case using here by (auto simp: e t_has_def list_ex_iff)
qed simp

text \<open>Deleting the touched keys and inserting the changed rows gives the planned table, when every
  changed row can be stored as it is and the planned table has no clash.\<close>

lemma rewrite_table:
  assumes "t_ok base" "t_ok cur"
    and keys: "\<And>k. k \<in> set ks \<longleftrightarrow> t_get cur k \<noteq> t_get base k"
    and rows: "distinct (map fst rows)"
      "\<And>k row. (k, row) \<in> set rows \<longleftrightarrow> t_get cur k = Some row \<and> t_get base k \<noteq> Some row"
    and enc: "\<And>row. row \<in> set (t_values cur) \<Longrightarrow> enc row = Ok row"
    and clash: "\<And>k row k' row'. t_get cur k = Some row \<Longrightarrow> t_get cur k' = Some row' \<Longrightarrow> clash row row' \<Longrightarrow> k = k'"
  shows "insert_rows clash enc rows (fold t_remove ks base) = Ok cur"
proof -
  let ?t = "fold t_remove ks base"
  have get: "t_get ?t k = (if t_get cur k = t_get base k then t_get cur k else None)" for k
    using tbl.get_fold_del [of ks base k] keys [of k] by auto
  have ok: "t_ok ?t" using assms(1) by (induction ks arbitrary: base) auto
  have "insert_rows clash enc rows ?t = Ok (fold (\<lambda>(k, v). t_insert k v) rows ?t)"
  proof (rule insert_rows_Ok [OF rows(1)])
    fix k row assume "(k, row) \<in> set rows"
    then have c: "t_get cur k = Some row" "t_get base k \<noteq> Some row" using rows(2) by auto
    have "\<not> clash row other" if stored: "other \<in> set (t_values ?t)" for other
    proof
      assume cl: "clash row other"
      obtain k' where k': "t_get ?t k' = Some other" using stored ok by (auto simp: in_t_values)
      then have "t_get cur k' = Some other" "t_get base k' = Some other"
        unfolding get by (metis option.distinct(1))+
      then show False using clash [OF c(1) _ cl] c by auto
    qed
    then show "t_get ?t k = None \<and> enc row = Ok row \<and> (\<forall>other \<in> set (t_values ?t). \<not> clash row other)"
      using c get enc assms(2) by (auto simp: in_t_values)
  next
    fix k row k' row'
    assume "(k, row) \<in> set rows" "(k', row') \<in> set rows" "k \<noteq> k'"
    then show "\<not> clash row row'" using rows(2) clash by blast
  qed
  moreover have "fold (\<lambda>(k, v). t_insert k v) rows ?t = cur"
  proof (rule t_ok_ext)
    show "t_ok (fold (\<lambda>(k, v). t_insert k v) rows ?t)" using ok by (rule t_ok_fold_insert)
    fix k
    have "map_of rows k = (if t_get cur k = t_get base k then None else t_get cur k)"
      using rows by (intro option_iffI) (auto simp: map_of_eq_Some_iff)
    then show "t_get (fold (\<lambda>(k, v). t_insert k v) rows ?t) k = t_get cur k"
      using tbl.get_fold_put [OF rows(1), of ?t k] get [of k] by (auto split: option.splits)
  qed (rule assms(2))
  ultimately show ?thesis by simp
qed

section \<open>Rows the columns keep\<close>

definition instant_storable :: "instant \<Rightarrow> bool" where
  "instant_storable at \<longleftrightarrow> python_year at \<and> at mod 1000 = 0"

definition fixed_storable :: "fixed_run \<Rightarrow> bool" where
  "fixed_storable row \<longleftrightarrow>
     f_time row mod seconds 1 = 0 \<and> (\<forall>s \<in> set (f_standing row). instant_storable (st_at s))"

definition run_storable :: "run \<Rightarrow> bool" where
  "run_storable row \<longleftrightarrow>
     instant_storable (r_week_start row) \<and> instant_storable (r_datetime row) \<and>
     (\<forall>rec \<in> set (r_attendance row). instant_storable (ar_at rec)) \<and>
     (case r_status_pin row of None \<Rightarrow> True | Some pin \<Rightarrow> instant_storable (pin_at pin))"

definition reminder_storable :: "reminder \<Rightarrow> bool" where
  "reminder_storable row \<longleftrightarrow>
     instant_storable (m_fire_at row) \<and> (case m_sent_at row of None \<Rightarrow> True | Some at \<Rightarrow> instant_storable at)"

definition rsvp_storable :: "rsvp \<Rightarrow> bool" where
  "rsvp_storable row \<longleftrightarrow> instant_storable (a_at row)"

lemma col_instant_Ok [simp]: "instant_storable at \<Longrightarrow> col_instant at = Ok at"
  by (auto simp: col_instant_def instant_storable_def)

lemma col_children_Ok:
  "distinct (map key cs) \<Longrightarrow> (\<And>c. c \<in> set cs \<Longrightarrow> enc c = Ok c) \<Longrightarrow> col_children key enc cs = Ok cs"
  by (induction cs) (auto simp: res_bind_Ok_iff)

lemma sorted_users_distinct: "sorted_wrt (<) (xs :: str list) \<Longrightarrow> distinct xs"
  by (simp add: strict_sorted_iff)

lemma stored_fixed_Ok: "fixed_storable row \<Longrightarrow> standing_ok row \<Longrightarrow> stored_fixed row = Ok row"
  by (auto simp: stored_fixed_def fixed_storable_def standing_ok_def col_wall_time_def col_children_Ok
      sorted_users_distinct)

lemma stored_run_Ok:
  assumes "run_storable row" "attendance_ok row" "pin_ok row"
  shows "stored_run row = Ok row"
proof -
  have "col_children ar_user_id
      (\<lambda>rec. res_bind (col_instant (ar_at rec)) (\<lambda>at. Ok (rec\<lparr>ar_at := at\<rparr>))) (r_attendance row) = Ok (r_attendance row)"
    using assms(1,2) by (auto simp: run_storable_def attendance_ok_def col_children_Ok sorted_users_distinct)
  moreover have "stored_pin pin = Ok pin" if "r_status_pin row = Some pin" for pin
    using assms(1,3) that by (auto simp: stored_pin_def run_storable_def pin_ok_def)
  ultimately show ?thesis
    using assms(1) by (auto simp: stored_run_def run_storable_def split: option.splits)
qed

lemma stored_reminder_Ok: "reminder_storable row \<Longrightarrow> stored_reminder row = Ok row"
  by (auto simp: stored_reminder_def reminder_storable_def col_optional_instant_def split: option.splits)

lemma stored_rsvp_Ok: "rsvp_storable row \<Longrightarrow> stored_rsvp row = Ok row"
  by (simp add: stored_rsvp_def rsvp_storable_def)

section \<open>The collapsed change set of a working copy\<close>

text \<open>The last write of each key of a change set that deletes what is gone and puts what changed.\<close>

definition last_writes ::
  "('r \<Rightarrow> 'k::linorder) \<Rightarrow> ('k, 'r) table \<Rightarrow> ('k, 'r) table \<Rightarrow> ('k, 'r option) table" where
  "last_writes key base cur =
     t_collect (map (\<lambda>k. (k, None)) (filter (\<lambda>k. \<not> t_has cur k) (t_keys base)) @
       map (\<lambda>(_, row). (key row, Some row)) (filter (\<lambda>(k, row). t_get base k \<noteq> Some row) cur))"

lemma keyed_by_in: "t_ok cur \<Longrightarrow> tbl.keyed_by key cur \<Longrightarrow> (k, row) \<in> set cur \<Longrightarrow> key row = k"
  by (auto simp: tbl.keyed_by_def t_get_iff_in)

lemma map_of_rev_in:
  "distinct (map fst xs) \<Longrightarrow> map_of (rev xs) k = Some v \<longleftrightarrow> (k, v) \<in> set xs"
  by (subst map_of_eq_Some_iff) (simp_all add: rev_map [symmetric])

lemma last_writes_get:
  assumes "t_ok base" "t_ok cur" "tbl.keyed_by key cur"
  shows "t_get (last_writes key base cur) k = (if t_get cur k = t_get base k then None else Some (t_get cur k))"
proof -
  let ?dels = "map (\<lambda>k. (k, None)) (filter (\<lambda>k. \<not> t_has cur k) (t_keys base))"
  let ?puts = "map (\<lambda>(_, row). (key row, Some row)) (filter (\<lambda>(k, row). t_get base k \<noteq> Some row) cur)"
  have puts: "?puts = map (\<lambda>(k, row). (k, Some row)) (filter (\<lambda>(k, row). t_get base k \<noteq> Some row) cur)"
    using keyed_by_in [OF assms(2,3)] by auto
  have fst_puts: "map fst ?puts = map fst (filter (\<lambda>(k, row). t_get base k \<noteq> Some row) cur)"
    unfolding puts by (simp add: case_prod_unfold comp_def)
  have fst_dels: "map fst ?dels = filter (\<lambda>k. \<not> t_has cur k) (t_keys base)"
    by (simp add: comp_def)
  have "distinct (map fst (?dels @ ?puts))"
    unfolding map_append fst_puts fst_dels using t_ok_distinct [OF assms(1)] t_ok_distinct [OF assms(2)]
    by (auto simp: t_keys_def t_has_iff distinct_map_filter)
  then have "t_get (last_writes key base cur) k = Some v \<longleftrightarrow> (k, v) \<in> set (?dels @ ?puts)" for v
    unfolding last_writes_def t_get_collect by (rule map_of_rev_in)
  moreover have "(k, v) \<in> set (?dels @ ?puts) \<longleftrightarrow> t_get cur k \<noteq> t_get base k \<and> v = t_get cur k" for v
    unfolding puts using t_get_iff_in [OF assms(2)] t_has_iff [of base k]
    by (cases "t_get cur k") (auto simp: t_has_def image_iff)
  ultimately show ?thesis by (intro option_iffI) auto
qed

lemma collapse_into_changes:
  assumes "rows_keyed d"
  shows "co_fixed (collapse (into_changes d)) = last_writes f_id (keyed (sn_fixed_runs (dr_base d)) f_id) (dr_fixed d)"
    "co_reminders (collapse (into_changes d)) = last_writes m_id (keyed (sn_reminders (dr_base d)) m_id) (dr_reminders d)"
    "co_rsvps (collapse (into_changes d)) = last_writes rsvp_key (keyed (sn_rsvps (dr_base d)) rsvp_key) (dr_rsvps d)"
    "co_runs (collapse (into_changes d)) =
       t_collect (map (\<lambda>(_, row). (r_id row, row))
         (filter (\<lambda>(k, row). t_get (keyed (sn_runs (dr_base d)) r_id) k \<noteq> Some row) (dr_runs d)))"
  unfolding collapse_def collapse_tables
  by (simp_all add: last_writes_def into_changes_def Let_def deletes_def puts_def t_collect_def
      map_filter_append map_filter_map_None map_filter_map_Some split_def)

section \<open>Snapshots and databases\<close>

text \<open>What the scheduler and the tables demand of the rows together.\<close>

definition snapshot_sound :: "snapshot \<Rightarrow> bool" where
  "snapshot_sound s \<longleftrightarrow>
     (\<forall>a \<in> set (sn_runs s). \<forall>b \<in> set (sn_runs s). same_fixed_week a b \<longrightarrow> r_id a = r_id b) \<and>
     (\<forall>a \<in> set (sn_reminders s). \<forall>b \<in> set (sn_reminders s). same_run_kind a b \<longrightarrow> m_id a = m_id b) \<and>
     (\<forall>f \<in> set (sn_fixed_runs s). standing_ok f) \<and>
     (\<forall>r \<in> set (sn_runs s). attendance_ok r \<and> pin_ok r)"

definition snapshot_storable :: "snapshot \<Rightarrow> bool" where
  "snapshot_storable s \<longleftrightarrow>
     list_all fixed_storable (sn_fixed_runs s) \<and> list_all run_storable (sn_runs s) \<and>
     list_all reminder_storable (sn_reminders s) \<and> list_all rsvp_storable (sn_rsvps s)"

text \<open>Every reminder and answer names a run of the snapshot.\<close>

definition snapshot_referenced :: "snapshot \<Rightarrow> bool" where
  "snapshot_referenced s \<longleftrightarrow>
     list_all (\<lambda>row. contains (map r_id (sn_runs s)) (m_run_id row)) (sn_reminders s) \<and>
     list_all (\<lambda>row. contains (map r_id (sn_runs s)) (a_run_id row)) (sn_rsvps s)"

text \<open>The tables a full load (\<open>Scope::All\<close>) reads a snapshot from.\<close>

definition database_of :: "snapshot \<Rightarrow> database" where
  "database_of s =
     \<lparr>db_revision = sn_revision s, db_fixed = keyed (sn_fixed_runs s) f_id,
      db_runs = keyed (sn_runs s) r_id, db_reminders = keyed (sn_reminders s) m_id,
      db_rsvps = keyed (sn_rsvps s) rsvp_key\<rparr>"

lemma keyed_back:
  assumes "t_ok t" "tbl.keyed_by key t" "set rows = set (t_values t)"
  shows "keyed rows key = t"
proof (rule t_ok_ext)
  fix k
  show "t_get (keyed rows key) k = t_get t k"
  proof (cases "t_get t k")
    case None
    have "t_get (keyed rows key) k \<noteq> Some row" for row
    proof
      assume "t_get (keyed rows key) k = Some row"
      then have "row \<in> set rows \<and> key row = k" by (rule keyed_get)
      then have "row \<in> set (t_values t)" "key row = k" using assms(3) by simp_all
      then show False using keyed_values_inj [OF assms(1,2), of row] None by simp
    qed
    then show ?thesis using None not_Some_eq by metis
  next
    case (Some row)
    then have "key row = k" using assms(2) by (simp add: tbl.keyed_by_def)
    moreover have "row \<in> set rows" unfolding assms(3) using Some in_t_values [OF assms(1)] by auto
    ultimately have "t_get (keyed rows key) k \<noteq> None" using keyed_has [of row rows key] by simp
    then obtain row' where row': "t_get (keyed rows key) k = Some row'" by auto
    have "row' \<in> set (t_values t)" "key row' = k" using keyed_get [OF row'] unfolding assms(3) by simp_all
    then have "t_get t k = Some row'" using keyed_values_inj [OF assms(1,2), of row'] by simp
    then show ?thesis using row' by simp
  qed
qed (simp_all add: assms(1))

lemma database_of_draft:
  assumes "rows_keyed d"
  shows "database_of (to_snapshot d) =
    \<lparr>db_revision = sn_revision (dr_base d), db_fixed = dr_fixed d, db_runs = dr_runs d,
     db_reminders = dr_reminders d, db_rsvps = dr_rsvps d\<rparr>"
  using assms by (simp add: database_of_def rows_keyed_def keyed_back)
    (simp add: to_snapshot_def snapshot_sort_def)

lemma map_fst_present: "map fst (present t) = map fst (filter (\<lambda>e. snd e \<noteq> None) t)"
  by (induction t) (auto simp: present_def map_filter_simps split: option.splits)

lemma rewrite_last_writes:
  assumes "t_ok base" "t_ok cur" "tbl.keyed_by key cur"
    and "\<And>row. row \<in> set (t_values cur) \<Longrightarrow> enc row = Ok row"
    and "\<And>k row k' row'. t_get cur k = Some row \<Longrightarrow> t_get cur k' = Some row' \<Longrightarrow> clash row row' \<Longrightarrow> k = k'"
  shows "insert_rows clash enc (present (last_writes key base cur))
    (fold t_remove (t_keys (last_writes key base cur)) base) = Ok cur"
proof (rule rewrite_table [OF assms(1,2)])
  let ?w = "last_writes key base cur"
  have ok: "t_ok ?w" by (simp add: last_writes_def)
  note get = last_writes_get [OF assms(1-3)]
  show "k \<in> set (t_keys ?w) \<longleftrightarrow> t_get cur k \<noteq> t_get base k" for k
    by (simp add: t_has_iff [symmetric] t_has_def get)
  show "(k, row) \<in> set (present ?w) \<longleftrightarrow> t_get cur k = Some row \<and> t_get base k \<noteq> Some row" for k row
  proof -
    have "(k, row) \<in> set (present ?w) \<longleftrightarrow> (k, Some row) \<in> set ?w"
      by (force simp: present_def List.map_filter_def)
    then show ?thesis using t_get_iff_in [OF ok] get [of k] by (auto split: if_splits)
  qed
  show "distinct (map fst (present ?w))"
    unfolding map_fst_present using t_ok_distinct [OF ok] by (rule distinct_map_filter)
qed (use assms in auto)

lemma changed_runs:
  assumes "rows_keyed d" "\<And>k. t_get base k \<noteq> None \<Longrightarrow> t_get (dr_runs d) k \<noteq> None" "t_ok base"
    and "\<And>row. row \<in> set (t_values (dr_runs d)) \<Longrightarrow> stored_run row = Ok row"
    and "one_run_per_week (dr_runs d)"
  defines "rows \<equiv> t_collect (map (\<lambda>(_, row). (r_id row, row))
      (filter (\<lambda>(k, row). t_get base k \<noteq> Some row) (dr_runs d)))"
  shows "insert_rows same_fixed_week stored_run rows (fold t_remove (t_keys rows) base) = Ok (dr_runs d)"
proof -
  let ?cur = "dr_runs d"
  have k: "t_ok ?cur" "tbl.keyed_by r_id ?cur" using assms(1) by (simp_all add: rows_keyed_def)
  have ok: "t_ok rows" by (simp add: rows_def)
  let ?changed = "filter (\<lambda>(k, row). t_get base k \<noteq> Some row) ?cur"
  have same: "map (\<lambda>(_, row). (r_id row, row)) ?changed = ?changed"
    using keyed_by_in [OF k] by (auto intro!: map_idI)
  have "distinct (map fst ?changed)" using t_ok_distinct [OF k(1)] by (rule distinct_map_filter)
  then have "t_get rows i = Some row \<longleftrightarrow> (i, row) \<in> set ?changed" for i row
    unfolding rows_def same t_get_collect by (rule map_of_rev_in)
  then have get: "t_get rows i = Some row \<longleftrightarrow> t_get ?cur i = Some row \<and> t_get base i \<noteq> Some row" for i row
    using t_get_iff_in [OF k(1)] by simp
  show ?thesis
  proof (rule rewrite_table [OF assms(3) k(1)])
    show "i \<in> set (t_keys rows) \<longleftrightarrow> t_get ?cur i \<noteq> t_get base i" for i
    proof -
      have "i \<in> set (t_keys rows) \<longleftrightarrow> (\<exists>row. t_get ?cur i = Some row \<and> t_get base i \<noteq> Some row)"
        by (simp add: t_has_iff [symmetric] t_has_def get [symmetric])
      then show ?thesis using assms(2) [of i] by (cases "t_get ?cur i"; cases "t_get base i") auto
    qed
    show "distinct (map fst rows)" using ok by (rule t_ok_distinct)
    show "(i, row) \<in> set rows \<longleftrightarrow> t_get ?cur i = Some row \<and> t_get base i \<noteq> Some row" for i row
      using t_get_iff_in [OF ok] get by simp
    show "stored_run row = Ok row" if "row \<in> set (t_values ?cur)" for row
      using that by (rule assms(4))
    show "i = j" if "t_get ?cur i = Some a" "t_get ?cur j = Some b" "same_fixed_week a b" for i a j b
      using that assms(5) by (auto simp: one_run_per_week_def same_fixed_week_def)
  qed
qed

lemma snapshot_sound_draft:
  assumes "snapshot_sound base" "apply_ops lower ops (start_draft base p e, ids) = Ok ((), d, ids')"
  shows "rows_keyed d" "one_run_per_week (dr_runs d)" "one_reminder_per_kind (dr_reminders d)"
    "all_rows standing_ok (dr_fixed d)" "all_rows (\<lambda>run. attendance_ok run \<and> pin_ok run) (dr_runs d)"
    "dr_base d = base" "\<And>k. t_get (keyed (sn_runs base) r_id) k \<noteq> None \<Longrightarrow> t_get (dr_runs d) k \<noteq> None"
proof -
  let ?s = "start_draft base p e"
  have "weeks_ok ?s" "kinds_ok ?s" "standing_in_party ?s" "runs_ok ?s"
    using assms(1)
    by (auto simp: snapshot_sound_def weeks_ok_def one_run_per_week_def same_fixed_week_def kinds_ok_def
        one_reminder_per_kind_def same_run_kind_def standing_in_party_def runs_ok_def all_rows_def
        dest!: keyed_get)
  then show "rows_keyed d" "one_run_per_week (dr_runs d)" "one_reminder_per_kind (dr_reminders d)"
    "all_rows standing_ok (dr_fixed d)" "all_rows (\<lambda>run. attendance_ok run \<and> pin_ok run) (dr_runs d)"
    using validD [OF weeks.keeps_apply_ops assms(2)] validD [OF kinds.keeps_apply_ops assms(2)]
      validD [OF standing.keeps_apply_ops assms(2)] validD [OF runs.keeps_apply_ops assms(2)]
    by (simp_all add: weeks_ok_def kinds_ok_def standing_in_party_def runs_ok_def)
  have "grown_from ?s d" using validD [OF grown.keeps_apply_ops assms(2)] by simp
  then show "dr_base d = base" "\<And>k. t_get (keyed (sn_runs base) r_id) k \<noteq> None \<Longrightarrow> t_get (dr_runs d) k \<noteq> None"
    by (auto simp: grown_from_def)
qed

lemma snapshot_soundI:
  assumes "rows_keyed d" "one_run_per_week (dr_runs d)" "one_reminder_per_kind (dr_reminders d)"
    "all_rows standing_ok (dr_fixed d)" "all_rows (\<lambda>run. attendance_ok run \<and> pin_ok run) (dr_runs d)"
  shows "snapshot_sound (to_snapshot d)"
  unfolding snapshot_sound_def snapshot_rows
proof (intro conjI ballI impI)
  note k = assms(1) [unfolded rows_keyed_def]
  fix a b assume "a \<in> set (t_values (dr_runs d))" "b \<in> set (t_values (dr_runs d))" "same_fixed_week a b"
  then show "r_id a = r_id b"
    using k assms(2) keyed_values_inj [of "dr_runs d" r_id] unfolding one_run_per_week_def same_fixed_week_def
    by blast
next
  note k = assms(1) [unfolded rows_keyed_def]
  fix a b assume "a \<in> set (t_values (dr_reminders d))" "b \<in> set (t_values (dr_reminders d))" "same_run_kind a b"
  then show "m_id a = m_id b"
    using k assms(3) keyed_values_inj [of "dr_reminders d" m_id] unfolding one_reminder_per_kind_def same_run_kind_def
    by blast
qed (use assms in \<open>auto simp: all_rows_def rows_keyed_def in_t_values\<close>)

lemma store_write_draft:
  assumes "rows_keyed d" "one_run_per_week (dr_runs d)" "one_reminder_per_kind (dr_reminders d)"
    "all_rows standing_ok (dr_fixed d)" "all_rows (\<lambda>run. attendance_ok run \<and> pin_ok run) (dr_runs d)"
    and grown: "\<And>k. t_get (keyed (sn_runs (dr_base d)) r_id) k \<noteq> None \<Longrightarrow> t_get (dr_runs d) k \<noteq> None"
    and storable: "snapshot_storable (to_snapshot d)"
  shows "store_write (collapse (into_changes d)) (database_of (dr_base d)) =
    Ok ((database_of (to_snapshot d))\<lparr>db_revision := sn_revision (dr_base d) + 1\<rparr>)"
proof -
  note k = assms(1) [unfolded rows_keyed_def]
  have rows: "\<forall>r \<in> set (t_values (dr_fixed d)). fixed_storable r" "\<forall>r \<in> set (t_values (dr_runs d)). run_storable r"
    "\<forall>r \<in> set (t_values (dr_reminders d)). reminder_storable r" "\<forall>r \<in> set (t_values (dr_rsvps d)). rsvp_storable r"
    using storable unfolding snapshot_storable_def list_all_iff snapshot_rows by blast+
  have good: "\<forall>r \<in> set (t_values (dr_fixed d)). standing_ok r"
    "\<forall>r \<in> set (t_values (dr_runs d)). attendance_ok r \<and> pin_ok r"
    using assms(4,5) k by (auto simp: all_rows_def in_t_values)
  let ?co = "collapse (into_changes d)" and ?b = "dr_base d"
  note co = collapse_into_changes [OF assms(1)]
  have "insert_rows (\<lambda>_ _. False) stored_fixed (present (co_fixed ?co))
      (fold t_remove (t_keys (co_fixed ?co)) (keyed (sn_fixed_runs ?b) f_id)) = Ok (dr_fixed d)"
    unfolding co by (rule rewrite_last_writes) (use k rows good stored_fixed_Ok in auto)
  moreover have "insert_rows same_fixed_week stored_run (co_runs ?co)
      (fold t_remove (t_keys (co_runs ?co)) (keyed (sn_runs ?b) r_id)) = Ok (dr_runs d)"
    unfolding co by (rule changed_runs) (use assms(1,2) grown rows good stored_run_Ok in auto)
  moreover have "insert_rows same_run_kind stored_reminder (present (co_reminders ?co))
      (fold t_remove (t_keys (co_reminders ?co)) (keyed (sn_reminders ?b) m_id)) = Ok (dr_reminders d)"
    unfolding co
  proof (rule rewrite_last_writes)
    fix i a j b
    assume "t_get (dr_reminders d) i = Some a" "t_get (dr_reminders d) j = Some b" "same_run_kind a b"
    then show "i = j" using assms(3) unfolding one_reminder_per_kind_def same_run_kind_def by blast
  qed (use k rows stored_reminder_Ok in auto)
  moreover have "insert_rows (\<lambda>_ _. False) stored_rsvp (present (co_rsvps ?co))
      (fold t_remove (t_keys (co_rsvps ?co)) (keyed (sn_rsvps ?b) rsvp_key)) = Ok (dr_rsvps d)"
    unfolding co by (rule rewrite_last_writes) (use k rows stored_rsvp_Ok in auto)
  ultimately show ?thesis
    unfolding database_of_draft [OF assms(1)] by (simp add: store_write_def database_of_def)
qed

lemma no_changes_same_tables:
  assumes "rows_keyed d" "into_changes d = []"
    "\<And>k. t_get (keyed (sn_runs (dr_base d)) r_id) k \<noteq> None \<Longrightarrow> t_get (dr_runs d) k \<noteq> None"
  shows "database_of (to_snapshot d) = database_of (dr_base d)"
proof -
  note k = assms(1) [unfolded rows_keyed_def]
  have same: "cur = base" if "t_ok base" "t_ok cur" "deletes base cur wrap = []" "puts base cur wrap' = []"
    for base cur :: "('k::linorder, 'r) table" and wrap wrap'
  proof (rule t_ok_ext [OF that(2,1)])
    fix i
    have "t_get base i = Some row" if "t_get cur i = Some row" for row
      using that \<open>puts base cur wrap' = []\<close> t_get_in [OF that] by (force simp: puts_def filter_empty_conv)
    moreover have "t_get cur i \<noteq> None" if "t_get base i \<noteq> None"
      using that \<open>deletes base cur wrap = []\<close> by (auto simp: deletes_def filter_empty_conv t_has_iff [symmetric] t_has_def)
    ultimately show "t_get cur i = t_get base i" by (cases "t_get cur i"; cases "t_get base i") auto
  qed
  have "deletes (keyed (sn_runs (dr_base d)) r_id) (dr_runs d) PutRun' = []" for PutRun' :: "str \<Rightarrow> change"
    using assms(3) by (auto simp: deletes_def filter_empty_conv t_has_iff [symmetric] t_has_def)
  then show ?thesis
    using assms(2) k unfolding database_of_draft [OF assms(1)] into_changes_def Let_def
    by (auto simp: database_of_def intro!: same)
qed

text \<open>What a change set leaves in the tables.\<close>

lemma planned_rows_stored:
  assumes "apply_ops lower ops (start_draft base p e, ids) = Ok ((), d, ids')"
    and "snapshot_sound base"
    and "snapshot_storable (to_snapshot d)"
    and "snapshot_referenced (to_snapshot d)"
  shows "store_commit (sn_revision base) (into_changes d) (database_of base) =
      Ok (if into_changes d = [] then None
          else Some (database_of ((to_snapshot d)\<lparr>sn_revision := sn_revision base + 1\<rparr>))) \<and>
    (into_changes d = [] \<longrightarrow> database_of (to_snapshot d) = database_of base) \<and>
    snapshot_sound (to_snapshot d)"
proof -
  note d = snapshot_sound_draft [OF assms(2,1)]
  let ?db = "(database_of (to_snapshot d))\<lparr>db_revision := sn_revision base + 1\<rparr>"
  have db: "?db = database_of ((to_snapshot d)\<lparr>sn_revision := sn_revision base + 1\<rparr>)"
    by (simp add: database_of_def)
  have "store_write (collapse (into_changes d)) (database_of base) = Ok ?db"
    using store_write_draft [OF d(1-5) _ assms(3)] d(6,7) by simp
  moreover have "references_ok ?db"
  proof -
    have "t_get (dr_runs d) (r_id run) = Some run" if "run \<in> set (t_values (dr_runs d))" for run
      using that d(1) by (auto simp: rows_keyed_def intro: keyed_values_inj)
    then have runs: "t_has (dr_runs d) i" if "i \<in> r_id ` set (t_values (dr_runs d))" for i
      using that by (auto simp: t_has_def)
    show ?thesis
      using assms(4) runs unfolding references_ok_def snapshot_referenced_def database_of_draft [OF d(1)]
      by (simp add: list_all_iff snapshot_rows)
  qed
  ultimately have "store_commit (sn_revision base) (into_changes d) (database_of base) =
      Ok (if into_changes d = [] then None else Some ?db)"
    by (simp add: store_commit_def) (simp add: database_of_def)
  moreover have "into_changes d = [] \<longrightarrow> database_of (to_snapshot d) = database_of base"
    using no_changes_same_tables [OF d(1)] d(6,7) by simp
  ultimately show ?thesis
    using snapshot_soundI [OF d(1-5)] unfolding db by blast
qed

section \<open>Properties\<close>



end
