(* ===== verification/ChangeRecord.thy ===== *)
theory ChangeRecord
  imports Json Store
begin

text \<open>
  Change records and their canonical encoding (\<open>history/record.rs\<close>, with the types of
  \<open>history/origin.rs\<close>, \<open>blame.rs\<close> and \<open>precondition.rs\<close> they carry): rows as JSON and back, the
  body that is hashed and stored, sealing a record onto its predecessor, and reading one back.
\<close>

section \<open>Who and how\<close>

datatype actor = ActMember (actor_id: str) | ActAdmin (actor_id: str) | ActSystem (actor_id: str)

fun actor_kind :: "actor \<Rightarrow> str" where
  "actor_kind (ActMember _) = lit ''member''"
| "actor_kind (ActAdmin _) = lit ''admin''"
| "actor_kind (ActSystem _) = lit ''system''"

definition actor_from_parts :: "str \<Rightarrow> str \<Rightarrow> actor option" where
  "actor_from_parts kind ident =
     (if kind = lit ''member'' then Some (ActMember ident)
      else if kind = lit ''admin'' then Some (ActAdmin ident)
      else if kind = lit ''system'' then Some (ActSystem ident)
      else None)"

datatype surface =
    Discord | AdminPortal | PublicPortal | Cli | ChatApproval | ExtractionApproval | DeliveryTick
  | Rollback | Import | DraftMerge | RequestMerge | CherryPick

definition surfaces :: "surface list" where
  "surfaces =
     [Discord, AdminPortal, PublicPortal, Cli, ChatApproval, ExtractionApproval, DeliveryTick,
      Rollback, Import, DraftMerge, RequestMerge, CherryPick]"

fun surface_str :: "surface \<Rightarrow> str" where
  "surface_str Discord = lit ''discord''"
| "surface_str AdminPortal = lit ''admin_portal''"
| "surface_str PublicPortal = lit ''public_portal''"
| "surface_str Cli = lit ''cli''"
| "surface_str ChatApproval = lit ''chat_approval''"
| "surface_str ExtractionApproval = lit ''extraction_approval''"
| "surface_str DeliveryTick = lit ''delivery_tick''"
| "surface_str Rollback = lit ''rollback''"
| "surface_str Import = lit ''import''"
| "surface_str DraftMerge = lit ''draft_merge''"
| "surface_str RequestMerge = lit ''request_merge''"
| "surface_str CherryPick = lit ''cherry_pick''"

definition surface_parse :: "str \<Rightarrow> surface option" where
  "surface_parse value = spelled_parse surfaces surface_str value"

record origin =
  og_actor :: actor
  og_surface :: surface
  og_request_id :: "str option"

definition origin_new :: "actor \<Rightarrow> surface \<Rightarrow> origin" where
  "origin_new who via = \<lparr>og_actor = who, og_surface = via, og_request_id = None\<rparr>"

section \<open>Keys and rows\<close>

datatype row_key = KFixedRun str | KRun str | KReminder str | KRsvp str str

text \<open>The derived order: by variant, then by field.\<close>

fun key_rank :: "row_key \<Rightarrow> nat \<times> str \<times> str" where
  "key_rank (KFixedRun i) = (0, i, [])"
| "key_rank (KRun i) = (1, i, [])"
| "key_rank (KReminder i) = (2, i, [])"
| "key_rank (KRsvp r u) = (3, r, u)"

lemma key_rank_inject: "key_rank a = key_rank b \<longleftrightarrow> a = b"
  by (cases a; cases b) auto

instantiation row_key :: linorder
begin

definition less_eq_row_key :: "row_key \<Rightarrow> row_key \<Rightarrow> bool" where
  "less_eq_row_key a b \<longleftrightarrow> key_rank a \<le> key_rank b"

definition less_row_key :: "row_key \<Rightarrow> row_key \<Rightarrow> bool" where
  "less_row_key a b \<longleftrightarrow> key_rank a < key_rank b"

instance
proof
  fix a b :: row_key
  assume "a \<le> b" "b \<le> a"
  then show "a = b" using key_rank_inject by (auto simp: less_eq_row_key_def)
qed (auto simp: less_eq_row_key_def less_row_key_def)

end

datatype row_value = VFixedRun fixed_run | VRun run | VReminder reminder | VRsvp rsvp

fun value_key :: "row_value \<Rightarrow> row_key" where
  "value_key (VFixedRun row) = KFixedRun (f_id row)"
| "value_key (VRun row) = KRun (r_id row)"
| "value_key (VReminder row) = KReminder (m_id row)"
| "value_key (VRsvp row) = KRsvp (a_run_id row) (a_user_id row)"

fun key_to_json :: "row_key \<Rightarrow> json" where
  "key_to_json (KFixedRun i) = json_object [(lit ''table'', JStr (lit ''fixed_runs'')), (lit ''id'', JStr i)]"
| "key_to_json (KRun i) = json_object [(lit ''table'', JStr (lit ''runs'')), (lit ''id'', JStr i)]"
| "key_to_json (KReminder i) = json_object [(lit ''table'', JStr (lit ''reminders'')), (lit ''id'', JStr i)]"
| "key_to_json (KRsvp r u) =
     json_object [(lit ''table'', JStr (lit ''rsvps'')), (lit ''run_id'', JStr r), (lit ''user_id'', JStr u)]"

definition key_from_json :: "json \<Rightarrow> record_error + row_key" where
  "key_from_json value =
     res_bind (text_field value (lit ''table'')) (\<lambda>table.
     if table = lit ''fixed_runs'' then res_bind (text_field value (lit ''id'')) (\<lambda>i. Ok (KFixedRun i))
     else if table = lit ''runs'' then res_bind (text_field value (lit ''id'')) (\<lambda>i. Ok (KRun i))
     else if table = lit ''reminders'' then res_bind (text_field value (lit ''id'')) (\<lambda>i. Ok (KReminder i))
     else if table = lit ''rsvps'' then
       res_bind (text_field value (lit ''run_id'')) (\<lambda>r.
       res_bind (text_field value (lit ''user_id'')) (\<lambda>u. Ok (KRsvp r u)))
     else Err BadRecord)"

definition wall_text :: "clock \<Rightarrow> str" where
  "wall_text t =
     dec2 (wall_hour t) @ lit '':'' @ dec2 (wall_minute t) @ lit '':'' @ dec2 (nat (t div 1000000000 mod 60))"

definition parse_wall :: "str \<Rightarrow> record_error + clock" where
  "parse_wall value =
     res_bind (res_list (\<lambda>part. ok_or BadRecord (u32_parse part)) (split_on (\<lambda>c. c = 58) [] value)) (\<lambda>parts.
     case parts of
       [hour, minute, second] \<Rightarrow>
         if hour < 24 \<and> minute < 60 \<and> second < 60
         then Ok (hours (int hour) + minutes (int minute) + seconds (int second)) else Err BadRecord
     | _ \<Rightarrow> Err BadRecord)"

definition texts :: "str list \<Rightarrow> json" where
  "texts xs = JArr (map JStr xs)"

definition standing_to_json :: "standing_answer \<Rightarrow> record_error + json" where
  "standing_to_json s =
     res_bind (write_iso (st_at s)) (\<lambda>at.
     Ok (json_object [(lit ''user_id'', JStr (st_user_id s)), (lit ''set_by'', JStr (st_set_by s)),
                      (lit ''at'', JStr at)]))"

definition attendance_to_json :: "attendance_record \<Rightarrow> record_error + json" where
  "attendance_to_json rec =
     res_bind (write_iso (ar_at rec)) (\<lambda>at.
     Ok (json_object [(lit ''user_id'', JStr (ar_user_id rec)), (lit ''attended'', JBool (ar_attended rec)),
                      (lit ''recorded_by'', JStr (ar_recorded_by rec)), (lit ''at'', JStr at)]))"

text \<open>The keys v5 added appear only when set.\<close>

fun value_to_json :: "row_value \<Rightarrow> record_error + json" where
  "value_to_json (VFixedRun row) =
     (let value = json_object
        [(lit ''id'', JStr (f_id row)), (lit ''owner_id'', JStr (f_owner_id row)),
         (lit ''channel_id'', json_opt (f_channel_id row)), (lit ''bosses'', texts (f_bosses row)),
         (lit ''weekday'', JNum (num_days_from_monday (f_weekday row))),
         (lit ''time'', JStr (wall_text (f_time row))), (lit ''participants'', texts (f_participants row)),
         (lit ''note'', json_opt (f_note row))];
          value = (if f_attendance_default row \<noteq> OptIn
            then json_insert (lit ''attendance_default'') (JStr (attendance_default_str (f_attendance_default row))) value
            else value);
          value = (if f_owner_pinned row then json_insert (lit ''owner_pinned'') (JBool True) value else value)
      in if f_standing row \<noteq> [] then
           res_bind (res_list standing_to_json (f_standing row)) (\<lambda>standing.
           Ok (json_insert (lit ''standing'') (JArr standing) value))
         else Ok value)"
| "value_to_json (VRun row) =
     res_bind (write_iso (r_week_start row)) (\<lambda>week.
     res_bind (write_iso (r_datetime row)) (\<lambda>datetime.
     let value = json_object
        [(lit ''id'', JStr (r_id row)), (lit ''fixed_run_id'', json_opt (r_fixed_run_id row)),
         (lit ''channel_id'', json_opt (r_channel_id row)), (lit ''week_start'', JStr week),
         (lit ''datetime'', JStr datetime), (lit ''bosses'', texts (r_bosses row)),
         (lit ''participants'', texts (r_participants row)),
         (lit ''status'', JStr (run_status_str (r_status row))),
         (lit ''source'', JStr (run_source_str (r_source row)))]
     in
     res_bind (if r_attendance row \<noteq> [] then
                 res_bind (res_list attendance_to_json (r_attendance row)) (\<lambda>attendance.
                 Ok (json_insert (lit ''attendance'') (JArr attendance) value))
               else Ok value) (\<lambda>value.
     case r_status_pin row of
       None \<Rightarrow> Ok value
     | Some pin \<Rightarrow>
         res_bind (write_iso (pin_at pin)) (\<lambda>at.
         Ok (json_insert (lit ''status_pin'')
               (json_object [(lit ''status'', JStr (run_status_str (pin_status pin))), (lit ''at'', JStr at)]) value)))))"
| "value_to_json (VReminder row) =
     res_bind (write_iso (m_fire_at row)) (\<lambda>fire_at.
     res_bind (res_opt write_iso (m_sent_at row)) (\<lambda>sent_at.
     Ok (json_object
        [(lit ''id'', JStr (m_id row)), (lit ''run_id'', JStr (m_run_id row)), (lit ''kind'', JStr (m_kind row)),
         (lit ''fire_at'', JStr fire_at), (lit ''sent_at'', json_opt sent_at),
         (lit ''message_id'', json_opt (m_message_id row))])))"
| "value_to_json (VRsvp row) =
     res_bind (write_iso (a_at row)) (\<lambda>at.
     Ok (json_object
        [(lit ''run_id'', JStr (a_run_id row)), (lit ''user_id'', JStr (a_user_id row)),
         (lit ''state'', JStr (rsvp_state_str (a_state row))),
         (lit ''source'', JStr (rsvp_source_str (a_source row))), (lit ''at'', JStr at)]))"

section \<open>Reading rows\<close>

text \<open>An optional list: absent when empty.\<close>

definition items_field :: "(json \<Rightarrow> record_error + 'a) \<Rightarrow> json \<Rightarrow> str \<Rightarrow> record_error + 'a list" where
  "items_field read value field =
     (case json_get value field of
        None \<Rightarrow> Ok []
      | Some (JArr items) \<Rightarrow> res_list read items
      | Some _ \<Rightarrow> Err BadRecord)"

definition standing_from_json :: "json \<Rightarrow> record_error + standing_answer" where
  "standing_from_json item =
     res_bind (text_field item (lit ''user_id'')) (\<lambda>user.
     res_bind (text_field item (lit ''set_by'')) (\<lambda>set_by.
     res_bind (instant_field item (lit ''at'')) (\<lambda>at.
     Ok \<lparr>st_user_id = user, st_set_by = set_by, st_at = at\<rparr>)))"

definition attendance_from_json :: "json \<Rightarrow> record_error + attendance_record" where
  "attendance_from_json item =
     res_bind (text_field item (lit ''user_id'')) (\<lambda>user.
     res_bind (ok_or BadRecord (Option.bind (json_get item (lit ''attended'')) as_bool)) (\<lambda>attended.
     res_bind (text_field item (lit ''recorded_by'')) (\<lambda>by'.
     res_bind (instant_field item (lit ''at'')) (\<lambda>at.
     Ok \<lparr>ar_user_id = user, ar_attended = attended, ar_recorded_by = by', ar_at = at\<rparr>))))"

definition fixed_from_json :: "json \<Rightarrow> record_error + fixed_run" where
  "fixed_from_json value =
     res_bind (ok_or BadRecord (Option.bind (Option.bind (json_get value (lit ''weekday'')) as_u64)
                 (\<lambda>day. if day < 7 then Some (weekday_of_index day) else None))) (\<lambda>day.
     res_bind (res_bind (text_field value (lit ''time'')) parse_wall) (\<lambda>time.
     res_bind (text_field value (lit ''id'')) (\<lambda>i.
     res_bind (text_field value (lit ''owner_id'')) (\<lambda>owner_id.
     res_bind (optional_text value (lit ''channel_id'')) (\<lambda>channel_id.
     res_bind (texts_field value (lit ''bosses'')) (\<lambda>bosses.
     res_bind (texts_field value (lit ''participants'')) (\<lambda>participants.
     res_bind (optional_text value (lit ''note'')) (\<lambda>note.
     res_bind (case json_get value (lit ''attendance_default'') of
                 None \<Rightarrow> Ok OptIn
               | Some v \<Rightarrow> ok_or BadRecord (Option.bind (as_str v) attendance_default_parse)) (\<lambda>default.
     res_bind (items_field standing_from_json value (lit ''standing'')) (\<lambda>standing.
     res_bind (case json_get value (lit ''owner_pinned'') of
                 None \<Rightarrow> Ok False
               | Some (JBool pinned) \<Rightarrow> Ok pinned
               | Some _ \<Rightarrow> Err BadRecord) (\<lambda>pinned.
     Ok \<lparr>f_id = i, f_owner_id = owner_id, f_channel_id = channel_id, f_bosses = bosses, f_weekday = day,
         f_time = time, f_participants = participants, f_note = note, f_attendance_default = default,
         f_standing = standing, f_owner_pinned = pinned\<rparr>)))))))))))"

definition pin_from_json :: "json \<Rightarrow> record_error + status_pin" where
  "pin_from_json pin =
     res_bind (res_bind (text_field pin (lit ''status''))
                (\<lambda>s. res_map_err (\<lambda>_. BadRecord) (run_status_parse s))) (\<lambda>status.
     res_bind (instant_field pin (lit ''at'')) (\<lambda>at.
     Ok \<lparr>pin_status = status, pin_at = at\<rparr>))"

definition run_from_json :: "json \<Rightarrow> record_error + run" where
  "run_from_json value =
     res_bind (text_field value (lit ''id'')) (\<lambda>i.
     res_bind (optional_text value (lit ''fixed_run_id'')) (\<lambda>fixed_run_id.
     res_bind (optional_text value (lit ''channel_id'')) (\<lambda>channel_id.
     res_bind (instant_field value (lit ''week_start'')) (\<lambda>week_start.
     res_bind (instant_field value (lit ''datetime'')) (\<lambda>datetime.
     res_bind (texts_field value (lit ''bosses'')) (\<lambda>bosses.
     res_bind (texts_field value (lit ''participants'')) (\<lambda>participants.
     res_bind (res_bind (text_field value (lit ''status''))
                (\<lambda>s. res_map_err (\<lambda>_. BadRecord) (run_status_parse s))) (\<lambda>status.
     res_bind (res_bind (text_field value (lit ''source''))
                (\<lambda>s. res_map_err (\<lambda>_. BadRecord) (run_source_parse s))) (\<lambda>source.
     res_bind (items_field attendance_from_json value (lit ''attendance'')) (\<lambda>attendance.
     res_bind (res_opt pin_from_json (json_get value (lit ''status_pin''))) (\<lambda>pin.
     Ok \<lparr>r_id = i, r_fixed_run_id = fixed_run_id, r_channel_id = channel_id, r_week_start = week_start,
         r_datetime = datetime, r_bosses = bosses, r_participants = participants, r_status = status,
         r_source = source, r_attendance = attendance, r_status_pin = pin\<rparr>)))))))))))"

definition reminder_from_json :: "json \<Rightarrow> record_error + reminder" where
  "reminder_from_json value =
     res_bind (text_field value (lit ''id'')) (\<lambda>i.
     res_bind (text_field value (lit ''run_id'')) (\<lambda>run_id.
     res_bind (text_field value (lit ''kind'')) (\<lambda>kind.
     res_bind (instant_field value (lit ''fire_at'')) (\<lambda>fire_at.
     res_bind (optional_instant_field value (lit ''sent_at'')) (\<lambda>sent_at.
     res_bind (optional_text value (lit ''message_id'')) (\<lambda>message_id.
     Ok \<lparr>m_id = i, m_run_id = run_id, m_kind = kind, m_fire_at = fire_at, m_sent_at = sent_at,
         m_message_id = message_id\<rparr>))))))"

definition rsvp_from_json :: "json \<Rightarrow> record_error + rsvp" where
  "rsvp_from_json value =
     res_bind (text_field value (lit ''run_id'')) (\<lambda>run_id.
     res_bind (text_field value (lit ''user_id'')) (\<lambda>user_id.
     res_bind (res_bind (text_field value (lit ''state''))
                (\<lambda>s. res_map_err (\<lambda>_. BadRecord) (rsvp_state_parse s))) (\<lambda>state.
     res_bind (res_bind (text_field value (lit ''source''))
                (\<lambda>s. res_map_err (\<lambda>_. BadRecord) (rsvp_source_parse s))) (\<lambda>source.
     res_bind (instant_field value (lit ''at'')) (\<lambda>at.
     Ok \<lparr>a_run_id = run_id, a_user_id = user_id, a_state = state, a_source = source, a_at = at\<rparr>)))))"

fun value_from_json :: "row_key \<Rightarrow> json \<Rightarrow> record_error + row_value" where
  "value_from_json (KFixedRun _) value = res_bind (fixed_from_json value) (\<lambda>row. Ok (VFixedRun row))"
| "value_from_json (KRun _) value = res_bind (run_from_json value) (\<lambda>row. Ok (VRun row))"
| "value_from_json (KReminder _) value = res_bind (reminder_from_json value) (\<lambda>row. Ok (VReminder row))"
| "value_from_json (KRsvp _ _) value = res_bind (rsvp_from_json value) (\<lambda>row. Ok (VRsvp row))"

fun run_week :: "row_value \<Rightarrow> instant option" where
  "run_week (VRun row) = Some (r_week_start row)"
| "run_week _ = None"

fun owning_run :: "row_value \<Rightarrow> str option" where
  "owning_run (VReminder row) = Some (m_run_id row)"
| "owning_run (VRsvp row) = Some (a_run_id row)"
| "owning_run (VRun row) = Some (r_id row)"
| "owning_run (VFixedRun _) = None"

section \<open>Rows read back as written\<close>

text \<open>Rows as the store holds them: instants in whole microseconds, clock times in whole seconds.\<close>

fun value_storable :: "row_value \<Rightarrow> bool" where
  "value_storable (VFixedRun row) \<longleftrightarrow> is_clock (f_time row) \<and> fixed_storable row"
| "value_storable (VRun row) \<longleftrightarrow> run_storable row"
| "value_storable (VReminder row) \<longleftrightarrow> reminder_storable row"
| "value_storable (VRsvp row) \<longleftrightarrow> rsvp_storable row"

lemma read_write_iso: "write_iso at = Ok s \<Longrightarrow> instant_storable at \<Longrightarrow> read_iso s = Ok at"
proof -
  assume "write_iso at = Ok s" "instant_storable at"
  then have "from_iso s = Ok (at div 1000 * 1000)" "at mod 1000 = 0"
    using from_iso_to_iso by (auto simp: write_iso_def instant_storable_def)
  then show ?thesis using div_mult_mod_eq [of at 1000] by (simp add: read_iso_def)
qed

lemmas field_defs = text_field_def optional_text_def texts_field_def instant_field_def items_field_def
  optional_instant_field_def json_simps texts_def json_opt_def

lemma res_list_strs: "res_list (\<lambda>item. ok_or BadRecord (as_str item)) (map JStr xs) = Ok xs"
  by (induction xs) simp_all

lemma parse_wall_text:
  assumes "is_clock t" "t mod seconds 1 = 0"
  shows "parse_wall (wall_text t) = Ok t"
proof -
  have t: "0 \<le> t" "t < 86400000000000" "wall_time t = t" "wall_date t = 0"
    using assms(1) by (simp_all add: is_clock_def wall_time_def wall_date_def)
  have year: "python_year t"
    unfolding python_year_def wall_year_def t(4) by code_simp
  obtain y m d where civil: "civil_of_date (wall_date t) = (y, m, d)" by (metis prod_cases3)
  note f = wall_fields [OF year civil, unfolded t(3)]
  have "t mod 1000000000 = 0" using assms(2) by (simp add: seconds_def)
  moreover from this have "t mod 1000 = 0" using mod_mod_cancel [of 1000 1000000000 t] by simp
  then have "t div 1000 * 1000 = t" using div_mult_mod_eq [of t 1000] by linarith
  ultimately have whole: "t mod 1000000000 div 1000 = 0" "t div 1000 * 1000 = t" by simp_all
  have dig: "digits (dec2 n) = Some n \<and> list_all (\<lambda>c. c \<noteq> 58) (dec2 n) \<and> u32_parse (dec2 n) = Some n" if "n < 60" for n
  proof -
    have "digits (dec2 n) = Some n" "list_all ascii_digit (dec2 n)" "dec2 n \<noteq> []"
      using that dec_pad_fields [of n 2] by (simp_all add: dec2_pad digits_dec_pad)
    then show ?thesis by (cases "dec2 n") (auto simp: u32_parse_def ascii_digit_def list_all_iff)
  qed
  let ?s = "nat (t div 1000000000 mod 60)"
  have "wall_hour t < 60" using f(6) by simp
  note dig = dig [OF this] dig [OF f(7)] dig [OF f(8)]
  have "split_on (\<lambda>c. c = 58) [] (dec2 (wall_hour t) @ 58 # dec2 (wall_minute t) @ 58 # dec2 ?s) =
      [dec2 (wall_hour t), dec2 (wall_minute t), dec2 ?s]"
    using dig by (simp add: split_on_parts)
  then show ?thesis
  proof -
    assume parts: "split_on (\<lambda>c. c = 58) [] (dec2 (wall_hour t) @ 58 # dec2 (wall_minute t) @ 58 # dec2 ?s) =
      [dec2 (wall_hour t), dec2 (wall_minute t), dec2 ?s]"
    have "int ?s = t div 1000000000 mod 60" by simp
    then have val: "hours (int (wall_hour t)) + minutes (int (wall_minute t)) + seconds (int ?s) = t"
      using f(10) unfolding whole by simp
    have colon: "lit '':'' = [58]" by (simp add: lit_def)
    show ?thesis
      unfolding parse_wall_def wall_text_def colon append.simps parts
      using dig f(6-8) by (simp only: res_list.simps ok_or_simps res_bind_simps list.case val simp_thms if_True)
  qed
qed

lemma standing_round_trip:
  "standing_to_json s = Ok j \<Longrightarrow> instant_storable (st_at s) \<Longrightarrow> standing_from_json j = Ok s"
  by (auto simp: standing_to_json_def standing_from_json_def field_defs res_bind_Ok_iff read_write_iso)

lemma attendance_round_trip:
  "attendance_to_json rec = Ok j \<Longrightarrow> instant_storable (ar_at rec) \<Longrightarrow> attendance_from_json j = Ok rec"
  by (auto simp: attendance_to_json_def attendance_from_json_def field_defs res_bind_Ok_iff read_write_iso)

lemma spellings_read [simp]:
  "run_status_parse (run_status_str s) = Ok s" "run_source_parse (run_source_str c) = Ok c"
  "rsvp_state_parse (rsvp_state_str a) = Ok a" "rsvp_source_parse (rsvp_source_str b) = Ok b"
  "attendance_default_parse (attendance_default_str d) = Some d"
  by (simp_all add: run_status_parse_def run_source_parse_def rsvp_state_parse_def rsvp_source_parse_def
      spelled_parse_str inj_on_def)
    (cases d; simp add: attendance_default_parse_def spelled_parse_def attendance_defaults_def)

lemma optional_text_opt [simp]: "(case json_opt s of JNull \<Rightarrow> Ok None | JStr s \<Rightarrow> Ok (Some s) | _ \<Rightarrow> Err BadRecord) = Ok s"
  by (cases s) (simp_all add: json_opt_def)

lemma reminder_round_trip:
  assumes "value_to_json (VReminder row) = Ok j" "reminder_storable row"
  shows "reminder_from_json j = Ok row"
proof -
  obtain fire_at sent_at where enc: "write_iso (m_fire_at row) = Ok fire_at"
    "res_opt write_iso (m_sent_at row) = Ok sent_at"
    and j: "j = json_object
        [(lit ''id'', JStr (m_id row)), (lit ''run_id'', JStr (m_run_id row)), (lit ''kind'', JStr (m_kind row)),
         (lit ''fire_at'', JStr fire_at), (lit ''sent_at'', json_opt sent_at),
         (lit ''message_id'', json_opt (m_message_id row))]"
    using assms(1) by (auto simp: res_bind_Ok_iff)
  have "res_opt read_iso sent_at = Ok (m_sent_at row)"
    using enc(2) assms(2) by (auto simp: res_opt_def reminder_storable_def res_bind_Ok_iff read_write_iso split: option.splits)
  then show ?thesis
    using enc(1) assms(2)
    by (simp add: j reminder_from_json_def field_defs(1-6) json_simps read_write_iso reminder_storable_def)
qed

lemma rsvp_round_trip:
  assumes "value_to_json (VRsvp row) = Ok j" "rsvp_storable row"
  shows "rsvp_from_json j = Ok row"
  using assms
  by (auto simp: rsvp_from_json_def rsvp_storable_def field_defs res_bind_Ok_iff read_write_iso)

lemma res_list_round_trip:
  "res_list f xs = Ok js \<Longrightarrow> (\<And>x j. x \<in> set xs \<Longrightarrow> f x = Ok j \<Longrightarrow> g j = Ok x) \<Longrightarrow> res_list g js = Ok xs"
  by (rule res_list_inverse)

lemma run_round_trip:
  assumes "value_to_json (VRun row) = Ok j" "run_storable row"
  shows "run_from_json j = Ok row"
proof -
  obtain week at kvs where enc: "write_iso (r_week_start row) = Ok week" "write_iso (r_datetime row) = Ok at"
    and kvs: "kvs = [(lit ''id'', JStr (r_id row)), (lit ''fixed_run_id'', json_opt (r_fixed_run_id row)),
         (lit ''channel_id'', json_opt (r_channel_id row)), (lit ''week_start'', JStr week),
         (lit ''datetime'', JStr at), (lit ''bosses'', texts (r_bosses row)),
         (lit ''participants'', texts (r_participants row)),
         (lit ''status'', JStr (run_status_str (r_status row))),
         (lit ''source'', JStr (run_source_str (r_source row)))]"
    using assms(1) by (auto simp: res_bind_Ok_iff)
  obtain recs where recs: "res_list attendance_to_json (r_attendance row) = Ok recs"
    using assms(1) by (cases "r_attendance row") (auto simp: res_bind_Ok_iff Let_def split: if_splits)
  define extra where "extra = (if r_attendance row \<noteq> [] then [(lit ''attendance'', JArr recs)] else [])"
  define pins where "pins = (case r_status_pin row of None \<Rightarrow> []
     | Some pin \<Rightarrow> [(lit ''status_pin'', json_object [(lit ''status'', JStr (run_status_str (pin_status pin))),
         (lit ''at'', JStr (case write_iso (pin_at pin) of Inr s \<Rightarrow> s | Inl _ \<Rightarrow> []))])])"
  have pin_ok: "\<exists>s. write_iso (pin_at pin) = Ok s" if "r_status_pin row = Some pin" for pin
    using assms(1) that by (auto simp: res_bind_Ok_iff Let_def)
  have j: "j = json_object (kvs @ extra @ pins)"
    using assms(1) enc recs
    by (auto simp: kvs extra_def pins_def json_simps res_bind_Ok_iff Let_def split: if_splits option.splits)
  have "res_list attendance_from_json recs = Ok (r_attendance row)"
    using recs assms(2) by (rule_tac res_list_round_trip) (auto simp: run_storable_def attendance_round_trip)
  moreover have "res_opt pin_from_json (json_get j (lit ''status_pin'')) = Ok (r_status_pin row)"
  proof (cases "r_status_pin row")
    case (Some pin)
    then obtain s where "write_iso (pin_at pin) = Ok s" using pin_ok by blast
    then show ?thesis
      using Some assms(2)
      by (simp add: j kvs pins_def json_simps res_opt_def pin_from_json_def text_field_def instant_field_def
          run_storable_def read_write_iso)
  qed (simp add: j kvs pins_def extra_def json_simps res_opt_def)
  ultimately show ?thesis
    using enc assms(2) res_list_strs
    by (simp add: run_from_json_def text_field_def texts_field_def texts_def instant_field_def items_field_def
        optional_text_def j kvs extra_def pins_def json_simps read_write_iso run_storable_def split: option.splits)
qed

lemma fixed_round_trip:
  assumes "value_to_json (VFixedRun row) = Ok j" "is_clock (f_time row)" "fixed_storable row"
  shows "fixed_from_json j = Ok row"
proof -
  define kvs where "kvs = [(lit ''id'', JStr (f_id row)), (lit ''owner_id'', JStr (f_owner_id row)),
         (lit ''channel_id'', json_opt (f_channel_id row)), (lit ''bosses'', texts (f_bosses row)),
         (lit ''weekday'', JNum (num_days_from_monday (f_weekday row))),
         (lit ''time'', JStr (wall_text (f_time row))), (lit ''participants'', texts (f_participants row)),
         (lit ''note'', json_opt (f_note row))]"
  obtain rows where rows: "res_list standing_to_json (f_standing row) = Ok rows"
    using assms(1) by (cases "f_standing row") (auto simp: res_bind_Ok_iff Let_def split: if_splits)
  define def_kv where "def_kv = (if f_attendance_default row \<noteq> OptIn
    then [(lit ''attendance_default'', JStr (attendance_default_str (f_attendance_default row)))] else [])"
  define pin_kv where "pin_kv = (if f_owner_pinned row then [(lit ''owner_pinned'', JBool True)] else [])"
  define rows_kv where "rows_kv = (if f_standing row \<noteq> [] then [(lit ''standing'', JArr rows)] else [])"
  have j: "j = json_object (kvs @ def_kv @ pin_kv @ rows_kv)"
    using assms(1) rows
    by (auto simp: kvs_def def_kv_def pin_kv_def rows_kv_def json_simps res_bind_Ok_iff Let_def split: if_splits)
  have "res_list standing_from_json rows = Ok (f_standing row)"
    using rows assms(3) by (rule_tac res_list_round_trip) (auto simp: fixed_storable_def standing_round_trip)
  moreover have "weekday_of_index (num_days_from_monday (f_weekday row)) = f_weekday row"
    by (cases "f_weekday row") simp_all
  moreover have "parse_wall (wall_text (f_time row)) = Ok (f_time row)"
    using parse_wall_text assms(2,3) by (simp add: fixed_storable_def)
  ultimately show ?thesis
    using res_list_strs rows
    by (simp add: fixed_from_json_def text_field_def texts_field_def texts_def items_field_def
        optional_text_def j kvs_def def_kv_def pin_kv_def rows_kv_def json_simps del: weekday_of_index.simps)
qed

theorem value_round_trip:
  "value_to_json v = Ok j \<Longrightarrow> value_storable v \<Longrightarrow> value_from_json (value_key v) j = Ok v"
  by (cases v) (simp_all add: fixed_round_trip run_round_trip reminder_round_trip rsvp_round_trip
      del: value_to_json.simps)

lemma key_round_trip: "key_from_json (key_to_json k) = Ok k"
  by (cases k) (simp_all add: key_from_json_def text_field_def json_simps)

text \<open>Everything written is a JSON value.\<close>

lemma json_ok_texts [simp]: "json_ok (texts xs)"
  by (simp add: texts_def list_all_iff)

lemma json_ok_standing: "standing_to_json s = Ok j \<Longrightarrow> json_ok j"
  by (auto simp: standing_to_json_def res_bind_Ok_iff intro!: json_ok_object)

lemma json_ok_attendance: "attendance_to_json rec = Ok j \<Longrightarrow> json_ok j"
  by (auto simp: attendance_to_json_def res_bind_Ok_iff intro!: json_ok_object)

lemma json_ok_value:
  assumes "value_to_json v = Ok j"
  shows "json_ok j"
proof (cases v)
  case (VFixedRun row)
  have "num_days_from_monday (f_weekday row) < 2 ^ 64"
    using num_days_less [of "f_weekday row"] by (rule less_trans) simp
  then show ?thesis
    using assms VFixedRun res_list_all [of standing_to_json "f_standing row" _ json_ok, OF _ json_ok_standing]
    by (auto simp: Let_def res_bind_Ok_iff split: if_splits intro!: json_ok_insert json_ok_object)
next
  case (VRun row)
  then show ?thesis
    using assms res_list_all [of attendance_to_json "r_attendance row" _ json_ok, OF _ json_ok_attendance]
    by (auto simp: Let_def res_bind_Ok_iff split: if_splits option.splits intro!: json_ok_insert json_ok_object)
qed (use assms in \<open>auto simp: res_bind_Ok_iff intro!: json_ok_object\<close>)

section \<open>Records\<close>

text \<open>What a change is about and expects (\<open>blame.rs\<close>, \<open>precondition.rs\<close>).\<close>

datatype blame_target = OnRun (target_id: str) | OnFixedRun (target_id: str)

record precondition =
  pc_target :: blame_target
  pc_field :: str
  pc_seen :: "nat option"

record change_ref =
  cr_seq :: nat
  cr_hash :: str

record expect =
  ex_fields :: "precondition list"
  ex_overrides :: "change_ref list"

record change_meta =
  cm_origin :: origin
  cm_at :: instant
  cm_notices :: "str list"
  cm_refs :: "change_ref list"
  cm_request_digest :: "str option"
  cm_expect :: expect
  cm_outbox :: "notice list"

record row_change =
  rc_key :: row_key
  rc_before :: "row_value option"
  rc_after :: "row_value option"

record change_record =
  ch_seq :: nat
  ch_id :: str
  ch_revision :: nat
  ch_at :: instant
  ch_origin :: origin
  ch_weeks :: "instant list"
  ch_rows :: "row_change list"
  ch_notices :: "str list"
  ch_refs :: "change_ref list"
  ch_prev_hash :: str
  ch_hash :: str

definition change_format :: str where
  "change_format = lit ''kanade.change.v1''"

definition genesis_prev_hash :: str where
  "genesis_prev_hash = replicate 64 48"

definition row_to_json :: "row_change \<Rightarrow> record_error + json" where
  "row_to_json row =
     res_bind (res_opt value_to_json (rc_before row)) (\<lambda>before.
     res_bind (res_opt value_to_json (rc_after row)) (\<lambda>after.
     Ok (json_object [(lit ''key'', key_to_json (rc_key row)),
           (lit ''before'', case before of None \<Rightarrow> JNull | Some v \<Rightarrow> v),
           (lit ''after'', case after of None \<Rightarrow> JNull | Some v \<Rightarrow> v)])))"

definition ref_to_json :: "change_ref \<Rightarrow> json" where
  "ref_to_json r = json_object [(lit ''seq'', JNum (cr_seq r)), (lit ''hash'', JStr (cr_hash r))]"

definition record_body :: "change_record \<Rightarrow> record_error + json" where
  "record_body r =
     res_bind (res_list row_to_json (ch_rows r)) (\<lambda>rows.
     res_bind (write_iso (ch_at r)) (\<lambda>at.
     res_bind (res_list write_iso (ch_weeks r)) (\<lambda>weeks.
     Ok (json_object
       [(lit ''format'', JStr change_format), (lit ''seq'', JNum (ch_seq r)), (lit ''id'', JStr (ch_id r)),
        (lit ''revision'', JNum (ch_revision r)), (lit ''at'', JStr at),
        (lit ''actor'', json_object [(lit ''kind'', JStr (actor_kind (og_actor (ch_origin r)))),
                                     (lit ''id'', JStr (actor_id (og_actor (ch_origin r))))]),
        (lit ''surface'', JStr (surface_str (og_surface (ch_origin r)))),
        (lit ''request_id'', json_opt (og_request_id (ch_origin r))), (lit ''weeks'', texts weeks),
        (lit ''rows'', JArr rows), (lit ''notices'', texts (ch_notices r)),
        (lit ''refs'', JArr (map ref_to_json (ch_refs r))), (lit ''prev_hash'', JStr (ch_prev_hash r))]))))"

definition record_canonical :: "codec \<Rightarrow> change_record \<Rightarrow> record_error + str" where
  "record_canonical cd r = res_bind (record_body r) (\<lambda>body. Ok (cd_write cd body))"

definition computed_hash :: "codec \<Rightarrow> change_record \<Rightarrow> record_error + str" where
  "computed_hash cd r = res_bind (record_canonical cd r) (\<lambda>txt. Ok (sha256_hex cd txt))"

definition record_seal ::
  "codec \<Rightarrow> (nat \<times> str) option \<Rightarrow> str \<Rightarrow> nat \<Rightarrow> change_meta \<Rightarrow> instant list \<Rightarrow> row_change list
    \<Rightarrow> record_error + change_record" where
  "record_seal cd prev ident revision meta weeks rows =
     (let r =
        \<lparr>ch_seq = (case prev of None \<Rightarrow> 0 | Some (n, _) \<Rightarrow> n + 1), ch_id = ident, ch_revision = revision,
         ch_at = cm_at meta, ch_origin = cm_origin meta, ch_weeks = remdups_adj (sort weeks),
         ch_rows = sort_key rc_key rows, ch_notices = cm_notices meta, ch_refs = cm_refs meta,
         ch_prev_hash = (case prev of None \<Rightarrow> genesis_prev_hash | Some (_, hash) \<Rightarrow> hash), ch_hash = []\<rparr>
      in res_bind (computed_hash cd r) (\<lambda>hash. Ok (r\<lparr>ch_hash := hash\<rparr>)))"

definition record_genesis :: "codec \<Rightarrow> nat \<Rightarrow> record_error + change_record" where
  "record_genesis cd revision =
     record_seal cd None (lit ''genesis'') revision
       \<lparr>cm_origin = origin_new (ActSystem (lit ''store'')) Import, cm_at = 0, cm_notices = [], cm_refs = [],
        cm_request_digest = None, cm_expect = \<lparr>ex_fields = [], ex_overrides = []\<rparr>, cm_outbox = []\<rparr> [] []"

text \<open>Whether stored text is the stored form of a record.\<close>

definition check_stored :: "codec \<Rightarrow> change_record \<Rightarrow> str \<Rightarrow> str + unit" where
  "check_stored cd r body =
     (if sha256_hex cd body \<noteq> ch_hash r then Err (lit ''stored bytes do not match the hash'')
      else
        (case record_canonical cd r of
           Inr whole \<Rightarrow>
             if whole = body then Ok () else Err (lit ''stored body is not canonical'')
         | Inl _ \<Rightarrow> Err (lit ''unreadable change record'')))"

definition record_reference :: "change_record \<Rightarrow> change_ref" where
  "record_reference r = \<lparr>cr_seq = ch_seq r, cr_hash = ch_hash r\<rparr>"

definition row_from_json :: "json \<Rightarrow> record_error + row_change" where
  "row_from_json row =
     res_bind (res_bind (ok_or BadRecord (json_get row (lit ''key''))) key_from_json) (\<lambda>key.
     let side = (\<lambda>field.
       case json_get row field of
         None \<Rightarrow> Ok None
       | Some JNull \<Rightarrow> Ok None
       | Some value \<Rightarrow> res_bind (value_from_json key value) (\<lambda>v. Ok (Some v)))
     in
     res_bind (side (lit ''before'')) (\<lambda>before.
     res_bind (side (lit ''after'')) (\<lambda>after.
     Ok \<lparr>rc_key = key, rc_before = before, rc_after = after\<rparr>)))"

definition ref_from_json :: "json \<Rightarrow> record_error + change_ref" where
  "ref_from_json item =
     res_bind (unsigned_field item (lit ''seq'')) (\<lambda>seq.
     res_bind (text_field item (lit ''hash'')) (\<lambda>hash. Ok \<lparr>cr_seq = seq, cr_hash = hash\<rparr>))"

definition array_field :: "json \<Rightarrow> str \<Rightarrow> record_error + json list" where
  "array_field value field = ok_or BadRecord (Option.bind (json_get value field) as_array)"

definition record_parse :: "codec \<Rightarrow> str \<Rightarrow> str \<Rightarrow> record_error + change_record" where
  "record_parse cd body hash =
     res_bind (ok_or BadRecord (cd_read cd body)) (\<lambda>value.
     if Option.bind (json_get value (lit ''format'')) as_str \<noteq> Some change_format then Err BadRecord
     else
       res_bind (ok_or BadRecord (json_get value (lit ''actor''))) (\<lambda>act.
       res_bind (text_field act (lit ''kind'')) (\<lambda>kind.
       res_bind (text_field act (lit ''id'')) (\<lambda>who.
       res_bind (ok_or BadRecord (actor_from_parts kind who)) (\<lambda>actor.
       res_bind (text_field value (lit ''surface'')) (\<lambda>surface.
       res_bind (ok_or BadRecord (surface_parse surface)) (\<lambda>surface.
       res_bind (res_bind (texts_field value (lit ''weeks'')) (res_list read_iso)) (\<lambda>weeks.
       res_bind (res_bind (array_field value (lit ''rows'')) (res_list row_from_json)) (\<lambda>rows.
       res_bind (unsigned_field value (lit ''seq'')) (\<lambda>seq.
       res_bind (text_field value (lit ''id'')) (\<lambda>ident.
       res_bind (unsigned_field value (lit ''revision'')) (\<lambda>revision.
       res_bind (instant_field value (lit ''at'')) (\<lambda>at.
       res_bind (optional_text value (lit ''request_id'')) (\<lambda>request_id.
       res_bind (texts_field value (lit ''notices'')) (\<lambda>notices.
       res_bind (res_bind (array_field value (lit ''refs'')) (res_list ref_from_json)) (\<lambda>refs.
       res_bind (text_field value (lit ''prev_hash'')) (\<lambda>prev_hash.
       Ok \<lparr>ch_seq = seq, ch_id = ident, ch_revision = revision, ch_at = at,
           ch_origin = \<lparr>og_actor = actor, og_surface = surface, og_request_id = request_id\<rparr>,
           ch_weeks = weeks, ch_rows = rows, ch_notices = notices, ch_refs = refs,
           ch_prev_hash = prev_hash, ch_hash = hash\<rparr>)))))))))))))))))"

definition touches_week :: "change_record \<Rightarrow> instant \<Rightarrow> bool" where
  "touches_week r week \<longleftrightarrow> contains (ch_weeks r) week"

section \<open>Records read back as sealed\<close>

definition row_storable :: "row_change \<Rightarrow> bool" where
  "row_storable row \<longleftrightarrow>
     (\<forall>v. rc_before row = Some v \<or> rc_after row = Some v \<longrightarrow> value_key v = rc_key row \<and> value_storable v)"

text \<open>The source's counters are 64-bit.\<close>

definition record_u64 :: "change_record \<Rightarrow> bool" where
  "record_u64 r \<longleftrightarrow>
     ch_seq r < 2 ^ 64 \<and> ch_revision r < 2 ^ 64 \<and> (\<forall>ref \<in> set (ch_refs r). cr_seq ref < 2 ^ 64)"

text \<open>The records a store holds: rows under their own keys, in whole microseconds.\<close>

definition record_storable :: "change_record \<Rightarrow> bool" where
  "record_storable r \<longleftrightarrow>
     record_u64 r \<and>
     instant_storable (ch_at r) \<and> (\<forall>week \<in> set (ch_weeks r). instant_storable week) \<and>
     (\<forall>row \<in> set (ch_rows r). row_storable row)"

lemma value_json_not_null: "value_to_json v = Ok j \<Longrightarrow> j \<noteq> JNull"
  by (cases v) (auto simp: Let_def json_simps json_object_def res_bind_Ok_iff split: if_splits option.splits)

lemma row_round_trip:
  assumes "row_to_json row = Ok j" "row_storable row"
  shows "row_from_json j = Ok row"
proof -
  have side: "(case (case x of None \<Rightarrow> JNull | Some v \<Rightarrow> v) of JNull \<Rightarrow> Ok None
      | value \<Rightarrow> res_bind (value_from_json (rc_key row) value) (\<lambda>v. Ok (Some v))) = Ok y"
    if "res_opt value_to_json y = Ok x" "\<And>v. y = Some v \<Longrightarrow> value_key v = rc_key row \<and> value_storable v" for x y
  proof (cases y)
    case (Some v)
    note enc = that(1)
    obtain j' where j': "value_to_json v = Ok j'" "x = Some j'"
      using enc Some by (auto simp: res_opt_def res_bind_Ok_iff)
    have "value_from_json (rc_key row) j' = Ok v"
      using value_round_trip [OF j'(1)] that(2) [OF Some] by simp
    then show ?thesis
      using value_json_not_null [OF j'(1)] by (cases j') (simp_all add: j'(2) Some)
  qed (use that in \<open>simp add: res_opt_def\<close>)
  obtain x y where xy: "res_opt value_to_json (rc_before row) = Ok x" "res_opt value_to_json (rc_after row) = Ok y"
    and j: "j = json_object [(lit ''key'', key_to_json (rc_key row)),
           (lit ''before'', case x of None \<Rightarrow> JNull | Some v \<Rightarrow> v), (lit ''after'', case y of None \<Rightarrow> JNull | Some v \<Rightarrow> v)]"
    using assms(1) by (auto simp: row_to_json_def res_bind_Ok_iff)
  show ?thesis
    using side [OF xy(1)] side [OF xy(2)] assms(2)
    by (simp add: j row_from_json_def json_simps key_round_trip row_storable_def)
qed

lemma ref_round_trip: "ref_from_json (ref_to_json r) = Ok r"
  by (simp add: ref_from_json_def ref_to_json_def unsigned_field_def text_field_def json_simps)

lemma actor_round_trip: "actor_from_parts (actor_kind a) (actor_id a) = Some a"
  by (cases a) (simp_all add: actor_from_parts_def)

lemma surface_round_trip: "surface_parse (surface_str s) = Some s"
proof -
  have "s \<in> set surfaces" by (cases s) (simp_all add: surfaces_def)
  moreover have "surface_str a = surface_str b \<Longrightarrow> a = b" for a b
    by (cases a; cases b) simp_all
  ultimately show ?thesis unfolding surface_parse_def by (intro spelled_parse_str) (auto simp: inj_on_def)
qed

lemma json_ok_key [simp]: "json_ok (key_to_json k)"
  by (cases k) (auto intro!: json_ok_object)

lemma json_ok_side:
  assumes "res_opt value_to_json y = Ok x"
  shows "json_ok (case x of None \<Rightarrow> JNull | Some v \<Rightarrow> v)"
  using assms by (cases y) (auto simp: res_opt_def res_bind_Ok_iff intro: json_ok_value)

lemma json_ok_row:
  assumes "row_to_json row = Ok j"
  shows "json_ok j"
proof -
  obtain x y where xy: "res_opt value_to_json (rc_before row) = Ok x" "res_opt value_to_json (rc_after row) = Ok y"
    and j: "j = json_object [(lit ''key'', key_to_json (rc_key row)),
           (lit ''before'', case x of None \<Rightarrow> JNull | Some v \<Rightarrow> v), (lit ''after'', case y of None \<Rightarrow> JNull | Some v \<Rightarrow> v)]"
    using assms by (auto simp: row_to_json_def res_bind_Ok_iff)
  show ?thesis
    unfolding j using json_ok_side [OF xy(1)] json_ok_side [OF xy(2)] by (intro json_ok_object) simp
qed

lemma json_ok_body:
  assumes "record_body r = Ok j" "record_u64 r"
  shows "json_ok j"
  using assms res_list_all [of row_to_json "ch_rows r" _ json_ok, OF _ json_ok_row]
  by (auto simp: record_body_def record_u64_def res_bind_Ok_iff ref_to_json_def list_all_iff
      intro!: json_ok_object)

lemma record_parse_body:
  assumes codec: "codec_ok cd" and body: "record_body r = Ok j" and ok: "record_storable r"
  shows "record_parse cd (cd_write cd j) hash = Ok (r\<lparr>ch_hash := hash\<rparr>)"
proof -
  have read: "cd_read cd (cd_write cd j) = Some j"
    using codec json_ok_body [OF body] ok by (simp add: codec_ok_def record_storable_def)
  obtain rows at weeks where enc: "res_list row_to_json (ch_rows r) = Ok rows" "write_iso (ch_at r) = Ok at"
      "res_list write_iso (ch_weeks r) = Ok weeks"
    and j: "j = json_object
       [(lit ''format'', JStr change_format), (lit ''seq'', JNum (ch_seq r)), (lit ''id'', JStr (ch_id r)),
        (lit ''revision'', JNum (ch_revision r)), (lit ''at'', JStr at),
        (lit ''actor'', json_object [(lit ''kind'', JStr (actor_kind (og_actor (ch_origin r)))),
                                     (lit ''id'', JStr (actor_id (og_actor (ch_origin r))))]),
        (lit ''surface'', JStr (surface_str (og_surface (ch_origin r)))),
        (lit ''request_id'', json_opt (og_request_id (ch_origin r))), (lit ''weeks'', texts weeks),
        (lit ''rows'', JArr rows), (lit ''notices'', texts (ch_notices r)),
        (lit ''refs'', JArr (map ref_to_json (ch_refs r))), (lit ''prev_hash'', JStr (ch_prev_hash r))]"
    using body by (auto simp: record_body_def res_bind_Ok_iff)
  have "res_list row_from_json rows = Ok (ch_rows r)"
    using enc(1) ok by (rule_tac res_list_round_trip) (auto simp: record_storable_def row_round_trip)
  moreover have "res_list read_iso weeks = Ok (ch_weeks r)"
    using enc(3) ok by (rule_tac res_list_round_trip) (auto simp: record_storable_def read_write_iso)
  moreover have "read_iso at = Ok (ch_at r)" using enc(2) ok by (simp add: record_storable_def read_write_iso)
  moreover have "res_list ref_from_json (map ref_to_json refs) = Ok refs" for refs
    by (induction refs) (simp_all add: ref_round_trip)
  ultimately show ?thesis
    unfolding record_parse_def read using res_list_strs
    by (simp add: j json_simps text_field_def texts_field_def texts_def instant_field_def
        optional_text_def unsigned_field_def array_field_def actor_round_trip surface_round_trip)
qed

end
