(* ===== verification/History.thy ===== *)
theory History
  imports ChangeRecord
begin

text \<open>
  The hash chain of the change history (\<open>history/port.rs\<close>, \<open>rewind.rs\<close>): re-checking every stored
  record, and checking the records a rewind is given. What the checks mean is the predicate
  \<open>linked\<close>; two histories that pass and end in the same hash are the same, up to collisions of
  the hash function, which stays a parameter.
\<close>

section \<open>Verification of the stored chain\<close>

text \<open>A record as read from storage, or where and why it could not be read.\<close>

type_synonym stored_record = "(nat \<times> str) + (change_record \<times> str)"

record history_verification =
  hv_records :: nat
  hv_head :: "change_ref option"
  hv_first_broken :: "(nat \<times> str) option"

definition is_intact :: "history_verification \<Rightarrow> bool" where
  "is_intact v \<longleftrightarrow> hv_first_broken v = None"

text \<open>The loop: the expected position, the hash of the record before, the result so far.\<close>

fun verify_loop ::
  "codec \<Rightarrow> nat \<Rightarrow> str \<Rightarrow> history_verification \<Rightarrow> stored_record list \<Rightarrow> history_verification" where
  "verify_loop cd expected prev result [] = result"
| "verify_loop cd expected prev result (Inl broken # entries) = result\<lparr>hv_first_broken := Some broken\<rparr>"
| "verify_loop cd expected prev result (Inr (r, body) # entries) =
     (let broken =
        (if ch_seq r \<noteq> expected then Some (ch_seq r, lit ''expected seq '' @ dec expected)
         else if ch_prev_hash r \<noteq> prev then
           Some (ch_seq r, lit ''prev_hash does not match the previous record'')
         else
           (case check_stored cd r body of Inl reason \<Rightarrow> Some (ch_seq r, reason) | Inr _ \<Rightarrow> None))
      in case broken of
        Some b \<Rightarrow> result\<lparr>hv_first_broken := Some b\<rparr>
      | None \<Rightarrow>
          verify_loop cd (expected + 1) (ch_hash r)
            (result\<lparr>hv_records := hv_records result + 1, hv_head := Some (record_reference r), hv_first_broken := None\<rparr>)
            entries)"

definition verify_chain :: "codec \<Rightarrow> stored_record list \<Rightarrow> history_verification" where
  "verify_chain cd entries =
     verify_loop cd 0 genesis_prev_hash \<lparr>hv_records = 0, hv_head = None, hv_first_broken = None\<rparr> entries"

text \<open>What a history is: records at consecutive positions, each naming the hash of the one before
  and stored as its canonical text under the hash of that text.\<close>

fun linked :: "codec \<Rightarrow> nat \<Rightarrow> str \<Rightarrow> (change_record \<times> str) list \<Rightarrow> bool" where
  "linked cd n prev [] \<longleftrightarrow> True"
| "linked cd n prev ((r, body) # rest) \<longleftrightarrow>
     ch_seq r = n \<and> ch_prev_hash r = prev \<and> sha256_hex cd body = ch_hash r \<and>
     record_canonical cd r = Ok body \<and> linked cd (n + 1) (ch_hash r) rest"

lemma check_stored_Ok_iff:
  "check_stored cd r body = Ok u \<longleftrightarrow> sha256_hex cd body = ch_hash r \<and> record_canonical cd r = Ok body"
  by (auto simp: check_stored_def split: sum.splits if_splits)

definition last_head :: "(change_record \<times> str) list \<Rightarrow> change_ref option \<Rightarrow> change_ref option" where
  "last_head stored head = (if stored = [] then head else Some (record_reference (fst (last stored))))"

lemma verify_loop_intact:
  assumes "hv_first_broken result = None"
  shows "hv_first_broken (verify_loop cd n prev result entries) = None \<longleftrightarrow>
    (\<exists>stored. entries = map Inr stored \<and> linked cd n prev stored)"
    "linked cd n prev stored \<Longrightarrow> verify_loop cd n prev result (map Inr stored) =
       result\<lparr>hv_records := hv_records result + length stored, hv_head := last_head stored (hv_head result)\<rparr>"
proof -
  show "hv_first_broken (verify_loop cd n prev result entries) = None \<longleftrightarrow>
    (\<exists>stored. entries = map Inr stored \<and> linked cd n prev stored)"
    using assms
  proof (induction cd n prev result entries rule: verify_loop.induct)
    case (3 cd n prev result r body entries)
    have cons: "(\<exists>stored. Inr (r, body) # entries = map Inr stored \<and> linked cd n prev stored) \<longleftrightarrow>
        ch_seq r = n \<and> ch_prev_hash r = prev \<and> check_stored cd r body = Ok () \<and>
        (\<exists>stored. entries = map Inr stored \<and> linked cd (n + 1) (ch_hash r) stored)"
      by (auto simp: Cons_eq_map_conv check_stored_Ok_iff)
    show ?case
      unfolding cons using 3 by (auto simp: Let_def split: sum.splits)
  qed auto
  show "linked cd n prev stored \<Longrightarrow> verify_loop cd n prev result (map Inr stored) =
       result\<lparr>hv_records := hv_records result + length stored, hv_head := last_head stored (hv_head result)\<rparr>"
    using assms
  proof (induction cd n prev stored arbitrary: result rule: linked.induct)
    case (2 cd n prev r body rest)
    then have "check_stored cd r body = Ok ()" by (simp add: check_stored_Ok_iff)
    then show ?case using 2 by (simp add: last_head_def)
  qed (simp add: last_head_def)
qed

lemma verify_chain_intact:
  "is_intact (verify_chain cd entries) \<longleftrightarrow>
    (\<exists>stored. entries = map Inr stored \<and> linked cd 0 genesis_prev_hash stored)"
  by (simp add: is_intact_def verify_chain_def verify_loop_intact(1))

lemma verify_stored_intact:
  "is_intact (verify_chain cd (map Inr stored)) \<longleftrightarrow> linked cd 0 genesis_prev_hash stored"
proof -
  have "inj (Inr :: change_record \<times> str \<Rightarrow> stored_record)" by (simp add: inj_on_def)
  then show ?thesis unfolding verify_chain_intact by (metis inj_map_eq_map)
qed

lemma verify_chain_result:
  "linked cd 0 genesis_prev_hash stored \<Longrightarrow>
   hv_records (verify_chain cd (map Inr stored)) = length stored \<and>
   hv_head (verify_chain cd (map Inr stored)) = last_head stored None"
  by (simp add: verify_chain_def verify_loop_intact(2))


lemma linked_snoc:
  "linked cd n prev (stored @ [(r, body)]) \<longleftrightarrow>
     linked cd n prev stored \<and> ch_seq r = n + length stored \<and>
     ch_prev_hash r = (if stored = [] then prev else ch_hash (fst (last stored))) \<and>
     sha256_hex cd body = ch_hash r \<and> record_canonical cd r = Ok body"
  by (induction cd n prev stored rule: linked.induct) auto

lemma linked_last: "linked cd 0 prev stored \<Longrightarrow> stored \<noteq> [] \<Longrightarrow> ch_seq (fst (last stored)) = length stored - 1"
  by (cases stored rule: rev_cases) (auto simp: linked_snoc)

lemma canonical_prev_hash:
  assumes "codec_ok cd" "record_u64 a" "record_u64 b"
    and "record_canonical cd a = Ok body" "record_canonical cd b = Ok body"
  shows "ch_prev_hash a = ch_prev_hash b"
proof -
  obtain j j' where j: "record_body a = Ok j" "cd_write cd j = body" "record_body b = Ok j'" "cd_write cd j' = body"
    using assms(4,5) by (auto simp: record_canonical_def res_bind_Ok_iff)
  then have "j = j'" using codec_inject [OF assms(1)] json_ok_body assms(2,3) by metis
  moreover have "json_get j (lit ''prev_hash'') = Some (JStr (ch_prev_hash a))"
    "json_get j' (lit ''prev_hash'') = Some (JStr (ch_prev_hash b))"
    using j(1,3) by (auto simp: record_body_def res_bind_Ok_iff json_simps)
  ultimately show ?thesis by simp
qed

text \<open>Two texts with one hash.\<close>

definition collides :: "codec \<Rightarrow> str list \<Rightarrow> bool" where
  "collides cd bodies \<longleftrightarrow> (\<exists>a \<in> set bodies. \<exists>b \<in> set bodies. a \<noteq> b \<and> sha256_hex cd a = sha256_hex cd b)"

lemma collides_mono: "collides cd as \<Longrightarrow> set as \<subseteq> set bs \<Longrightarrow> collides cd bs"
  unfolding collides_def by blast

lemma linked_agree:
  assumes codec: "codec_ok cd"
  shows "linked cd 0 genesis_prev_hash xs \<Longrightarrow> linked cd 0 genesis_prev_hash ys \<Longrightarrow>
    \<forall>r \<in> fst ` set (xs @ ys). record_u64 r \<Longrightarrow> last_head xs None = last_head ys None \<Longrightarrow>
    map snd xs = map snd ys \<or> collides cd (map snd (xs @ ys))"
proof (induction xs arbitrary: ys rule: rev_induct)
  case Nil
  then show ?case by (simp add: last_head_def split: if_splits)
next
  case (snoc x xs)
  obtain r body where x: "x = (r, body)" by (cases x)
  obtain ys' y where ys: "ys = ys' @ [y]"
    using snoc.prems(4) by (cases ys rule: rev_cases) (auto simp: last_head_def)
  obtain r' body' where y: "y = (r', body')" by (cases y)
  have links: "linked cd 0 genesis_prev_hash xs" "linked cd 0 genesis_prev_hash ys'"
    "sha256_hex cd body = ch_hash r" "sha256_hex cd body' = ch_hash r'" "ch_seq r = length xs" "ch_seq r' = length ys'"
    "record_canonical cd r = Ok body" "record_canonical cd r' = Ok body'"
    "ch_prev_hash r = (if xs = [] then genesis_prev_hash else ch_hash (fst (last xs)))"
    "ch_prev_hash r' = (if ys' = [] then genesis_prev_hash else ch_hash (fst (last ys')))"
    using snoc.prems(1,2) by (auto simp: x y ys linked_snoc)
  have same: "ch_seq r = ch_seq r'" "ch_hash r = ch_hash r'"
    using snoc.prems(4) by (simp_all add: x y ys last_head_def record_reference_def)
  show ?case
  proof (cases "body = body'")
    case False
    then show ?thesis using links(3,4) same(2) by (auto simp: collides_def x y ys)
  next
    case True
    have "ch_prev_hash r = ch_prev_hash r'"
      using canonical_prev_hash [OF codec _ _ links(7)] links(8) True snoc.prems(3) by (simp add: x y ys)
    moreover have len: "length xs = length ys'" using links(5,6) same(1) by simp
    ultimately have "last_head xs None = last_head ys' None"
      using links(9,10) linked_last [OF links(1)] linked_last [OF links(2)]
      by (auto simp: last_head_def record_reference_def)
    then have "map snd xs = map snd ys' \<or> collides cd (map snd (xs @ ys'))"
      using snoc.IH [OF links(1,2)] snoc.prems(3) by (auto simp: x y ys)
    then show ?thesis
    proof
      assume "collides cd (map snd (xs @ ys'))"
      then have "collides cd (map snd ((xs @ [x]) @ ys))" by (rule collides_mono) (auto simp: ys)
      then show ?thesis by blast
    qed (use True in \<open>simp add: x y ys\<close>)
  qed
qed

text \<open>C24. The hash at the head fixes the whole history: two stored histories that both verify and end
  in the same record hold the same texts throughout, unless two of the texts collide under
  SHA-256. An edited, dropped or inserted record cannot keep the head.\<close>

theorem head_fixes_history:
  assumes "codec_ok cd"
    and "is_intact (verify_chain cd (map Inr xs))" "is_intact (verify_chain cd (map Inr ys))"
    and "hv_head (verify_chain cd (map Inr xs)) = hv_head (verify_chain cd (map Inr ys))"
    and "\<forall>r \<in> fst ` set (xs @ ys). record_u64 r"
  shows "map snd xs = map snd ys \<or>
    (\<exists>a \<in> set (map snd (xs @ ys)). \<exists>b \<in> set (map snd (xs @ ys)). a \<noteq> b \<and> sha256_hex cd a = sha256_hex cd b)"
proof -
  have "linked cd 0 genesis_prev_hash xs" "linked cd 0 genesis_prev_hash ys"
    using assms(2,3) by (simp_all add: verify_stored_intact)
  then show ?thesis
    using linked_agree [OF assms(1), of xs ys] assms(4,5) verify_chain_result
    unfolding collides_def by metis
qed

section \<open>Appending\<close>

lemma record_body_hash [simp]: "record_body (r\<lparr>ch_hash := h\<rparr>) = record_body r"
  by (simp add: record_body_def)

lemma sealed:
  assumes "record_seal cd prev ident revision meta weeks rows = Ok r"
  obtains body where "record_canonical cd r = Ok body" "sha256_hex cd body = ch_hash r"
    "ch_seq r = (case prev of None \<Rightarrow> 0 | Some (n, _) \<Rightarrow> n + 1)"
    "ch_prev_hash r = (case prev of None \<Rightarrow> genesis_prev_hash | Some (_, hash) \<Rightarrow> hash)"
    "ch_revision r = revision" "ch_rows r = sort_key rc_key rows"
    "ch_refs r = cm_refs meta" "ch_at r = cm_at meta" "ch_weeks r = remdups_adj (sort weeks)"
proof -
  define r0 where "r0 = \<lparr>ch_seq = (case prev of None \<Rightarrow> 0 | Some (n, _) \<Rightarrow> n + 1), ch_id = ident,
      ch_revision = revision, ch_at = cm_at meta, ch_origin = cm_origin meta, ch_weeks = remdups_adj (sort weeks),
      ch_rows = sort_key rc_key rows, ch_notices = cm_notices meta, ch_refs = cm_refs meta,
      ch_prev_hash = (case prev of None \<Rightarrow> genesis_prev_hash | Some (_, hash) \<Rightarrow> hash), ch_hash = []\<rparr>"
  obtain hash where hash: "computed_hash cd r0 = Ok hash" "r = r0\<lparr>ch_hash := hash\<rparr>"
    using assms by (auto simp: record_seal_def Let_def res_bind_Ok_iff r0_def)
  obtain body where body: "record_canonical cd r0 = Ok body" "sha256_hex cd body = hash"
    using hash(1) by (auto simp: computed_hash_def res_bind_Ok_iff)
  show thesis
  proof (rule that)
    show "record_canonical cd r = Ok body" using body(1) by (simp add: hash(2) record_canonical_def)
  qed (simp_all add: hash(2) body(2) r0_def)
qed


lemma genesis_sealed: "\<exists>r. record_genesis cd revision = Ok r"
proof -
  have "python_year 0" by code_simp
  then show ?thesis
    by (simp add: record_genesis_def record_seal_def computed_hash_def record_canonical_def record_body_def
        write_iso_def to_iso_def)
qed

text \<open>The genesis record of a store, and the history that holds it alone.\<close>

lemma genesis_storable:
  assumes "record_genesis cd 0 = Ok r"
  shows "record_storable r"
proof -
  have "python_year 0" by code_simp
  moreover have "ch_seq r = 0" "ch_revision r = 0" "ch_refs r = []" "ch_at r = 0" "ch_weeks r = []" "ch_rows r = []"
    using assms unfolding record_genesis_def by (auto elim!: sealed)
  ultimately show ?thesis by (simp add: record_storable_def record_u64_def instant_storable_def)
qed


lemma genesis_history:
  obtains r body where "record_genesis plain_codec 0 = Ok r" "linked plain_codec 0 genesis_prev_hash [(r, body)]"
proof -
  obtain r where r: "record_genesis plain_codec 0 = Ok r" using genesis_sealed by blast
  then obtain body where "record_canonical plain_codec r = Ok body" "sha256_hex plain_codec body = ch_hash r"
    "ch_seq r = 0" "ch_prev_hash r = genesis_prev_hash"
    unfolding record_genesis_def by (auto elim!: sealed)
  then show thesis using that [of r body] r by simp
qed


theorem head_fixes_history_witness:
  "\<exists>r body. is_intact (verify_chain plain_codec [Inr (r, body)]) \<and>
     (map snd [(r, body)] = map snd [(r, body)] \<or>
      (\<exists>a \<in> {body}. \<exists>b \<in> {body}. a \<noteq> b \<and> sha256_hex plain_codec a = sha256_hex plain_codec b))"
proof -
  obtain r body where r: "record_genesis plain_codec 0 = Ok r" "linked plain_codec 0 genesis_prev_hash [(r, body)]"
    by (rule genesis_history)
  have u64: "\<forall>r' \<in> fst ` set ([(r, body)] @ [(r, body)]). record_u64 r'"
    using genesis_storable [OF r(1)] by (simp add: record_storable_def)
  have ok: "is_intact (verify_chain plain_codec (map Inr [(r, body)]))"
    using r(2) by (simp only: verify_stored_intact)
  show ?thesis using head_fixes_history [OF codec_ok_plain ok ok refl u64] ok by auto
qed

end
