(* ===== verification/Rewind.thy ===== *)
theory Rewind
  imports History
begin

text \<open>
  Going back in the history: the schedule at an earlier record (\<open>history/rewind.rs\<close>), and the
  rows a change set alters, as the store records them (\<open>current\<close> and \<open>changed_rows\<close> of
  \<open>history/revert.rs\<close>). The state a record list describes is stated over rows by key: \<open>describes\<close>
  for one record, \<open>path\<close> for a list of them.
\<close>

section \<open>The records after a base\<close>

datatype history_gap =
    GapMissing (gap_expected: nat) (gap_found: "nat option")
  | GapBrokenLink (gap_seq: nat)
  | GapTampered (gap_seq: nat)
  | GapHeadMismatch (gap_head: change_ref)

fun check_links ::
  "codec \<Rightarrow> change_ref \<Rightarrow> nat \<Rightarrow> str \<Rightarrow> bool \<Rightarrow> change_record list \<Rightarrow> history_gap + nat \<times> bool" where
  "check_links cd head prev_seq prev_hash reached [] = Ok (prev_seq, reached)"
| "check_links cd head prev_seq prev_hash reached (r # rs) =
     (let expected = prev_seq + 1 in
      if ch_seq r \<noteq> expected then Err (GapMissing expected (Some (ch_seq r)))
      else if ch_prev_hash r \<noteq> prev_hash then Err (GapBrokenLink (ch_seq r))
      else if computed_hash cd r \<noteq> Ok (ch_hash r) then Err (GapTampered (ch_seq r))
      else if ch_seq r = cr_seq head then
        (if ch_hash r \<noteq> cr_hash head then Err (GapHeadMismatch head)
         else check_links cd head (ch_seq r) (ch_hash r) True rs)
      else check_links cd head (ch_seq r) (ch_hash r) reached rs)"

definition check_records_after ::
  "codec \<Rightarrow> change_ref \<Rightarrow> change_ref \<Rightarrow> change_record list \<Rightarrow> history_gap + unit" where
  "check_records_after cd base head records =
     res_bind (check_links cd head (cr_seq base) (cr_hash base) (head = base) (sort_key ch_seq records))
       (\<lambda>(prev_seq, reached).
     if reached then Ok ()
     else if cr_seq head > prev_seq then Err (GapMissing (prev_seq + 1) None)
     else Err (GapHeadMismatch head))"

section \<open>Rewinding\<close>

record row_tables =
  rt_fixed :: "(str, fixed_run) table"
  rt_runs :: "(str, run) table"
  rt_reminders :: "(str, reminder) table"
  rt_rsvps :: "(str \<times> str, rsvp) table"

definition tables_of :: "snapshot \<Rightarrow> row_tables" where
  "tables_of s =
     \<lparr>rt_fixed = keyed (sn_fixed_runs s) f_id, rt_runs = keyed (sn_runs s) r_id,
      rt_reminders = keyed (sn_reminders s) m_id, rt_rsvps = keyed (sn_rsvps s) rsvp_key\<rparr>"

text \<open>The value of the earliest record that touched each row (\<open>entry(..).or_insert_with\<close>).\<close>

definition first_before :: "change_record list \<Rightarrow> (row_key, row_value option) table" where
  "first_before ordered =
     fold (\<lambda>row t. if t_has t (rc_key row) then t else t_insert (rc_key row) (rc_before row) t)
       (concat (map ch_rows ordered)) []"

fun put_back :: "row_key \<times> row_value option \<Rightarrow> row_tables \<Rightarrow> row_tables" where
  "put_back (_, Some (VFixedRun row)) t = t\<lparr>rt_fixed := t_insert (f_id row) row (rt_fixed t)\<rparr>"
| "put_back (_, Some (VRun row)) t = t\<lparr>rt_runs := t_insert (r_id row) row (rt_runs t)\<rparr>"
| "put_back (_, Some (VReminder row)) t = t\<lparr>rt_reminders := t_insert (m_id row) row (rt_reminders t)\<rparr>"
| "put_back (_, Some (VRsvp row)) t = t\<lparr>rt_rsvps := t_insert (rsvp_key row) row (rt_rsvps t)\<rparr>"
| "put_back (KFixedRun i, None) t = t\<lparr>rt_fixed := t_remove i (rt_fixed t)\<rparr>"
| "put_back (KRun i, None) t = t\<lparr>rt_runs := t_remove i (rt_runs t)\<rparr>"
| "put_back (KReminder i, None) t = t\<lparr>rt_reminders := t_remove i (rt_reminders t)\<rparr>"
| "put_back (KRsvp r u, None) t = t\<lparr>rt_rsvps := t_remove (r, u) (rt_rsvps t)\<rparr>"

definition rewind ::
  "codec \<Rightarrow> snapshot \<Rightarrow> change_ref \<Rightarrow> change_ref \<Rightarrow> change_record list \<Rightarrow> history_gap + snapshot" where
  "rewind cd cur base head records =
     res_bind (check_records_after cd base head records) (\<lambda>_.
     let t = fold put_back (first_before (sort_key ch_seq records)) (tables_of cur)
     in Ok (snapshot_sort
          \<lparr>sn_revision = sn_revision cur, sn_fixed_runs = t_values (rt_fixed t),
           sn_runs = t_values (rt_runs t), sn_reminders = t_values (rt_reminders t),
           sn_rsvps = t_values (rt_rsvps t), sn_unproven_retired = sn_unproven_retired cur\<rparr>))"

section \<open>What records describe\<close>

text \<open>A schedule as the values of its rows.\<close>

type_synonym row_state = "row_key \<Rightarrow> row_value option"

fun row_at :: "row_tables \<Rightarrow> row_state" where
  "row_at t (KFixedRun i) = map_option VFixedRun (t_get (rt_fixed t) i)"
| "row_at t (KRun i) = map_option VRun (t_get (rt_runs t) i)"
| "row_at t (KReminder i) = map_option VReminder (t_get (rt_reminders t) i)"
| "row_at t (KRsvp r u) = map_option VRsvp (t_get (rt_rsvps t) (r, u))"

definition state_of :: "snapshot \<Rightarrow> row_state" where
  "state_of s = row_at (tables_of s)"

definition describes :: "row_change list \<Rightarrow> row_state \<Rightarrow> row_state \<Rightarrow> bool" where
  "describes rows s s' \<longleftrightarrow>
     (\<forall>row \<in> set rows. s (rc_key row) = rc_before row \<and> s' (rc_key row) = rc_after row) \<and>
     (\<forall>k. k \<notin> rc_key ` set rows \<longrightarrow> s' k = s k)"

text \<open>The states a list of records leads through, the first before all of them.\<close>

fun path :: "change_record list \<Rightarrow> row_state list \<Rightarrow> bool" where
  "path [] [s] \<longleftrightarrow> True"
| "path (r # rs) (s # s' # ss) \<longleftrightarrow> describes (ch_rows r) s s' \<and> path rs (s' # ss)"
| "path _ _ \<longleftrightarrow> False"

section \<open>What the checks find\<close>

fun chained :: "codec \<Rightarrow> nat \<Rightarrow> str \<Rightarrow> change_record list \<Rightarrow> bool" where
  "chained cd n hash [] \<longleftrightarrow> True"
| "chained cd n hash (r # rs) \<longleftrightarrow>
     ch_seq r = n + 1 \<and> ch_prev_hash r = hash \<and> computed_hash cd r = Ok (ch_hash r) \<and>
     chained cd (n + 1) (ch_hash r) rs"

lemma check_links_Ok:
  "check_links cd head n hash reached rs = Ok (m, b) \<longleftrightarrow>
     chained cd n hash rs \<and> (\<forall>r \<in> set rs. ch_seq r = cr_seq head \<longrightarrow> ch_hash r = cr_hash head) \<and>
     m = n + length rs \<and> (b \<longleftrightarrow> reached \<or> (\<exists>r \<in> set rs. ch_seq r = cr_seq head))"
  by (induction rs arbitrary: n hash reached) (auto simp: Let_def)

text \<open>C28. The records given for a rewind are accepted exactly when they are the whole chain after the
  base: in order of position they follow on from it without a gap, each names the hash of the one
  before and matches its own, and the head is the base itself or one of them.\<close>

theorem rewind_records_checked:
  "check_records_after cd base head records = Ok () \<longleftrightarrow>
     chained cd (cr_seq base) (cr_hash base) (sort_key ch_seq records) \<and>
     (\<forall>r \<in> set records. ch_seq r = cr_seq head \<longrightarrow> ch_hash r = cr_hash head) \<and>
     (head = base \<or> (\<exists>r \<in> set records. record_reference r = head))"
proof -
  have ref: "record_reference r = head \<longleftrightarrow> ch_seq r = cr_seq head \<and> ch_hash r = cr_hash head" for r
    by (cases head) (auto simp: record_reference_def)
  have "check_records_after cd base head records = Ok () \<longleftrightarrow>
      (\<exists>m. check_links cd head (cr_seq base) (cr_hash base) (head = base) (sort_key ch_seq records) = Ok (m, True))"
    by (auto simp: check_records_after_def res_bind_Ok_iff split: if_splits)
  also have "\<dots> \<longleftrightarrow> chained cd (cr_seq base) (cr_hash base) (sort_key ch_seq records) \<and>
     (\<forall>r \<in> set records. ch_seq r = cr_seq head \<longrightarrow> ch_hash r = cr_hash head) \<and>
     (head = base \<or> (\<exists>r \<in> set records. ch_seq r = cr_seq head))"
    by (simp add: check_links_Ok)
  finally show ?thesis unfolding ref by blast
qed

section \<open>Rewinding goes back\<close>

lemma first_before_fold:
  "t_get (fold (\<lambda>row t. if t_has t (rc_key row) then t else t_insert (rc_key row) (rc_before row) t) rows t) k =
     (case t_get t k of Some v \<Rightarrow> Some v | None \<Rightarrow> map_option rc_before (find (\<lambda>row. rc_key row = k) rows))"
  by (induction rows arbitrary: t) (auto simp: t_has_def split: option.splits)

lemma first_before_get:
  "t_get (first_before ordered) k =
     map_option rc_before (find (\<lambda>row. rc_key row = k) (concat (map ch_rows ordered)))"
  by (simp add: first_before_def first_before_fold)

lemma first_before_ok: "t_ok (first_before ordered)"
proof -
  have "t_ok t \<Longrightarrow> t_ok (fold (\<lambda>row t. if t_has t (rc_key row) then t else t_insert (rc_key row) (rc_before row) t) rows t)"
    for rows :: "row_change list" and t
    by (induction rows arbitrary: t) auto
  then show ?thesis by (simp add: first_before_def)
qed

lemma describes_untouched: "describes rows s s' \<Longrightarrow> find (\<lambda>row. rc_key row = k) rows = None \<Longrightarrow> s' k = s k"
  unfolding describes_def find_None_iff by (metis imageE)

lemma find_append: "find p (xs @ ys) = (case find p xs of Some x \<Rightarrow> Some x | None \<Rightarrow> find p ys)"
  by (induction xs) auto

lemma path_first:
  assumes "path rs ss"
  shows "case find (\<lambda>row. rc_key row = k) (concat (map ch_rows rs)) of
      Some row \<Rightarrow> hd ss k = rc_before row
    | None \<Rightarrow> (\<forall>s \<in> set ss. s k = hd ss k)"
  using assms
proof (induction rs ss rule: path.induct)
  case (2 r rs s s' ss)
  show ?case
  proof (cases "find (\<lambda>row. rc_key row = k) (ch_rows r)")
    case None
    then have "s' k = s k" using 2 describes_untouched by auto
    then show ?thesis using 2 None by (auto simp: find_append split: option.splits)
  next
    case (Some row)
    then show ?thesis using 2 find_Some_in [OF Some] by (auto simp: find_append describes_def)
  qed
qed auto

definition tables_wf :: "row_tables \<Rightarrow> bool" where
  "tables_wf t \<longleftrightarrow>
     t_ok (rt_fixed t) \<and> tbl.keyed_by f_id (rt_fixed t) \<and> t_ok (rt_runs t) \<and> tbl.keyed_by r_id (rt_runs t) \<and>
     t_ok (rt_reminders t) \<and> tbl.keyed_by m_id (rt_reminders t) \<and>
     t_ok (rt_rsvps t) \<and> tbl.keyed_by rsvp_key (rt_rsvps t)"

lemma put_back_at:
  assumes "\<And>w. v = Some w \<Longrightarrow> value_key w = k"
  shows "row_at (put_back (k, v) t) k' = (if k' = k then v else row_at t k')"
proof (cases v)
  case None
  then show ?thesis by (cases k; cases k') auto
next
  case (Some w)
  then have "k = value_key w" using assms by simp
  then show ?thesis using Some by (cases w; cases k') (auto simp: rsvp_key_def)
qed

lemma put_back_wf: "tables_wf t \<Longrightarrow> tables_wf (put_back e t)"
  by (cases "(e, t)" rule: put_back.cases) (auto simp: tables_wf_def tbl.keyed_put tbl.keyed_del)

lemma put_back_fold:
  assumes "distinct (map fst es)" "\<And>k w. (k, Some w) \<in> set es \<Longrightarrow> value_key w = k"
  shows "row_at (fold put_back es t) k = (case map_of es k of Some v \<Rightarrow> v | None \<Rightarrow> row_at t k)"
  using assms
proof (induction es arbitrary: t)
  case (Cons e es)
  obtain k' v where e: "e = (k', v)" by (cases e)
  have "row_at (put_back (k', v) t) k = (if k = k' then v else row_at t k)"
    using Cons.prems(2) by (intro put_back_at) (auto simp: e)
  moreover have "map_of es k' = None" using Cons.prems(1) by (auto simp: e map_of_eq_None_iff)
  ultimately show ?case using Cons by (auto simp: e split: option.splits)
qed simp

lemma put_back_fold_wf: "tables_wf t \<Longrightarrow> tables_wf (fold put_back es t)"
  by (induction es arbitrary: t) (auto simp: put_back_wf)

lemma tables_of_wf: "tables_wf (tables_of s)"
  by (simp add: tables_wf_def tables_of_def keyed_keyed)

lemma tables_of_values:
  assumes "tables_wf t"
  shows "tables_of (snapshot_sort
      \<lparr>sn_revision = n, sn_fixed_runs = t_values (rt_fixed t), sn_runs = t_values (rt_runs t),
       sn_reminders = t_values (rt_reminders t), sn_rsvps = t_values (rt_rsvps t), sn_unproven_retired = u\<rparr>) = t"
  using assms by (cases t) (simp add: tables_of_def snapshot_sort_def tables_wf_def keyed_back)

lemma rewind_goes_back:
  assumes "rewind cd cur base head records = Ok old"
    and "path (sort_key ch_seq records) ss" "state_of cur \<in> set ss"
    and "\<forall>r \<in> set records. \<forall>row \<in> set (ch_rows r). \<forall>v. rc_before row = Some v \<longrightarrow> value_key v = rc_key row"
  shows "state_of old = hd ss" "sn_revision old = sn_revision cur"
proof -
  let ?es = "first_before (sort_key ch_seq records)"
  let ?rows = "concat (map ch_rows (sort_key ch_seq records))"
  define t where "t = fold put_back ?es (tables_of cur)"
  have old: "old = snapshot_sort
      \<lparr>sn_revision = sn_revision cur, sn_fixed_runs = t_values (rt_fixed t), sn_runs = t_values (rt_runs t),
       sn_reminders = t_values (rt_reminders t), sn_rsvps = t_values (rt_rsvps t),
       sn_unproven_retired = sn_unproven_retired cur\<rparr>"
    using assms(1) by (auto simp: rewind_def Let_def res_bind_Ok_iff t_def)
  then show "sn_revision old = sn_revision cur" by (simp add: snapshot_sort_def)
  have "tables_wf t" unfolding t_def by (intro put_back_fold_wf tables_of_wf)
  then have "state_of old = row_at t" unfolding state_of_def old by (simp add: tables_of_values)
  moreover have "row_at t k = hd ss k" for k
  proof -
    have own: "value_key w = k'" if "(k', Some w) \<in> set ?es" for k' w
    proof -
      have "t_get ?es k' = Some (Some w)" using that first_before_ok by (simp add: t_get_iff_in)
      then obtain row where "find (\<lambda>row. rc_key row = k') ?rows = Some row" "rc_before row = Some w"
        unfolding first_before_get by auto
      then show ?thesis using find_Some_in [of _ ?rows row] assms(4) by auto
    qed
    have "row_at t k = (case map_of ?es k of Some v \<Rightarrow> v | None \<Rightarrow> state_of cur k)"
      unfolding t_def state_of_def
      by (rule put_back_fold [OF t_ok_distinct [OF first_before_ok] own])
    moreover have "map_of ?es k = map_option rc_before (find (\<lambda>row. rc_key row = k) ?rows)"
      using first_before_get [of "sort_key ch_seq records" k] by (simp add: t_get_def)
    ultimately show ?thesis using path_first [OF assms(2), of k] assms(3) by (auto split: option.splits)
  qed
  ultimately show "state_of old = hd ss" by (simp add: fun_eq_iff)
qed


text \<open>The record that deleted the sample timing, on top of a base.\<close>

definition sample_rows :: "row_change list" where
  "sample_rows =
     [\<lparr>rc_key = KFixedRun (lit ''f1''), rc_before = Some (VFixedRun sample_fixed), rc_after = None\<rparr>]"

definition sample_ref :: change_ref where
  "sample_ref = \<lparr>cr_seq = 0, cr_hash = lit ''base''\<rparr>"

lemma sample_sealed:
  obtains r where "ch_rows r = sample_rows" "chained plain_codec (cr_seq sample_ref) (cr_hash sample_ref) [r]"
proof -
  let ?meta = "\<lparr>cm_origin = origin_new (ActSystem (lit ''store'')) Import, cm_at = 0, cm_notices = [], cm_refs = [],
        cm_request_digest = None, cm_expect = \<lparr>ex_fields = [], ex_overrides = []\<rparr>, cm_outbox = []\<rparr>"
  have "is_ok_and (\<lambda>_. True) (value_to_json (VFixedRun sample_fixed))" by code_simp
  then obtain j where "value_to_json (VFixedRun sample_fixed) = Ok j"
    by (auto simp: is_ok_and_def split: sum.splits)
  moreover have "python_year 0" by code_simp
  ultimately have "\<exists>r. record_seal plain_codec (Some (0, lit ''base'')) (lit ''c1'') 2 ?meta [] sample_rows = Ok r"
    by (simp add: record_seal_def computed_hash_def record_canonical_def record_body_def write_iso_def to_iso_def
        sample_rows_def row_to_json_def res_opt_def del: value_to_json.simps)
  then obtain r where r: "record_seal plain_codec (Some (0, lit ''base'')) (lit ''c1'') 2 ?meta [] sample_rows = Ok r" ..
  obtain body where "record_canonical plain_codec r = Ok body" "sha256_hex plain_codec body = ch_hash r"
    "ch_seq r = 1" "ch_prev_hash r = lit ''base''" "ch_rows r = sample_rows"
    using sealed [OF r] by (auto simp: sample_rows_def)
  then show thesis using that [of r] by (simp add: computed_hash_def sample_ref_def)
qed

theorem rewind_records_checked_witness:
  "\<exists>r. check_records_after plain_codec sample_ref (record_reference r) [r] = Ok ()"
proof -
  obtain r where "chained plain_codec (cr_seq sample_ref) (cr_hash sample_ref) [r]" by (rule sample_sealed)
  then have "check_records_after plain_codec sample_ref (record_reference r) [r] = Ok ()"
    unfolding rewind_records_checked by (simp add: record_reference_def)
  then show ?thesis by blast
qed


end
