(* ===== verification/Revert.thy ===== *)
theory Revert
  imports Rewind "HOL-Library.Option_ord"
begin

text \<open>
  Reverting recorded changes on the working copy (\<open>history/revert.rs\<close>): the rows of the selected
  records go back to their \<open>before\<close> values, newest record first, with a report of every row that no
  longer holds what its record left; runs whose slot or status moved have their reminders
  reconciled; nothing happens when a strict revert finds a conflict. \<open>BTreeSet\<close>s are lists in
  ascending order without repetition.
\<close>

section \<open>Rows of the working copy\<close>

fun current :: "draft \<Rightarrow> row_key \<Rightarrow> row_value option" where
  "current d (KFixedRun i) = map_option VFixedRun (draft_fixed_run d i)"
| "current d (KRun i) = map_option VRun (draft_run d i)"
| "current d (KReminder i) = map_option VReminder (draft_reminder d i)"
| "current d (KRsvp r u) = map_option VRsvp (draft_rsvp d r u)"

fun change_key :: "change \<Rightarrow> row_key" where
  "change_key (PutFixedRun row) = KFixedRun (f_id row)"
| "change_key (DeleteFixedRun i) = KFixedRun i"
| "change_key (PutRun row) = KRun (r_id row)"
| "change_key (PutReminder row) = KReminder (m_id row)"
| "change_key (DeleteReminder i) = KReminder i"
| "change_key (PutRsvp row) = KRsvp (a_run_id row) (a_user_id row)"
| "change_key (DeleteRsvp r u) = KRsvp r u"

definition changed_rows :: "draft \<Rightarrow> draft \<Rightarrow> change list \<Rightarrow> row_change list" where
  "changed_rows before after changes =
     (let keys = remdups_adj (sort (map change_key changes)) in
      map (\<lambda>key. \<lparr>rc_key = key, rc_before = current before key, rc_after = current after key\<rparr>)
        (filter (\<lambda>key. current before key \<noteq> current after key) keys))"

section \<open>Reverting\<close>

datatype revert_mode = Strict | Force

datatype revert_scope = Whole | InWeek instant

record row_conflict =
  cf_seq :: nat
  cf_key :: row_key
  cf_expected :: "row_value option"
  cf_found :: "row_value option"

record skipped_row =
  sk_seq :: nat
  sk_key :: row_key

datatype revert_outcome =
    Reverted (rv_seqs: "nat list") (rv_cancelled: "str list") (rv_overridden: "row_conflict list")
      (rv_skipped: "skipped_row list") (rv_notices: "notice list") (rv_rows: "row_change list")
      (rv_seq: "nat option")
  | RevertUnchanged (rv_seqs: "nat list") (rv_skipped: "skipped_row list")
  | RevertConflicts (rv_seqs: "nat list") (rv_conflicts: "row_conflict list")

text \<open>A run cannot be deleted: undoing its creation cancels it.\<close>

fun restore :: "row_key \<Rightarrow> row_value option \<Rightarrow> draft \<times> str list \<Rightarrow> draft \<times> str list" where
  "restore _ (Some (VFixedRun row)) (d, cancelled) = (put_fixed_run row d, cancelled)"
| "restore _ (Some (VRun row)) (d, cancelled) = (put_run row d, cancelled)"
| "restore _ (Some (VRsvp row)) (d, cancelled) = (put_rsvp row d, cancelled)"
| "restore _ (Some (VReminder _)) (d, cancelled) = (d, cancelled)"
| "restore (KReminder _) None (d, cancelled) = (d, cancelled)"
| "restore (KFixedRun i) None (d, cancelled) = (delete_fixed_run i d, cancelled)"
| "restore (KRun i) None (d, cancelled) =
     (case draft_run d i of
        Some run \<Rightarrow>
          if r_status run \<noteq> Cancelled then (set_run_status i Cancelled d, cancelled @ [i]) else (d, cancelled)
      | None \<Rightarrow> (d, cancelled))"
| "restore (KRsvp r u) None (d, cancelled) = (clear_rsvp r u d, cancelled)"

definition row_in_week :: "change_record \<Rightarrow> str \<Rightarrow> instant \<Rightarrow> bool" where
  "row_in_week r run_id week \<longleftrightarrow>
     list_ex (\<lambda>row. rc_key row = KRun run_id \<and>
       (Option.bind (rc_before row) run_week = Some week \<or> Option.bind (rc_after row) run_week = Some week))
       (ch_rows r)"

definition run_in_week :: "change_record \<Rightarrow> draft \<Rightarrow> instant \<Rightarrow> str \<Rightarrow> bool" where
  "run_in_week r d week run_id \<longleftrightarrow>
     (case draft_run d run_id of Some run \<Rightarrow> r_week_start run = week | None \<Rightarrow> False) \<or>
     row_in_week r run_id week"

fun in_week :: "change_record \<Rightarrow> row_key \<Rightarrow> draft \<Rightarrow> instant \<Rightarrow> bool" where
  "in_week r (KFixedRun _) d week = False"
| "in_week r (KRun i) d week = (row_in_week r i week \<or>
     (case draft_run d i of Some run \<Rightarrow> r_week_start run = week | None \<Rightarrow> False))"
| "in_week r (KReminder i) d week =
     (case draft_reminder d i of Some row \<Rightarrow> run_in_week r d week (m_run_id row) | None \<Rightarrow> False)"
| "in_week r (KRsvp run_id _) d week = run_in_week r d week run_id"

text \<open>\<open>BTreeSet::insert\<close>.\<close>

definition set_insert :: "'a::linorder \<Rightarrow> 'a list \<Rightarrow> 'a list" where
  "set_insert x xs = insort_insert x xs"

text \<open>What the loop over records and rows gathers.\<close>

record revert_state =
  rs_trial :: draft
  rs_conflicts :: "row_conflict list"
  rs_cancelled :: "str list"
  rs_skipped :: "skipped_row list"
  rs_runs :: "str list"
  rs_affected :: "str list"
  rs_timings :: "str list"

fun note_key :: "row_key \<Rightarrow> revert_state \<Rightarrow> revert_state" where
  "note_key (KRun i) st = st\<lparr>rs_runs := set_insert i (rs_runs st), rs_affected := set_insert i (rs_affected st)\<rparr>"
| "note_key (KRsvp run_id _) st = st\<lparr>rs_affected := set_insert run_id (rs_affected st)\<rparr>"
| "note_key (KFixedRun i) st = st\<lparr>rs_timings := set_insert i (rs_timings st)\<rparr>"
| "note_key (KReminder _) st = st"

definition is_reminder :: "row_key \<Rightarrow> bool" where
  "is_reminder k = (case k of KReminder _ \<Rightarrow> True | _ \<Rightarrow> False)"

definition revert_row :: "revert_scope \<Rightarrow> change_record \<Rightarrow> row_change \<Rightarrow> revert_state \<Rightarrow> revert_state" where
  "revert_row scope r row st =
     (if is_reminder (rc_key row) then st
      else if (case scope of Whole \<Rightarrow> False | InWeek week \<Rightarrow> \<not> in_week r (rc_key row) (rs_trial st) week) then
        st\<lparr>rs_skipped := rs_skipped st @ [\<lparr>sk_seq = ch_seq r, sk_key = rc_key row\<rparr>]\<rparr>
      else
        let st = note_key (rc_key row) st;
            found = current (rs_trial st) (rc_key row);
            st = (if found \<noteq> rc_after row then
                    st\<lparr>rs_conflicts := rs_conflicts st @
                      [\<lparr>cf_seq = ch_seq r, cf_key = rc_key row, cf_expected = rc_after row, cf_found = found\<rparr>]\<rparr>
                  else st);
            (trial, cancelled) = restore (rc_key row) (rc_before row) (rs_trial st, rs_cancelled st)
        in st\<lparr>rs_trial := trial, rs_cancelled := cancelled\<rparr>)"

definition revert_records :: "revert_scope \<Rightarrow> change_record list \<Rightarrow> draft \<Rightarrow> revert_state" where
  "revert_records scope records d =
     fold (\<lambda>r st. fold (revert_row scope r) (ch_rows r) st) records
       \<lparr>rs_trial = d, rs_conflicts = [], rs_cancelled = [], rs_skipped = [], rs_runs = [],
        rs_affected = [], rs_timings = []\<rparr>"

text \<open>Keep sent, held and still matching reminders; replace the rest.\<close>

definition reconcile_reminders ::
  "str \<Rightarrow> reminder_policy \<Rightarrow> str list \<Rightarrow> instant \<Rightarrow> unit plan" where
  "reconcile_reminders run_id policy held now =
     bnd (reads (\<lambda>d. draft_run d run_id)) (\<lambda>found.
     case found of
       None \<Rightarrow> ret ()
     | Some run \<Rightarrow>
         bnd (check (res_map_err DateError (reminder_specs (r_datetime run) (r_status run) policy))) (\<lambda>specs.
         bnd (reads (\<lambda>d. draft_reminders d run_id)) (\<lambda>rows.
         seq (each (\<lambda>row.
                let matches = (t_get (t_collect (map (\<lambda>spec. (spec_kind spec, spec_fire_at spec)) specs)) (m_kind row)
                       = Some (m_fire_at row))
                in only_if (m_sent_at row = None \<and> \<not> contains held (m_id row) \<and> \<not> matches)
                     (edit (delete_reminder (m_id row)))) rows)
         (each (\<lambda>spec.
            bnd (add_reminder run_id (spec_kind spec) (spec_fire_at spec)
                   (if spec_fire_at spec \<le> now then Some now else None)) (\<lambda>_. ret ())) specs))))"

definition push_channel ::
  "str option \<Rightarrow> str list \<Rightarrow> (str option, str list) table \<Rightarrow> (str option, str list) table" where
  "push_channel channel ids t =
     t_insert channel ((case t_get t channel of Some xs \<Rightarrow> xs | None \<Rightarrow> []) @ ids) t"

definition or_else :: "'a option \<Rightarrow> 'a option \<Rightarrow> 'a option" where
  "or_else a b = (case a of None \<Rightarrow> b | Some _ \<Rightarrow> a)"

definition summary_notices ::
  "draft \<Rightarrow> draft \<Rightarrow> nat list \<Rightarrow> str list \<Rightarrow> str list \<Rightarrow> str list \<Rightarrow> notice list" where
  "summary_notices after before seqs cancelled runs timings =
     (let by_channel = fold (\<lambda>run_id.
            push_channel (Option.bind (or_else (draft_run after run_id) (draft_run before run_id)) r_channel_id)
              [run_id]) runs [];
          by_channel = fold (\<lambda>fixed_id.
            push_channel (Option.bind (or_else (draft_fixed_run after fixed_id) (draft_fixed_run before fixed_id))
              f_channel_id) []) timings by_channel;
          by_channel = (if by_channel = [] then t_insert None [] by_channel else by_channel)
      in map (\<lambda>(channel_id, run_ids).
           \<lparr>no_change = NRollback seqs (filter (contains run_ids) cancelled) run_ids None,
            no_channel_id = channel_id, no_listed = [], no_via_portal = True\<rparr>) by_channel)"

definition apply_revert ::
  "change_record list \<Rightarrow> revert_scope \<Rightarrow> revert_mode \<Rightarrow> reminder_policy \<Rightarrow> str list \<Rightarrow> instant
    \<Rightarrow> revert_outcome plan" where
  "apply_revert records scope mode policy held now =
     bnd (reads (\<lambda>d. d)) (\<lambda>before.
     let st = revert_records scope records before; seqs = map ch_seq records in
     if mode = Strict \<and> rs_conflicts st \<noteq> [] then ret (RevertConflicts seqs (rs_conflicts st))
     else
       seq (edit (\<lambda>_. rs_trial st))
       (seq (each (\<lambda>run_id.
          bnd (reads (\<lambda>trial.
            case (draft_run before run_id, draft_run trial run_id) of
              (Some was, Some run) \<Rightarrow> r_datetime was \<noteq> r_datetime run \<or> r_status was \<noteq> r_status run
            | (None, Some _) \<Rightarrow> True
            | _ \<Rightarrow> False)) (\<lambda>moved.
          only_if moved (reconcile_reminders run_id policy held now))) (rs_runs st))
       (bnd (reads (\<lambda>trial.
          summary_notices trial before seqs (rs_cancelled st) (rs_affected st) (rs_timings st))) (\<lambda>notices.
        ret (Reverted seqs (rs_cancelled st) (rs_conflicts st) (rs_skipped st) notices [] None)))))"

section \<open>Selecting records\<close>

definition newest_first :: "change_record list \<Rightarrow> change_record list" where
  "newest_first records = sort_key (\<lambda>r. - int (ch_seq r)) records"

definition changes_for_week :: "change_record list \<Rightarrow> instant \<Rightarrow> nat \<Rightarrow> change_record list" where
  "changes_for_week records week revision =
     newest_first (filter (\<lambda>r. ch_seq r > 0 \<and> ch_revision r > revision \<and> touches_week r week) records)"

definition changes_by_actor :: "change_record list \<Rightarrow> actor \<Rightarrow> instant \<Rightarrow> change_record list" where
  "changes_by_actor records who since =
     newest_first (filter (\<lambda>r. ch_seq r > 0 \<and> og_actor (ch_origin r) = who \<and> ch_at r \<ge> since) records)"

section \<open>What one row's revert does\<close>

text \<open>The value a row has once reverted, from the value it had.\<close>

definition undone :: "row_change \<Rightarrow> row_value option \<Rightarrow> row_value option" where
  "undone row cur =
     (case rc_before row of
        Some v \<Rightarrow> Some v
      | None \<Rightarrow>
          (case rc_key row of
             KRun _ \<Rightarrow>
               (case cur of
                  Some (VRun run) \<Rightarrow>
                    Some (VRun (if r_status run \<noteq> Cancelled then run_set_status Cancelled run else run))
                | _ \<Rightarrow> None)
           | _ \<Rightarrow> None))"

definition row_keyed :: "row_change \<Rightarrow> bool" where
  "row_keyed row \<longleftrightarrow> (\<forall>v. rc_before row = Some v \<longrightarrow> value_key v = rc_key row)"

lemmas current_defs = put_fixed_run_def put_run_def put_rsvp_def delete_fixed_run_def clear_rsvp_def
  draft_fixed_run_def draft_run_def draft_reminder_def draft_rsvp_def rsvp_key_def

lemma current_set_run_status:
  "current (set_run_status i st d) k =
     (if k = KRun i then map_option (\<lambda>run. VRun (run_set_status st run)) (draft_run d i) else current d k)"
  by (cases k) (auto simp: set_run_status_def modify_run_def current_defs option.map_comp comp_def)

lemma restore_current:
  assumes "row_keyed row" "\<not> is_reminder (rc_key row)"
  shows "current (fst (restore (rc_key row) (rc_before row) (d, c))) k =
    (if k = rc_key row then undone row (current d k) else current d k)"
proof (cases "rc_before row")
  case (Some v)
  then have "rc_key row = value_key v" using assms(1) by (simp add: row_keyed_def)
  then show ?thesis
    using assms(2) Some by (cases v; cases k) (auto simp: undone_def is_reminder_def current_defs)
next
  case None
  show ?thesis
  proof (cases "rc_key row")
    case (KRun i)
    then show ?thesis
      using None by (cases "draft_run d i")
        (simp_all add: undone_def current_set_run_status current.simps(2) [of d] del: current.simps(2))
  next
    case (KFixedRun i)
    then show ?thesis
      using None by (cases k) (auto simp: undone_def current_defs)
  next
    case (KReminder i)
    then show ?thesis using assms(2) by (simp add: is_reminder_def)
  next
    case (KRsvp r u)
    then show ?thesis
      using None by (cases k) (auto simp: undone_def current_defs)
  qed
qed

lemma restore_same: "\<not> is_reminder k \<Longrightarrow> row_keyed \<lparr>rc_key = k, rc_before = v, rc_after = w\<rparr> \<Longrightarrow>
  dr_reminders (fst (restore k v (d, c))) = dr_reminders d"
  by (cases "(k, v, (d, c))" rule: restore.cases)
    (auto simp: row_keyed_def is_reminder_def current_defs set_run_status_def modify_run_def split: option.split)

section \<open>What the loop does\<close>

text \<open>The reference: rows undone one after the other, reminder rows left out; and the conflicts met.\<close>

fun undo :: "row_change list \<Rightarrow> row_state \<Rightarrow> row_state" where
  "undo [] s = s"
| "undo (row # rows) s =
     undo rows (if is_reminder (rc_key row) then s else s(rc_key row := undone row (s (rc_key row))))"

fun conflicts :: "nat \<Rightarrow> row_change list \<Rightarrow> row_state \<Rightarrow> row_conflict list" where
  "conflicts n [] s = []"
| "conflicts n (row # rows) s =
     (if is_reminder (rc_key row) \<or> s (rc_key row) = rc_after row then []
      else [\<lparr>cf_seq = n, cf_key = rc_key row, cf_expected = rc_after row, cf_found = s (rc_key row)\<rparr>]) @
     conflicts n rows (undo [row] s)"

lemma undo_append: "undo (xs @ ys) s = undo ys (undo xs s)"
  by (induction xs arbitrary: s) simp_all

lemma undo_reminder [simp]: "is_reminder k \<Longrightarrow> undo rows s k = s k"
  by (induction rows arbitrary: s) auto

lemma note_key_same [simp]:
  "rs_trial (note_key k st) = rs_trial st" "rs_conflicts (note_key k st) = rs_conflicts st"
  "rs_cancelled (note_key k st) = rs_cancelled st"
  by (cases k; simp)+

lemma revert_row_whole:
  assumes "row_keyed row"
  shows "current (rs_trial (revert_row Whole r row st)) = undo [row] (current (rs_trial st))"
    "rs_conflicts (revert_row Whole r row st) =
       rs_conflicts st @ conflicts (ch_seq r) [row] (current (rs_trial st))"
proof -
  let ?st = "note_key (rc_key row) st"
  obtain d c where r: "restore (rc_key row) (rc_before row) (rs_trial st, rs_cancelled st) = (d, c)" by fastforce
  have "current d = (current (rs_trial st))(rc_key row := undone row (current (rs_trial st) (rc_key row)))"
    if "\<not> is_reminder (rc_key row)"
    using restore_current [OF assms that, of "rs_trial st" "rs_cancelled st"] r by (intro ext) simp
  then show "current (rs_trial (revert_row Whole r row st)) = undo [row] (current (rs_trial st))"
    using r by (simp add: revert_row_def Let_def)
  show "rs_conflicts (revert_row Whole r row st) =
      rs_conflicts st @ conflicts (ch_seq r) [row] (current (rs_trial st))"
    using r by (simp add: revert_row_def Let_def)
qed

lemma revert_rows_whole:
  assumes "\<forall>row \<in> set rows. row_keyed row"
  shows "current (rs_trial (fold (revert_row Whole r) rows st)) = undo rows (current (rs_trial st)) \<and>
    rs_conflicts (fold (revert_row Whole r) rows st) =
      rs_conflicts st @ conflicts (ch_seq r) rows (current (rs_trial st))"
  using assms by (induction rows arbitrary: st) (simp_all add: revert_row_whole)

text \<open>The same over records, newest first.\<close>

fun all_conflicts :: "change_record list \<Rightarrow> row_state \<Rightarrow> row_conflict list" where
  "all_conflicts [] s = []"
| "all_conflicts (r # rs) s = conflicts (ch_seq r) (ch_rows r) s @ all_conflicts rs (undo (ch_rows r) s)"

definition records_keyed :: "change_record list \<Rightarrow> bool" where
  "records_keyed records \<longleftrightarrow> (\<forall>r \<in> set records. \<forall>row \<in> set (ch_rows r). row_keyed row)"

lemma revert_records_whole:
  assumes "records_keyed records"
  shows "current (rs_trial (revert_records Whole records d)) = undo (concat (map ch_rows records)) (current d)"
    "rs_conflicts (revert_records Whole records d) = all_conflicts records (current d)"
proof -
  have "current (rs_trial (fold (\<lambda>r st. fold (revert_row Whole r) (ch_rows r) st) records st)) =
        undo (concat (map ch_rows records)) (current (rs_trial st)) \<and>
      rs_conflicts (fold (\<lambda>r st. fold (revert_row Whole r) (ch_rows r) st) records st) =
        rs_conflicts st @ all_conflicts records (current (rs_trial st))" for st
    using assms unfolding records_keyed_def
    by (induction records arbitrary: st) (simp_all add: revert_rows_whole undo_append)
  then show "current (rs_trial (revert_records Whole records d)) = undo (concat (map ch_rows records)) (current d)"
    "rs_conflicts (revert_records Whole records d) = all_conflicts records (current d)"
    by (simp_all add: revert_records_def)
qed

section \<open>Undoing what records describe\<close>

text \<open>A state gone back to: as it was, except that runs created since are still there, cancelled.\<close>

definition back_to :: "row_state \<Rightarrow> row_state \<Rightarrow> bool" where
  "back_to s s' \<longleftrightarrow>
     (\<forall>k. \<not> is_reminder k \<longrightarrow>
        s' k = s k \<or>
        s k = None \<and> (\<exists>i run. k = KRun i \<and> s' k = Some (VRun run) \<and> r_status run = Cancelled))"

lemma back_to_refl [simp]: "back_to s s"
  by (simp add: back_to_def)

definition never_deleted :: "change_record list \<Rightarrow> bool" where
  "never_deleted records \<longleftrightarrow>
     (\<forall>r \<in> set records. \<forall>row \<in> set (ch_rows r). \<forall>i. rc_key row = KRun i \<longrightarrow> rc_after row \<noteq> None)"

lemma back_to_Some: "back_to s s' \<Longrightarrow> \<not> is_reminder k \<Longrightarrow> s k = Some v \<Longrightarrow> s' k = Some v"
  by (force simp: back_to_def)

lemma back_to_other: "back_to s s' \<Longrightarrow> \<not> is_reminder k \<Longrightarrow> (\<And>i. k \<noteq> KRun i) \<Longrightarrow> s' k = s k"
  by (force simp: back_to_def)

lemma undo_get:
  assumes "distinct (map rc_key rows)"
  shows "undo rows s k =
    (case find (\<lambda>row. rc_key row = k) rows of
       Some row \<Rightarrow> if is_reminder k then s k else undone row (s k)
     | None \<Rightarrow> s k)"
  using assms
proof (induction rows arbitrary: s)
  case (Cons row rows)
  show ?case
  proof (cases "rc_key row = k")
    case True
    then have "find (\<lambda>row. rc_key row = k) rows = None"
      using Cons.prems by (simp add: find_None_iff image_iff) metis
    then show ?thesis using True Cons by simp
  qed (use Cons in \<open>auto split: option.split\<close>)
qed simp

lemma conflicts_none:
  assumes "distinct (map rc_key rows)"
    and "\<And>row. row \<in> set rows \<Longrightarrow> \<not> is_reminder (rc_key row) \<Longrightarrow> s (rc_key row) = rc_after row"
  shows "conflicts n rows s = []"
  using assms
proof (induction rows arbitrary: s)
  case (Cons row rows)
  have "undo [row] s (rc_key row') = s (rc_key row')" if "row' \<in> set rows" for row'
  proof -
    have "rc_key row' \<noteq> rc_key row" using Cons.prems(1) that by (simp add: image_iff) metis
    then show ?thesis by simp
  qed
  then show ?case using Cons by auto
qed simp

text \<open>A found row belongs to its key, and a missing one is not a run that records deleted.\<close>

lemma found_after:
  assumes "back_to s' t" "describes rows s s'" "row \<in> set rows" "\<not> is_reminder (rc_key row)"
    and "\<And>i. rc_key row = KRun i \<Longrightarrow> rc_after row \<noteq> None"
  shows "t (rc_key row) = rc_after row"
proof (cases "rc_after row")
  case None
  then have "\<And>i. rc_key row \<noteq> KRun i" using assms(5) by blast
  then show ?thesis using back_to_other [OF assms(1,4)] assms(2,3) by (auto simp: describes_def)
next
  case (Some v)
  then show ?thesis using back_to_Some [OF assms(1,4)] assms(2,3) by (auto simp: describes_def)
qed

lemma undo_back:
  assumes "back_to s' t" "describes rows s s'" "distinct (map rc_key rows)"
    and run: "\<And>k v. s' k = Some v \<Longrightarrow> value_key v = k"
    and kept: "\<And>row i. row \<in> set rows \<Longrightarrow> rc_key row = KRun i \<Longrightarrow> rc_after row \<noteq> None"
  shows "back_to s (undo rows t)"
  unfolding back_to_def
proof (intro allI impI)
  fix k assume k: "\<not> is_reminder k"
  let ?u = "undo rows t k"
  show "?u = s k \<or> s k = None \<and> (\<exists>i run. k = KRun i \<and> ?u = Some (VRun run) \<and> r_status run = Cancelled)"
  proof (cases "find (\<lambda>row. rc_key row = k) rows")
    case None
    then have "s' k = s k" using assms(2) describes_untouched by blast
    moreover have "undo rows t k = t k" using None by (simp add: undo_get [OF assms(3)])
    ultimately show ?thesis using assms(1) k unfolding back_to_def by metis
  next
    case (Some row)
    then have row: "row \<in> set rows" "rc_key row = k" using find_Some_in by fastforce+
    have s: "s k = rc_before row" "s' k = rc_after row" using assms(2) row by (auto simp: describes_def)
    have t: "t k = rc_after row" using found_after [OF assms(1,2) row(1)] row k kept by blast
    have u: "undo rows t k = undone row (t k)" using Some k by (simp add: undo_get [OF assms(3)])
    show ?thesis
    proof (cases "\<exists>i. k = KRun i \<and> s k = None")
      case True
      then obtain i v where i: "k = KRun i" "rc_after row = Some v" using kept [OF row(1)] row(2) by auto
      then obtain r where "v = VRun r" using run [of k v] s by (cases v) auto
      then show ?thesis using True i t u s row(2) by (auto simp: undone_def run_set_status_def)
    next
      case False
      then have "undone row (t k) = s k"
        using s row(2) by (cases "s k"; cases k) (auto simp: undone_def)
      then show ?thesis using u by simp
    qed
  qed
qed

definition state_keyed :: "row_state \<Rightarrow> bool" where
  "state_keyed s \<longleftrightarrow> (\<forall>k v. s k = Some v \<longrightarrow> value_key v = k)"

lemma describes_keyed:
  assumes "describes rows s s'" "state_keyed s'" "\<forall>row \<in> set rows. row_keyed row"
  shows "state_keyed s"
  unfolding state_keyed_def
proof (intro allI impI)
  fix k v assume v: "s k = Some v"
  show "value_key v = k"
  proof (cases "k \<in> rc_key ` set rows")
    case True
    then obtain row where "row \<in> set rows" "rc_key row = k" by blast
    then show ?thesis using assms(1,3) v unfolding describes_def row_keyed_def by metis
  next
    case False
    then have "s' k = Some v" using assms(1) v unfolding describes_def by metis
    then show ?thesis using assms(2) by (simp add: state_keyed_def)
  qed
qed

lemma path_nonempty: "path rs ss \<Longrightarrow> ss \<noteq> []"
  by (cases "(rs, ss)" rule: path.cases) auto

lemma path_snoc:
  "path (rs @ [r]) ss \<Longrightarrow> \<exists>ss' s. ss = ss' @ [s] \<and> path rs ss' \<and> describes (ch_rows r) (last ss') s"
proof (induction rs arbitrary: ss)
  case Nil
  then obtain s s' ss2 where ss: "ss = s # s' # ss2" "describes (ch_rows r) s s'" "path [] (s' # ss2)"
    by (cases "([] @ [r], ss)" rule: path.cases) auto
  then have "ss2 = []" by (cases ss2) auto
  then have "ss = [s] @ [s'] \<and> path [] [s] \<and> describes (ch_rows r) (last [s]) s'" using ss by simp
  then show ?case by blast
next
  case (Cons r' rs)
  then obtain s s' ss2 where ss: "ss = s # s' # ss2" "describes (ch_rows r') s s'" "path (rs @ [r]) (s' # ss2)"
    by (cases "((r' # rs) @ [r], ss)" rule: path.cases) auto
  from Cons.IH [OF ss(3)] obtain ss' t where t: "s' # ss2 = ss' @ [t]" "path rs ss'" "describes (ch_rows r) (last ss') t"
    by blast
  then obtain u us where u: "ss' = u # us" using path_nonempty by (cases ss') auto
  then have "ss = (s # ss') @ [t]" "path (r' # rs) (s # ss')" using ss t by auto
  then show ?case using t(3) u by (metis last_ConsR list.discI)
qed

lemma undo_path:
  assumes "path (rev records) ss" "back_to (last ss) t" "state_keyed (last ss)"
    and "records_keyed records" "never_deleted records"
    and "\<forall>r \<in> set records. distinct (map rc_key (ch_rows r))"
  shows "back_to (hd ss) (undo (concat (map ch_rows records)) t) \<and> all_conflicts records t = []"
  using assms
proof (induction records arbitrary: ss t)
  case Nil
  then show ?case by (cases "([] :: change_record list, ss)" rule: path.cases) auto
next
  case (Cons r records)
  obtain ss' s' where p: "ss = ss' @ [s']" "path (rev records) ss'" "describes (ch_rows r) (last ss') s'"
    using Cons.prems(1) path_snoc by (metis rev.simps(2))
  have t: "back_to s' t" "state_keyed s'" using Cons.prems(2,3) p(1) by simp_all
  have dist: "distinct (map rc_key (ch_rows r))" using Cons.prems(6) by simp
  have kept: "\<And>row i. row \<in> set (ch_rows r) \<Longrightarrow> rc_key row = KRun i \<Longrightarrow> rc_after row \<noteq> None"
    using Cons.prems(5) by (auto simp: never_deleted_def)
  have "back_to (last ss') (undo (ch_rows r) t)"
    using t(2) kept by (intro undo_back [OF t(1) p(3) dist]) (auto simp: state_keyed_def)
  moreover have "state_keyed (last ss')"
    using describes_keyed [OF p(3) t(2)] Cons.prems(4) by (simp add: records_keyed_def)
  ultimately have "back_to (hd ss') (undo (concat (map ch_rows records)) (undo (ch_rows r) t)) \<and>
      all_conflicts records (undo (ch_rows r) t) = []"
    using Cons.prems by (intro Cons.IH p(2)) (simp_all add: records_keyed_def never_deleted_def)
  moreover have "conflicts (ch_seq r) (ch_rows r) t = []"
    using found_after [OF t(1) p(3)] kept by (intro conflicts_none dist) blast
  moreover have "hd ss = hd ss'" using p(1) path_nonempty [OF p(2)] by simp
  ultimately show ?case by (simp add: undo_append)
qed

section \<open>The operation\<close>

lemma keeps_reconcile_run: "keeps (other_tables d0) (reconcile_reminders run_id policy held now)"
proof -
  have "other_tables d0 (delete_reminder i d)" if "other_tables d0 d" for i d
    using that by (simp add: other_tables_def delete_reminder_def)
  then show ?thesis
    unfolding reconcile_reminders_def Let_def add_reminder_def
    by (intro keeps_rules) (auto intro: rest.insert_reminder)
qed

lemma other_tables_current: "other_tables d d' \<Longrightarrow> \<not> is_reminder k \<Longrightarrow> current d' k = current d k"
  by (cases k) (auto simp: current_defs is_reminder_def dest: other_tablesD)

lemma apply_revert_cases:
  assumes "apply_revert records scope mode policy held now (d, ids) = Ok (out, d', ids')"
  defines "st \<equiv> revert_records scope records d"
  shows "if mode = Strict \<and> rs_conflicts st \<noteq> []
    then out = RevertConflicts (map ch_seq records) (rs_conflicts st) \<and> d' = d \<and> ids' = ids
    else (\<exists>notices. out = Reverted (map ch_seq records) (rs_cancelled st) (rs_conflicts st) (rs_skipped st) notices [] None) \<and>
      other_tables (rs_trial st) d'"
proof (cases "mode = Strict \<and> rs_conflicts st \<noteq> []")
  case True
  then show ?thesis using assms by (auto simp: apply_revert_def run_simps Let_def)
next
  case False
  let ?moved = "\<lambda>run_id trial. case (draft_run d run_id, draft_run trial run_id) of
      (Some was, Some run) \<Rightarrow> r_datetime was \<noteq> r_datetime run \<or> r_status was \<noteq> r_status run
    | (None, Some _) \<Rightarrow> True
    | _ \<Rightarrow> False"
  let ?loop = "each (\<lambda>run_id. bnd (reads (?moved run_id)) (\<lambda>moved.
      only_if moved (reconcile_reminders run_id policy held now))) (rs_runs st)"
  have "\<exists>d1 ids1 notices. ?loop (rs_trial st, ids) = Ok ((), d1, ids1) \<and> d' = d1 \<and>
      out = Reverted (map ch_seq records) (rs_cancelled st) (rs_conflicts st) (rs_skipped st) notices [] None"
    using assms(1) False unfolding apply_revert_def st_def [symmetric]
    by (auto simp: run_simps Let_def seq_def st_def [symmetric] elim!: bnd_OkE)
  then obtain d1 ids1 notices where l: "?loop (rs_trial st, ids) = Ok ((), d1, ids1)" "d' = d1"
    "out = Reverted (map ch_seq records) (rs_cancelled st) (rs_conflicts st) (rs_skipped st) notices [] None"
    by blast
  have "keeps (other_tables (rs_trial st)) ?loop" by (intro keeps_rules keeps_reconcile_run)
  from validD [OF this l(1)] have "other_tables (rs_trial st) d'" using l(2) by simp
  then show ?thesis using False l(3) by simp
qed

lemma whole_skips_none: "rs_skipped (revert_records Whole records d) = []"
proof -
  have row: "rs_skipped (revert_row Whole r row st) = rs_skipped st" for r row st
  proof -
    have "rs_skipped (note_key k st) = rs_skipped st" for k by (cases k) simp_all
    then show ?thesis by (simp add: revert_row_def Let_def split: prod.split)
  qed
  have rows: "rs_skipped (fold (revert_row Whole r) rows st) = rs_skipped st" for r rows st
    by (induction rows arbitrary: st) (simp_all add: row)
  have "rs_skipped (fold (\<lambda>r st. fold (revert_row Whole r) (ch_rows r) st) records st) = rs_skipped st" for st
    by (induction records arbitrary: st) (simp_all add: rows)
  then show ?thesis by (simp add: revert_records_def)
qed

section \<open>The rows a change set alters\<close>

definition loaded :: "draft \<Rightarrow> draft \<Rightarrow> bool" where
  "loaded d0 d \<longleftrightarrow>
     dr_fixed d0 = keyed (sn_fixed_runs (dr_base d)) f_id \<and> dr_runs d0 = keyed (sn_runs (dr_base d)) r_id \<and>
     dr_reminders d0 = keyed (sn_reminders (dr_base d)) m_id \<and> dr_rsvps d0 = keyed (sn_rsvps (dr_base d)) rsvp_key"

lemma written_key:
  assumes "t_ok cur" "tbl.keyed_by key cur" "t_get cur k \<noteq> t_get base k"
  shows "(\<exists>row. PutIt row \<in> set (puts base cur PutIt) \<and> key row = k) \<or> DelIt k \<in> set (deletes base cur DelIt)"
proof (cases "t_get cur k")
  case None
  then obtain row where "t_get base k = Some row" using assms(3) by (cases "t_get base k") auto
  then have "k \<in> set (t_keys base)" by (metis option.discI t_has_def t_has_iff)
  then show ?thesis using None by (simp add: deletes_def t_has_def)
next
  case (Some row)
  then have "(k, row) \<in> set cur" by (rule t_get_in)
  then have "PutIt row \<in> set (puts base cur PutIt)" using Some assms(3) by (force simp: puts_def)
  then show ?thesis using keyed_by_in [OF assms(1,2) \<open>(k, row) \<in> set cur\<close>] by blast
qed

lemma altered_key_changed:
  assumes "rows_keyed d" "loaded d0 d" "\<And>i. draft_run d0 i \<noteq> None \<Longrightarrow> draft_run d i \<noteq> None"
    and "current d0 k \<noteq> current d k"
  shows "k \<in> change_key ` set (into_changes d)"
proof -
  note k = assms(1) [unfolded rows_keyed_def] and l = assms(2) [unfolded loaded_def]
  show ?thesis
  proof (cases k)
    case (KFixedRun i)
    then have "t_get (dr_fixed d) i \<noteq> t_get (dr_fixed d0) i" using assms(4) by (auto simp: current_defs)
    from written_key [OF _ _ this, of f_id PutFixedRun DeleteFixedRun] show ?thesis
      using k l KFixedRun by (force simp: into_changes_def Let_def)
  next
    case (KRun i)
    then have ne: "t_get (dr_runs d) i \<noteq> t_get (dr_runs d0) i" using assms(4) by (auto simp: current_defs)
    then obtain row where row: "t_get (dr_runs d) i = Some row"
      using assms(3) [of i] by (cases "t_get (dr_runs d) i"; cases "t_get (dr_runs d0) i") (auto simp: draft_run_def)
    then have "PutRun row \<in> set (puts (dr_runs d0) (dr_runs d) PutRun)"
      using ne t_get_in [OF row] by (force simp: puts_def)
    moreover have "r_id row = i" using k keyed_by_in [OF _ _ t_get_in [OF row]] by blast
    ultimately show ?thesis using l KRun by (force simp: into_changes_def Let_def)
  next
    case (KReminder i)
    then have "t_get (dr_reminders d) i \<noteq> t_get (dr_reminders d0) i" using assms(4) by (auto simp: current_defs)
    from written_key [OF _ _ this, of m_id PutReminder DeleteReminder] show ?thesis
      using k l KReminder by (force simp: into_changes_def Let_def)
  next
    case (KRsvp r u)
    then have "t_get (dr_rsvps d) (r, u) \<noteq> t_get (dr_rsvps d0) (r, u)" using assms(4) by (auto simp: current_defs)
    from written_key [OF _ _ this, of rsvp_key PutRsvp "\<lambda>(run_id, user_id). DeleteRsvp run_id user_id"] show ?thesis
      using k l KRsvp by (force simp: into_changes_def Let_def rsvp_key_def)
  qed
qed

lemma changed_rows_describe:
  assumes "\<And>k. current d0 k \<noteq> current d k \<Longrightarrow> k \<in> change_key ` set changes"
  shows "describes (changed_rows d0 d changes) (current d0) (current d)"
    "distinct (map rc_key (changed_rows d0 d changes))"
proof -
  show "describes (changed_rows d0 d changes) (current d0) (current d)"
    using assms unfolding describes_def changed_rows_def Let_def by (force simp: image_iff)
  show "distinct (map rc_key (changed_rows d0 d changes))"
    by (simp add: changed_rows_def Let_def comp_def sorted_remdups_adj_distinct)
qed

lemma rows_keyed_state: "rows_keyed d \<Longrightarrow> state_keyed (current d)"
  unfolding state_keyed_def
proof (intro allI impI)
  fix k v assume d: "rows_keyed d" and v: "current d k = Some v"
  note k = d [unfolded rows_keyed_def]
  show "value_key v = k"
    using v k by (cases k) (auto simp: current_defs tbl.keyed_by_def rsvp_key_def)
qed

lemma revert_path:
  assumes "apply_revert records Whole mode policy held now (d, ids) = Ok (out, d', ids')"
    and "path (rev records) ss" "\<forall>k. is_reminder k \<or> current d k = last ss k" "state_keyed (last ss)"
    and "records_keyed records" "never_deleted records"
    and "\<forall>r \<in> set records. distinct (map rc_key (ch_rows r))"
  shows "(\<exists>cancelled notices. out = Reverted (map ch_seq records) cancelled [] [] notices [] None) \<and>
    back_to (hd ss) (current d')"
proof -
  have "back_to (last ss) (current d)" using assms(3) by (auto simp: back_to_def)
  from undo_path [OF assms(2) this assms(4-7)]
  have u: "back_to (hd ss) (undo (concat (map ch_rows records)) (current d))"
      "all_conflicts records (current d) = []" by simp_all
  have "(\<exists>notices. out = Reverted (map ch_seq records) (rs_cancelled (revert_records Whole records d)) [] [] notices [] None) \<and>
      other_tables (rs_trial (revert_records Whole records d)) d'"
    using apply_revert_cases [OF assms(1)] u(2) by (simp add: revert_records_whole [OF assms(5)] whole_skips_none)
  then show ?thesis
    using u(1) other_tables_current revert_records_whole(1) [OF assms(5)] unfolding back_to_def by metis
qed

section \<open>Properties\<close>

text \<open>C20. A revert of whole records does exactly what undoing their rows one after the other, newest
  record first, does to every row but reminders, and reports exactly the rows found not to hold
  what their record left. A strict revert that meets such a row reports all of them and changes
  nothing, not even the ids drawn.\<close>

theorem revert_meets_spec:
  assumes "apply_revert records Whole mode policy held now (d, ids) = Ok (out, d', ids')"
    and "records_keyed records"
  shows "let conflicts = all_conflicts records (current d) in
    if mode = Strict \<and> conflicts \<noteq> []
    then out = RevertConflicts (map ch_seq records) conflicts \<and> d' = d \<and> ids' = ids
    else (\<exists>cancelled notices. out = Reverted (map ch_seq records) cancelled conflicts [] notices [] None) \<and>
      (\<forall>k. is_reminder k \<or> current d' k = undo (concat (map ch_rows records)) (current d) k)"
  using apply_revert_cases [OF assms(1)] other_tables_current
    revert_records_whole [OF assms(2)] whole_skips_none
  by (fastforce simp: Let_def split: if_splits)


text \<open>C9. Any planned operations can be taken back: the rows recorded with their commit describe
  exactly what the operations did, so reverting the record puts every weekly timing, run and
  answer back to what it was loaded as; runs the operations created stay, cancelled. The
  reminders may be at any other state by then.\<close>

theorem revert_undoes_operations:
  assumes "apply_ops lower ops (start_draft base p e, ids) = Ok ((), d, ids')"
    and "ch_rows r = changed_rows (start_draft base p e) d (into_changes d)"
    and "\<forall>k. is_reminder k \<or> current later k = current d k"
    and "apply_revert [r] Whole mode policy held now (later, ids2) = Ok (out, d', ids2')"
  shows "(\<exists>cancelled notices. out = Reverted [ch_seq r] cancelled [] [] notices [] None) \<and>
    back_to (current (start_draft base p e)) (current d')"
proof -
  let ?s = "start_draft base p e"
  have k: "rows_keyed d" using validD [OF keyed.keeps_apply_ops assms(1)] by simp
  have "grown_from ?s d" using validD [OF grown.keeps_apply_ops assms(1)] by simp
  then have g: "dr_base d = base" "\<And>i. draft_run ?s i \<noteq> None \<Longrightarrow> draft_run d i \<noteq> None"
    by (auto simp: grown_from_def draft_run_def)
  have "loaded ?s d" by (simp add: loaded_def g(1))
  from changed_rows_describe [OF altered_key_changed [OF k this g(2)]] assms(2)
  have rows: "describes (ch_rows r) (current ?s) (current d)" "distinct (map rc_key (ch_rows r))" by simp_all
  have "never_deleted [r]" "records_keyed [r]"
  proof -
    have "rc_before row = current ?s (rc_key row) \<and> rc_after row = current d (rc_key row) \<and>
        rc_before row \<noteq> rc_after row" if "row \<in> set (ch_rows r)" for row
      using that assms(2) by (auto simp: changed_rows_def Let_def)
    moreover have "current d (KRun i) \<noteq> None" if "current ?s (KRun i) \<noteq> current d (KRun i)" for i
      using that g(2) [of i] by (cases "draft_run ?s i"; cases "draft_run d i") auto
    ultimately show "never_deleted [r]" by (fastforce simp: never_deleted_def)
    show "records_keyed [r]"
      using rows(1) rows_keyed_state [OF start_keyed, of base p e]
      by (auto simp: records_keyed_def row_keyed_def describes_def state_keyed_def)
  qed
  moreover have "path (rev [r]) [current ?s, current d]" using rows(1) by simp
  ultimately show ?thesis
    using revert_path [OF assms(4), of "[current ?s, current d]"] assms(3) rows(2) rows_keyed_state [OF k] by simp
qed

text \<open>The sample timing's run after some operations, and the record of them.\<close>

definition sample_record :: "row_change list \<Rightarrow> change_record" where
  "sample_record rows =
     \<lparr>ch_seq = 1, ch_id = lit ''c1'', ch_revision = 2, ch_at = 0,
      ch_origin = origin_new (ActMember (lit ''11'')) Discord, ch_weeks = [0], ch_rows = rows, ch_notices = [],
      ch_refs = [], ch_prev_hash = [], ch_hash = []\<rparr>"

definition sample_start :: draft where
  "sample_start = start_draft sample_base attendance_v5 None"

lemma sample_reverted:
  obtains d ids out d' ids' where
    "apply_ops (\<lambda>s. s) sample_ops (start_draft sample_base attendance_v5 None, sample_ids) = Ok ((), d, ids)"
    "apply_revert [sample_record (changed_rows sample_start d (into_changes d))] Whole Strict
       (sp_reminders sample_policy) [] 0 (d, sample_ids) = Ok (out, d', ids')"
proof -
  have "is_ok_and (\<lambda>(_, d, _). is_ok_and (\<lambda>_. True)
        (apply_revert [sample_record (changed_rows sample_start d (into_changes d))] Whole Strict
          (sp_reminders sample_policy) [] 0 (d, sample_ids)))
      (apply_ops (\<lambda>s. s) sample_ops (start_draft sample_base attendance_v5 None, sample_ids))"
    by code_simp
  then show thesis using that by (auto simp only: is_ok_and_def split: sum.splits prod.splits)
qed

theorem revert_undoes_operations_witness:
  "\<exists>d ids out d' ids'.
     apply_ops (\<lambda>s. s) sample_ops (start_draft sample_base attendance_v5 None, sample_ids) = Ok ((), d, ids) \<and>
     apply_revert [sample_record (changed_rows sample_start d (into_changes d))] Whole Strict
       (sp_reminders sample_policy) [] 0 (d, sample_ids) = Ok (out, d', ids') \<and>
     back_to (current sample_start) (current d')"
proof -
  obtain d ids out d' ids' where run:
    "apply_ops (\<lambda>s. s) sample_ops (start_draft sample_base attendance_v5 None, sample_ids) = Ok ((), d, ids)"
    "apply_revert [sample_record (changed_rows sample_start d (into_changes d))] Whole Strict
       (sp_reminders sample_policy) [] 0 (d, sample_ids) = Ok (out, d', ids')"
    by (rule sample_reverted)
  have "ch_rows (sample_record (changed_rows sample_start d (into_changes d))) =
      changed_rows (start_draft sample_base attendance_v5 None) d (into_changes d)"
    by (simp add: sample_record_def sample_start_def)
  from revert_undoes_operations [OF run(1) this _ run(2)] show ?thesis
    using run unfolding sample_start_def by blast
qed

text \<open>Two records with nothing in them, and a record of a timing that is no longer as it left it.\<close>

lemma sample_revert_runs:
  assumes "rows = [] \<or> rows = sample_rows"
  shows "\<exists>out d' ids'. apply_revert [sample_record rows] Whole Strict policy [] 0 (sample_start, sample_ids)
    = Ok (out, d', ids')"
proof -
  have "rs_runs (revert_records Whole [sample_record rows] sample_start) = []"
    using assms
    by (auto simp: revert_records_def sample_record_def revert_row_def sample_rows_def is_reminder_def Let_def
        split: prod.split)
  then show ?thesis by (auto simp: apply_revert_def run_simps Let_def seq_def)
qed


theorem revert_meets_spec_witness:
  "\<exists>cs. cs \<noteq> [] \<and> apply_revert [sample_record sample_rows] Whole Strict (sp_reminders sample_policy) [] 0
       (sample_start, sample_ids) = Ok (RevertConflicts [1] cs, sample_start, sample_ids)"
proof -
  let ?r = "sample_record sample_rows"
  obtain out d' ids' where run: "apply_revert [?r] Whole Strict (sp_reminders sample_policy) [] 0
       (sample_start, sample_ids) = Ok (out, d', ids')"
    using sample_revert_runs by blast
  have keyed: "records_keyed [?r]"
    by (simp add: records_keyed_def row_keyed_def sample_record_def sample_rows_def sample_fixed_def)
  have "current sample_start (KFixedRun (lit ''f1'')) = Some (VFixedRun sample_fixed)"
    by (simp add: sample_start_def draft_fixed_run_def sample_base_def keyed_def t_collect_def t_get_def
        sample_fixed_def)
  then have c: "all_conflicts [?r] (current sample_start) \<noteq> []"
    by (simp add: sample_record_def sample_rows_def is_reminder_def)
  show ?thesis
    using revert_meets_spec [OF run keyed] c run by (auto simp: Let_def sample_record_def)
qed

end
