(* ===== verification/Blame.thy ===== *)
theory Blame
  imports Revert
begin

text \<open>
  Which fields a record set (\<open>changed_fields\<close> of \<open>history/blame.rs\<close>), how a change is attributed,
  and what an edit may declare of the fields it saw (\<open>history/precondition.rs\<close>). A
  \<open>BTreeSet\<close> of pairs is the HOL set of them. The meaning of a field is \<open>field_now\<close>, its value in a
  schedule.
\<close>

section \<open>Field names\<close>

definition run_field_names :: "str list" where
  "run_field_names = [lit ''slot'', lit ''bosses'', lit ''participants'', lit ''channel'', lit ''status'']"

definition fixed_field_names :: "str list" where
  "fixed_field_names =
     [lit ''day'', lit ''time'', lit ''bosses'', lit ''participants'', lit ''channel'', lit ''note'', lit ''owner'']"

definition rsvp_prefix :: str where
  "rsvp_prefix = lit ''rsvp:''"

definition rsvp_field :: "str \<Rightarrow> str" where
  "rsvp_field user_id = rsvp_prefix @ user_id"

definition attendance_default_field :: str where
  "attendance_default_field = lit ''attendance_default''"

definition standing_prefix :: str where
  "standing_prefix = lit ''standing:''"

definition standing_field :: "str \<Rightarrow> str" where
  "standing_field user_id = standing_prefix @ user_id"

definition status_pin_field :: str where
  "status_pin_field = lit ''status_pin''"

definition attended_prefix :: str where
  "attended_prefix = lit ''attended:''"

definition attended_field :: "str \<Rightarrow> str" where
  "attended_field user_id = attended_prefix @ user_id"

definition strip_prefix :: "str \<Rightarrow> str \<Rightarrow> str option" where
  "strip_prefix p s = (if starts_with s p then Some (drop (length p) s) else None)"

section \<open>What a row change sets\<close>

text \<open>The users of a \<open>symmetric_difference\<close>, each once in order.\<close>

definition differing_users :: "('a \<Rightarrow> str) \<Rightarrow> 'a list \<Rightarrow> 'a list \<Rightarrow> str list" where
  "differing_users user was now =
     remdups_adj (sort (map user (filter (\<lambda>x. \<not> contains now x) was @ filter (\<lambda>x. \<not> contains was x) now)))"

definition attendance_fields :: "fixed_run option \<Rightarrow> fixed_run option \<Rightarrow> str list" where
  "attendance_fields before after =
     (case after of
        None \<Rightarrow> []
      | Some after \<Rightarrow>
          let default_before = (case before of None \<Rightarrow> OptIn | Some row \<Rightarrow> f_attendance_default row)
          in (if default_before \<noteq> f_attendance_default after then [attendance_default_field] else []) @
             map standing_field (differing_users st_user_id
               (case before of None \<Rightarrow> [] | Some row \<Rightarrow> f_standing row) (f_standing after)))"

definition attended_fields :: "run option \<Rightarrow> run option \<Rightarrow> str list" where
  "attended_fields before after =
     (case after of
        None \<Rightarrow> []
      | Some after \<Rightarrow>
          map attended_field (differing_users ar_user_id
            (case before of None \<Rightarrow> [] | Some row \<Rightarrow> r_attendance row) (r_attendance after)))"

definition run_fields :: "run option \<Rightarrow> run option \<Rightarrow> str list" where
  "run_fields before after =
     (case after of
        None \<Rightarrow> []
      | Some after \<Rightarrow>
          (case before of
             None \<Rightarrow> run_field_names
           | Some before \<Rightarrow>
               let slot = (r_week_start before, r_datetime before, r_source before, r_fixed_run_id before) \<noteq>
                          (r_week_start after, r_datetime after, r_source after, r_fixed_run_id after)
               in map fst (filter snd
                    [(lit ''slot'', slot), (lit ''bosses'', r_bosses before \<noteq> r_bosses after),
                     (lit ''participants'', r_participants before \<noteq> r_participants after),
                     (lit ''channel'', r_channel_id before \<noteq> r_channel_id after),
                     (lit ''status'', r_status before \<noteq> r_status after)])))"

definition fixed_fields :: "fixed_run option \<Rightarrow> fixed_run option \<Rightarrow> str list" where
  "fixed_fields before after =
     (case after of
        None \<Rightarrow> []
      | Some after \<Rightarrow>
          (case before of
             None \<Rightarrow> fixed_field_names
           | Some before \<Rightarrow>
               map fst (filter snd
                 [(lit ''day'', f_weekday before \<noteq> f_weekday after), (lit ''time'', f_time before \<noteq> f_time after),
                  (lit ''bosses'', f_bosses before \<noteq> f_bosses after),
                  (lit ''participants'', f_participants before \<noteq> f_participants after),
                  (lit ''channel'', f_channel_id before \<noteq> f_channel_id after),
                  (lit ''note'', f_note before \<noteq> f_note after),
                  (lit ''owner'', f_owner_id before \<noteq> f_owner_id after \<or>
                     f_owner_pinned before \<noteq> f_owner_pinned after)])))"

fun as_run :: "row_value option \<Rightarrow> run option" where
  "as_run (Some (VRun row)) = Some row"
| "as_run _ = None"

fun as_fixed :: "row_value option \<Rightarrow> fixed_run option" where
  "as_fixed (Some (VFixedRun row)) = Some row"
| "as_fixed _ = None"

definition row_fields :: "row_change \<Rightarrow> (blame_target \<times> str) list" where
  "row_fields row =
     (case rc_key row of
        KRun i \<Rightarrow>
          let before = as_run (rc_before row); after = as_run (rc_after row)
          in map (Pair (OnRun i))
               (run_fields before after @ attended_fields before after @
                (case after of
                   Some a \<Rightarrow>
                     if Option.bind before r_status_pin \<noteq> r_status_pin a then [status_pin_field] else []
                 | None \<Rightarrow> []))
      | KFixedRun i \<Rightarrow>
          let before = as_fixed (rc_before row); after = as_fixed (rc_after row)
          in map (Pair (OnFixedRun i)) (fixed_fields before after @ attendance_fields before after)
      | KRsvp run_id user_id \<Rightarrow> [(OnRun run_id, rsvp_field user_id)]
      | KReminder _ \<Rightarrow> [])"

definition changed_fields :: "change_record \<Rightarrow> (blame_target \<times> str) set" where
  "changed_fields r = set (concat (map row_fields (ch_rows r)))"

section \<open>Attribution\<close>

definition edit_override :: str where
  "edit_override = lit ''notice.edit.override''"

definition rollback_restored :: str where
  "rollback_restored = lit ''notice.rollback.restored''"

datatype change_via =
    Direct
  | RolledBack (via_undid: "change_ref list") (via_restored_to: "change_ref option")
  | Referenced "change_ref list"
  | Override (via_picked: "change_ref option") (via_overridden: "change_ref list")

record attribution =
  at_seq :: nat
  at_actor :: actor
  at_surface :: surface
  at_at :: instant
  at_via :: change_via

definition attribution_of :: "change_record \<Rightarrow> attribution" where
  "attribution_of r =
     (let surface = og_surface (ch_origin r); refs = ch_refs r;
          via =
            (if surface = Rollback then
               (if contains (ch_notices r) rollback_restored
                then (if refs = [] then RolledBack [] None else RolledBack (butlast refs) (Some (last refs)))
                else RolledBack refs None)
             else if contains (ch_notices r) edit_override then
               (if surface = CherryPick \<and> refs \<noteq> [] then Override (Some (hd refs)) (tl refs)
                else Override None refs)
             else if refs = [] then Direct
             else Referenced refs)
      in \<lparr>at_seq = ch_seq r, at_actor = og_actor (ch_origin r), at_surface = surface, at_at = ch_at r,
          at_via = via\<rparr>)"

section \<open>Preconditions\<close>

fun target_key :: "blame_target \<Rightarrow> row_key" where
  "target_key (OnRun i) = KRun i"
| "target_key (OnFixedRun i) = KFixedRun i"

definition pc_value_key :: "precondition \<Rightarrow> row_key" where
  "pc_value_key p =
     (case (pc_target p, strip_prefix rsvp_prefix (pc_field p)) of
        (OnRun run_id, Some user_id) \<Rightarrow> KRsvp run_id user_id
      | _ \<Rightarrow> target_key (pc_target p))"

datatype precondition_error =
    UnknownField blame_target str
  | DuplicateField blame_target str
  | UnknownTarget blame_target
  | OverrideNotAdmin
  | OverrideNotSeen nat
  | OverrideUnchanged nat
  | UnknownOverride nat

definition named_user :: "str \<Rightarrow> str \<Rightarrow> bool" where
  "named_user prefix field =
     (case strip_prefix prefix field of Some user \<Rightarrow> user \<noteq> [] | None \<Rightarrow> False)"

definition known_field :: "precondition \<Rightarrow> bool" where
  "known_field p =
     (case pc_target p of
        OnRun _ \<Rightarrow>
          contains run_field_names (pc_field p) \<or> pc_field p = status_pin_field \<or>
          list_ex (\<lambda>prefix. named_user prefix (pc_field p)) [rsvp_prefix, attended_prefix]
      | OnFixedRun _ \<Rightarrow>
          contains fixed_field_names (pc_field p) \<or> pc_field p = attendance_default_field \<or>
          named_user standing_prefix (pc_field p))"

fun validate_loop :: "(blame_target \<times> str) list \<Rightarrow> precondition list \<Rightarrow> precondition_error + unit" where
  "validate_loop seen [] = Ok ()"
| "validate_loop seen (p # ps) =
     (if \<not> known_field p then Err (UnknownField (pc_target p) (pc_field p))
      else if contains seen (pc_target p, pc_field p) then Err (DuplicateField (pc_target p) (pc_field p))
      else validate_loop ((pc_target p, pc_field p) # seen) ps)"

definition validate_fields :: "precondition list \<Rightarrow> precondition_error + unit" where
  "validate_fields ps = validate_loop [] ps"

definition is_admin :: "actor \<Rightarrow> bool" where
  "is_admin who = (case who of ActAdmin _ \<Rightarrow> True | _ \<Rightarrow> False)"

definition check_override_actor :: "expect \<Rightarrow> actor \<Rightarrow> precondition_error + unit" where
  "check_override_actor ex who =
     (if ex_overrides ex = [] \<or> is_admin who then Ok () else Err OverrideNotAdmin)"

fun first_error :: "('a \<Rightarrow> bool) \<Rightarrow> ('a \<Rightarrow> 'e) \<Rightarrow> 'a list \<Rightarrow> 'e + unit" where
  "first_error ok err [] = Ok ()"
| "first_error ok err (x # xs) = (if ok x then first_error ok err xs else Err (err x))"

definition expect_validate :: "expect \<Rightarrow> actor \<Rightarrow> precondition_error + unit" where
  "expect_validate ex who =
     res_bind (validate_fields (ex_fields ex)) (\<lambda>_.
     res_bind (check_override_actor ex who) (\<lambda>_.
     first_error (\<lambda>r. list_ex (\<lambda>p. pc_seen p = Some (cr_seq r)) (ex_fields ex))
       (\<lambda>r. OverrideNotSeen (cr_seq r)) (ex_overrides ex)))"

definition check_overrides_changed ::
  "expect \<Rightarrow> (blame_target \<times> str) set \<Rightarrow> precondition_error + unit" where
  "check_overrides_changed ex changed =
     first_error
       (\<lambda>r. list_ex (\<lambda>p. pc_seen p = Some (cr_seq r) \<and> (pc_target p, pc_field p) \<in> changed) (ex_fields ex))
       (\<lambda>r. OverrideUnchanged (cr_seq r)) (ex_overrides ex)"

record last_change =
  lc_change :: change_ref
  lc_actor :: actor
  lc_at :: instant

record stale_field =
  sf_target :: blame_target
  sf_field :: str
  sf_expected :: "nat option"
  sf_current :: "last_change option"
  sf_target_deleted :: bool
  sf_current_value :: "row_value option"

record field_status =
  fn_last :: "last_change option"
  fn_target_exists :: bool
  fn_ever_recorded :: bool
  fn_value :: "row_value option"

definition check_field :: "precondition \<Rightarrow> field_status \<Rightarrow> precondition_error + stale_field option" where
  "check_field p now =
     (if \<not> fn_target_exists now \<and> \<not> fn_ever_recorded now then Err (UnknownTarget (pc_target p))
      else
        let current_seq = map_option (\<lambda>l. cr_seq (lc_change l)) (fn_last now)
        in Ok (if current_seq \<noteq> pc_seen p \<or> \<not> fn_target_exists now then
                 Some \<lparr>sf_target = pc_target p, sf_field = pc_field p, sf_expected = pc_seen p,
                       sf_current = fn_last now, sf_target_deleted = (\<not> fn_target_exists now),
                       sf_current_value = fn_value now\<rparr>
               else None))"

section \<open>What a field is\<close>

text \<open>The value a field has in a schedule; \<open>None\<close> when the row is not there or has no such field.\<close>

datatype field_value =
    SlotValue instant instant run_source "str option"
  | TextsValue "str list"
  | TextValue "str option"
  | StatusValue run_status
  | DayValue weekday
  | TimeValue clock
  | OwnerValue str bool
  | DefaultValue attendance_default
  | PinValue "status_pin option"
  | AttendedValue "attendance_record set"
  | StandingValue "standing_answer set"
  | AnswerValue "row_value option"

definition run_field_now :: "row_state \<Rightarrow> str \<Rightarrow> run \<Rightarrow> str \<Rightarrow> field_value option" where
  "run_field_now s i row f =
     (if f = lit ''slot'' then
        Some (SlotValue (r_week_start row) (r_datetime row) (r_source row) (r_fixed_run_id row))
      else if f = lit ''bosses'' then Some (TextsValue (r_bosses row))
      else if f = lit ''participants'' then Some (TextsValue (r_participants row))
      else if f = lit ''channel'' then Some (TextValue (r_channel_id row))
      else if f = lit ''status'' then Some (StatusValue (r_status row))
      else if f = status_pin_field then Some (PinValue (r_status_pin row))
      else
        (case strip_prefix rsvp_prefix f of
           Some u \<Rightarrow> Some (AnswerValue (s (KRsvp i u)))
         | None \<Rightarrow>
             map_option (\<lambda>u. AttendedValue {x \<in> set (r_attendance row). ar_user_id x = u})
               (strip_prefix attended_prefix f)))"

definition fixed_field_now :: "fixed_run \<Rightarrow> str \<Rightarrow> field_value option" where
  "fixed_field_now row f =
     (if f = lit ''day'' then Some (DayValue (f_weekday row))
      else if f = lit ''time'' then Some (TimeValue (f_time row))
      else if f = lit ''bosses'' then Some (TextsValue (f_bosses row))
      else if f = lit ''participants'' then Some (TextsValue (f_participants row))
      else if f = lit ''channel'' then Some (TextValue (f_channel_id row))
      else if f = lit ''note'' then Some (TextValue (f_note row))
      else if f = lit ''owner'' then Some (OwnerValue (f_owner_id row) (f_owner_pinned row))
      else if f = attendance_default_field then Some (DefaultValue (f_attendance_default row))
      else map_option (\<lambda>u. StandingValue {x \<in> set (f_standing row). st_user_id x = u})
             (strip_prefix standing_prefix f))"

fun field_now :: "row_state \<Rightarrow> blame_target \<Rightarrow> str \<Rightarrow> field_value option" where
  "field_now s (OnRun i) f = Option.bind (as_run (s (KRun i))) (\<lambda>row. run_field_now s i row f)"
| "field_now s (OnFixedRun i) f = Option.bind (as_fixed (s (KFixedRun i))) (\<lambda>row. fixed_field_now row f)"

lemma strip_prefix_Some: "strip_prefix p f = Some u \<longleftrightarrow> f = p @ u"
  by (auto simp: strip_prefix_def starts_with_def) (metis append_take_drop_id)

lemma differing_users_iff:
  "u \<in> set (differing_users user was now) \<longleftrightarrow> {x \<in> set was. user x = u} \<noteq> {x \<in> set now. user x = u}"
  by (auto simp: differing_users_def)

lemma differing_users_same [simp]: "differing_users user xs xs = []"
  by (simp add: differing_users_def filter_empty_conv)

named_theorems field_texts "field names as texts"

lemma prefix_texts [field_texts]:
  "rsvp_prefix = lit ''rsvp:''" "standing_prefix = lit ''standing:''" "attended_prefix = lit ''attended:''"
  "status_pin_field = lit ''status_pin''" "attendance_default_field = lit ''attendance_default''"
  by (simp_all add: rsvp_prefix_def standing_prefix_def attended_prefix_def status_pin_field_def
      attendance_default_field_def)

lemma strip_prefix_append [simp]: "strip_prefix p (p @ u) = Some u"
  by (simp add: strip_prefix_Some)

text \<open>No name of a field is that of another.\<close>

lemma run_names_differ:
  "f \<in> set (lit ''status_pin'' # run_field_names) \<Longrightarrow> strip_prefix rsvp_prefix f = None \<and> strip_prefix attended_prefix f = None"
  by (auto simp: run_field_names_def strip_prefix_def starts_with_def field_texts lit_def)

lemma prefixes_differ: "strip_prefix rsvp_prefix (attended_prefix @ u) = None"
  "strip_prefix attended_prefix (rsvp_prefix @ u) = None"
  by (auto simp: strip_prefix_def starts_with_def field_texts lit_def)

lemma fixed_names_differ:
  "f \<in> set (lit ''attendance_default'' # fixed_field_names) \<Longrightarrow> strip_prefix standing_prefix f = None"
  by (auto simp: fixed_field_names_def strip_prefix_def starts_with_def field_texts lit_def)

lemma run_row_fields:
  "f \<in> set (run_fields (Some a) (Some b) @ attended_fields (Some a) (Some b) @
      (if r_status_pin a \<noteq> r_status_pin b then [status_pin_field] else [])) \<or>
     (\<exists>u. f = rsvp_field u \<and> s (KRsvp i u) \<noteq> s' (KRsvp i u)) \<longleftrightarrow>
   run_field_now s i a f \<noteq> run_field_now s' i b f"
proof (cases "f \<in> set (lit ''status_pin'' # run_field_names)")
  case True
  have "f \<noteq> rsvp_field u" "f \<noteq> attended_field u" for u
    using run_names_differ [OF True] strip_prefix_append [of rsvp_prefix u] strip_prefix_append [of attended_prefix u]
    by (auto simp only: rsvp_field_def attended_field_def option.distinct)
  then have "f \<in> set (run_fields (Some a) (Some b) @ attended_fields (Some a) (Some b) @
        (if r_status_pin a \<noteq> r_status_pin b then [status_pin_field] else [])) \<or>
      (\<exists>u. f = rsvp_field u \<and> s (KRsvp i u) \<noteq> s' (KRsvp i u)) \<longleftrightarrow>
      f \<in> set (run_fields (Some a) (Some b)) \<or> f = status_pin_field \<and> r_status_pin a \<noteq> r_status_pin b"
    by (auto simp: attended_fields_def)
  also have "\<dots> \<longleftrightarrow> run_field_now s i a f \<noteq> run_field_now s' i b f"
    using True by (auto simp: run_fields_def run_field_now_def run_field_names_def field_texts Let_def lit_inject)
  finally show ?thesis .
next
  case False
  then have f: "f \<notin> set (run_fields (Some a) (Some b))" "f \<noteq> status_pin_field"
    by (auto simp: run_fields_def run_field_names_def field_texts Let_def split: if_splits)
  have now: "run_field_now s i row f = (case strip_prefix rsvp_prefix f of
        Some u \<Rightarrow> Some (AnswerValue (s (KRsvp i u)))
      | None \<Rightarrow> map_option (\<lambda>u. AttendedValue {x \<in> set (r_attendance row). ar_user_id x = u})
          (strip_prefix attended_prefix f))" for s row
    using False by (simp add: run_field_now_def run_field_names_def field_texts)
  have att: "f \<in> set (attended_fields (Some a) (Some b)) \<longleftrightarrow>
      (\<exists>u. strip_prefix attended_prefix f = Some u \<and>
        {x \<in> set (r_attendance a). ar_user_id x = u} \<noteq> {x \<in> set (r_attendance b). ar_user_id x = u})"
    by (simp add: attended_fields_def attended_field_def strip_prefix_Some image_iff Bex_def differing_users_iff
        conj_commute)
  show ?thesis
  proof (cases "strip_prefix rsvp_prefix f")
    case None
    then have "\<nexists>u. f = rsvp_field u" by (auto simp: rsvp_field_def)
    then show ?thesis using f None unfolding now by (cases "strip_prefix attended_prefix f") (auto simp: att)
  next
    case (Some u)
    then have fu: "f = rsvp_prefix @ u" by (simp add: strip_prefix_Some)
    then have n: "strip_prefix attended_prefix f = None" using prefixes_differ by simp
    then have "f \<notin> set (attended_fields (Some a) (Some b))" by (simp add: att)
    moreover have "(\<exists>u'. f = rsvp_field u' \<and> s (KRsvp i u') \<noteq> s' (KRsvp i u')) \<longleftrightarrow> s (KRsvp i u) \<noteq> s' (KRsvp i u)"
      by (simp add: rsvp_field_def fu)
    ultimately show ?thesis using f unfolding now Some by simp
  qed
qed

lemma fixed_row_fields:
  "f \<in> set (fixed_fields (Some a) (Some b) @ attendance_fields (Some a) (Some b)) \<longleftrightarrow>
   fixed_field_now a f \<noteq> fixed_field_now b f"
proof (cases "f \<in> set (lit ''attendance_default'' # fixed_field_names)")
  case True
  have "f \<noteq> standing_field u" for u
    using fixed_names_differ [OF True] strip_prefix_append [of standing_prefix u]
    by (auto simp only: standing_field_def option.distinct)
  then have "f \<in> set (fixed_fields (Some a) (Some b) @ attendance_fields (Some a) (Some b)) \<longleftrightarrow>
      f \<in> set (fixed_fields (Some a) (Some b)) \<or>
      f = attendance_default_field \<and> f_attendance_default a \<noteq> f_attendance_default b"
    by (auto simp: attendance_fields_def)
  also have "\<dots> \<longleftrightarrow> fixed_field_now a f \<noteq> fixed_field_now b f"
    using True by (auto simp: fixed_fields_def fixed_field_now_def fixed_field_names_def field_texts lit_inject)
  finally show ?thesis .
next
  case False
  then have f: "f \<notin> set (fixed_fields (Some a) (Some b))" "f \<noteq> attendance_default_field"
    by (auto simp: fixed_fields_def fixed_field_names_def field_texts split: if_splits)
  have now: "fixed_field_now row f =
      map_option (\<lambda>u. StandingValue {x \<in> set (f_standing row). st_user_id x = u}) (strip_prefix standing_prefix f)" for row
    using False by (simp add: fixed_field_now_def fixed_field_names_def field_texts)
  have "f \<in> set (attendance_fields (Some a) (Some b)) \<longleftrightarrow>
      (\<exists>u. strip_prefix standing_prefix f = Some u \<and>
        {x \<in> set (f_standing a). st_user_id x = u} \<noteq> {x \<in> set (f_standing b). st_user_id x = u})"
    using f(2) by (simp add: attendance_fields_def standing_field_def strip_prefix_Some image_iff Bex_def
        differing_users_iff conj_commute)
  then show ?thesis using f unfolding now by (cases "strip_prefix standing_prefix f") auto
qed

section \<open>What a record set\<close>

lemma row_same_fields:
  "set (run_fields (Some a) (Some a) @ attended_fields (Some a) (Some a)) = {}"
  "set (fixed_fields (Some b) (Some b) @ attendance_fields (Some b) (Some b)) = {}"
  by (auto simp: run_fields_def attended_fields_def fixed_fields_def attendance_fields_def differing_users_iff Let_def)

lemma run_row_blamed:
  "(OnRun i, f) \<in> set (row_fields row) \<longleftrightarrow>
     rc_key row = KRun i \<and>
       f \<in> set (run_fields (as_run (rc_before row)) (as_run (rc_after row)) @
         attended_fields (as_run (rc_before row)) (as_run (rc_after row)) @
         (case as_run (rc_after row) of
            Some a \<Rightarrow> if Option.bind (as_run (rc_before row)) r_status_pin \<noteq> r_status_pin a then [status_pin_field] else []
          | None \<Rightarrow> [])) \<or>
     (\<exists>u. rc_key row = KRsvp i u \<and> f = rsvp_field u)"
  by (cases "rc_key row") (auto simp: row_fields_def Let_def)

lemma fixed_row_blamed:
  "(OnFixedRun i, f) \<in> set (row_fields row) \<longleftrightarrow>
     rc_key row = KFixedRun i \<and>
       f \<in> set (fixed_fields (as_fixed (rc_before row)) (as_fixed (rc_after row)) @
         attendance_fields (as_fixed (rc_before row)) (as_fixed (rc_after row)))"
  by (cases "rc_key row") (auto simp: row_fields_def Let_def)

lemma changed_run_fields:
  assumes "describes (ch_rows r) s s'" "\<forall>row \<in> set (ch_rows r). rc_before row \<noteq> rc_after row"
    and "s (KRun i) = Some (VRun a)" "s' (KRun i) = Some (VRun b)"
  shows "(OnRun i, f) \<in> changed_fields r \<longleftrightarrow>
    f \<in> set (run_fields (Some a) (Some b) @ attended_fields (Some a) (Some b) @
      (if r_status_pin a \<noteq> r_status_pin b then [status_pin_field] else [])) \<or>
     (\<exists>u. f = rsvp_field u \<and> s (KRsvp i u) \<noteq> s' (KRsvp i u))"
proof -
  let ?fs = "run_fields (Some a) (Some b) @ attended_fields (Some a) (Some b) @
      (if r_status_pin a \<noteq> r_status_pin b then [status_pin_field] else [])"
  have row: "rc_before row = s (rc_key row)" "rc_after row = s' (rc_key row)" "s (rc_key row) \<noteq> s' (rc_key row)"
    if "row \<in> set (ch_rows r)" for row
    using that assms(1,2) by (auto simp: describes_def)
  have listed: "\<exists>row \<in> set (ch_rows r). rc_key row = k" if "s k \<noteq> s' k" for k
    using that assms(1) unfolding describes_def by (metis imageE)
  have "(OnRun i, f) \<in> changed_fields r \<longleftrightarrow>
      (\<exists>row \<in> set (ch_rows r). (OnRun i, f) \<in> set (row_fields row))"
    by (auto simp: changed_fields_def)
  also have "\<dots> \<longleftrightarrow> (\<exists>row \<in> set (ch_rows r). rc_key row = KRun i \<and> f \<in> set ?fs) \<or>
      (\<exists>row \<in> set (ch_rows r). \<exists>u. rc_key row = KRsvp i u \<and> f = rsvp_field u)"
  proof -
    have "(OnRun i, f) \<in> set (row_fields row) \<longleftrightarrow>
        rc_key row = KRun i \<and> f \<in> set ?fs \<or> (\<exists>u. rc_key row = KRsvp i u \<and> f = rsvp_field u)"
      if "row \<in> set (ch_rows r)" for row
      using row [OF that] assms(3,4) by (auto simp: run_row_blamed)
    then show ?thesis by blast
  qed
  also have "(\<exists>row \<in> set (ch_rows r). rc_key row = KRun i \<and> f \<in> set ?fs) \<longleftrightarrow> f \<in> set ?fs"
  proof (cases "a = b")
    case True
    then show ?thesis using row_same_fields(1) [of a] by auto
  next
    case False
    then show ?thesis using listed [of "KRun i"] assms(3,4) by auto
  qed
  also have "(\<exists>row \<in> set (ch_rows r). \<exists>u. rc_key row = KRsvp i u \<and> f = rsvp_field u) \<longleftrightarrow>
      (\<exists>u. f = rsvp_field u \<and> s (KRsvp i u) \<noteq> s' (KRsvp i u))"
    using row listed by metis
  finally show ?thesis .
qed

lemma changed_fixed_fields:
  assumes "describes (ch_rows r) s s'" "\<forall>row \<in> set (ch_rows r). rc_before row \<noteq> rc_after row"
    and "s (KFixedRun i) = Some (VFixedRun a)" "s' (KFixedRun i) = Some (VFixedRun b)"
  shows "(OnFixedRun i, f) \<in> changed_fields r \<longleftrightarrow>
    f \<in> set (fixed_fields (Some a) (Some b) @ attendance_fields (Some a) (Some b))"
proof -
  let ?fs = "fixed_fields (Some a) (Some b) @ attendance_fields (Some a) (Some b)"
  have row: "rc_before row = s (rc_key row)" "rc_after row = s' (rc_key row)" if "row \<in> set (ch_rows r)" for row
    using that assms(1) by (auto simp: describes_def)
  have "(OnFixedRun i, f) \<in> changed_fields r \<longleftrightarrow>
      (\<exists>row \<in> set (ch_rows r). (OnFixedRun i, f) \<in> set (row_fields row))"
    by (auto simp: changed_fields_def)
  also have "\<dots> \<longleftrightarrow> (\<exists>row \<in> set (ch_rows r). rc_key row = KFixedRun i \<and> f \<in> set ?fs)"
  proof -
    have "(OnFixedRun i, f) \<in> set (row_fields row) \<longleftrightarrow> rc_key row = KFixedRun i \<and> f \<in> set ?fs"
      if "row \<in> set (ch_rows r)" for row
      using row [OF that] assms(3,4) by (auto simp: fixed_row_blamed)
    then show ?thesis by blast
  qed
  also have "\<dots> \<longleftrightarrow> f \<in> set ?fs"
  proof (cases "a = b")
    case True
    then show ?thesis using row_same_fields(2) [of a] by auto
  next
    case False
    then have "s (KFixedRun i) \<noteq> s' (KFixedRun i)" using assms(3,4) by simp
    then have "\<exists>row \<in> set (ch_rows r). rc_key row = KFixedRun i"
      using assms(1) unfolding describes_def by (metis imageE)
    then show ?thesis by blast
  qed
  finally show ?thesis .
qed

lemma keyed_value:
  "state_keyed s \<Longrightarrow> s (KRun i) = Some v \<Longrightarrow> \<exists>a. v = VRun a"
  "state_keyed s \<Longrightarrow> s (KFixedRun i) = Some v \<Longrightarrow> \<exists>a. v = VFixedRun a"
  by (cases v; force simp: state_keyed_def)+

lemma set_fields:
  assumes "describes (ch_rows r) s s'" "\<forall>row \<in> set (ch_rows r). rc_before row \<noteq> rc_after row"
    and "state_keyed s" "state_keyed s'" "s (target_key t) \<noteq> None" "s' (target_key t) \<noteq> None"
  shows "(t, f) \<in> changed_fields r \<longleftrightarrow> field_now s t f \<noteq> field_now s' t f"
proof (cases t)
  case (OnRun i)
  then obtain a b where "s (KRun i) = Some (VRun a)" "s' (KRun i) = Some (VRun b)"
    using assms(3-6) keyed_value(1) by fastforce
  then show ?thesis
    using changed_run_fields [OF assms(1,2)] run_row_fields OnRun by simp
next
  case (OnFixedRun i)
  then obtain a b where "s (KFixedRun i) = Some (VFixedRun a)" "s' (KFixedRun i) = Some (VFixedRun b)"
    using assms(3-6) keyed_value(2) by fastforce
  then show ?thesis
    using changed_fixed_fields [OF assms(1,2)] fixed_row_fields OnFixedRun by simp
qed

end
