(* ===== verification/Ledger.thy ===== *)
theory Ledger
  imports Blame
begin

text \<open>
  The commit of the SQLite store with its history (\<open>commit_on\<close> of \<open>sqlite/schedule.rs\<close>, and
  \<open>replayed\<close>, \<open>check_expect\<close>, \<open>append\<close>, \<open>verify_history\<close>, the field index and the checkpoints of
  \<open>sqlite/history.rs\<close>; \<open>kanade-store/src/history.rs\<close>): the replay of a request, the edit
  preconditions, the revision check, the write, and the record of it appended to the chain, all or
  nothing. The connection, the locking of the writer, the outbox and the decline notices written
  in the same transaction are not modelled. A table whose primary key is all its columns is a set.
\<close>

section \<open>What a commit touches\<close>

definition touched_keys :: "change list \<Rightarrow> row_key list" where
  "touched_keys changes = remdups_adj (sort (map change_key changes))"

definition rows_between ::
  "row_key list \<Rightarrow> (row_key \<Rightarrow> row_value option) \<Rightarrow> (row_key \<Rightarrow> row_value option) \<Rightarrow> row_change list" where
  "rows_between keys before after =
     map (\<lambda>key. \<lparr>rc_key = key, rc_before = before key, rc_after = after key\<rparr>)
       (filter (\<lambda>key. before key \<noteq> after key) keys)"

text \<open>The values on both sides of a row change.\<close>

definition row_values :: "row_change \<Rightarrow> row_value list" where
  "row_values row = List.map_filter (\<lambda>v. v) [rc_before row, rc_after row]"

definition value_week :: "(str \<Rightarrow> instant option) \<Rightarrow> row_value \<Rightarrow> instant option" where
  "value_week run_week_of v = (case run_week v of Some w \<Rightarrow> Some w | None \<Rightarrow> Option.bind (owning_run v) run_week_of)"

definition touched_weeks :: "row_change list \<Rightarrow> (str \<Rightarrow> instant option) \<Rightarrow> instant list" where
  "touched_weeks rows run_week_of =
     remdups_adj (sort (List.map_filter (value_week run_week_of) (concat (map row_values rows))))"

section \<open>The store\<close>

record log_row =
  lr_id :: str
  lr_revision :: nat
  lr_at :: instant
  lr_actor_kind :: str
  lr_actor_id :: str
  lr_surface :: str
  lr_request_id :: "str option"
  lr_request_digest :: "str option"
  lr_body :: str
  lr_prev_hash :: str
  lr_hash :: str

datatype checkpoint_kind = AutoMade | AdminMade

record checkpoint =
  ck_name :: str
  ck_kind :: checkpoint_kind
  ck_head :: change_ref
  ck_revision :: nat
  ck_week :: instant
  ck_created_at :: instant
  ck_created_by :: actor

record ledger =
  lg_db :: database
  lg_log :: "(nat, log_row) table"
  lg_weeks :: "(instant \<times> nat) set"
  lg_fields :: "((blame_target \<times> str) \<times> nat) set"
  lg_checkpoints :: "checkpoint list"

fun db_row :: "database \<Rightarrow> row_key \<Rightarrow> row_value option" where
  "db_row db (KFixedRun i) = map_option VFixedRun (t_get (db_fixed db) i)"
| "db_row db (KRun i) = map_option VRun (t_get (db_runs db) i)"
| "db_row db (KReminder i) = map_option VReminder (t_get (db_reminders db) i)"
| "db_row db (KRsvp r u) = map_option VRsvp (t_get (db_rsvps db) (r, u))"

text \<open>\<open>ORDER BY seq DESC LIMIT 1\<close>.\<close>

definition log_head :: "ledger \<Rightarrow> (nat \<times> log_row) option" where
  "log_head lg = (if lg_log lg = [] then None else Some (last (lg_log lg)))"

datatype commit_failure =
    CfStore store_failure
  | CfMismatch nat
  | CfStale "stale_field list"
  | CfPrecondition precondition_error
  | CfBackend

record committed =
  ct_seq :: nat
  ct_revision :: nat
  ct_replayed :: bool

section \<open>Requests made before\<close>

definition recorded_request :: "ledger \<Rightarrow> actor \<Rightarrow> str \<Rightarrow> (committed \<times> str option) option" where
  "recorded_request lg who request_id =
     map_option (\<lambda>(n, row). (\<lparr>ct_seq = n, ct_revision = lr_revision row, ct_replayed = True\<rparr>, lr_request_digest row))
       (find (\<lambda>(n, row). lr_actor_kind row = actor_kind who \<and> lr_actor_id row = actor_id who \<and>
                lr_request_id row = Some request_id) (lg_log lg))"

definition replayed :: "ledger \<Rightarrow> change_meta \<Rightarrow> commit_failure + committed option" where
  "replayed lg meta =
     (case og_request_id (cm_origin meta) of
        None \<Rightarrow> Ok None
      | Some request_id \<Rightarrow>
          (case recorded_request lg (og_actor (cm_origin meta)) request_id of
             None \<Rightarrow> Ok None
           | Some (earlier, digest) \<Rightarrow>
               if digest = cm_request_digest meta then Ok (Some earlier)
               else Err (CfMismatch (ct_seq earlier))))"

section \<open>Edit preconditions\<close>

definition last_change_of :: "ledger \<Rightarrow> nat \<Rightarrow> commit_failure + last_change option" where
  "last_change_of lg n =
     (case t_get (lg_log lg) n of
        None \<Rightarrow> Ok None
      | Some row \<Rightarrow>
          res_bind (ok_or CfBackend (actor_from_parts (lr_actor_kind row) (lr_actor_id row))) (\<lambda>who.
          Ok (Some \<lparr>lc_change = \<lparr>cr_seq = n, cr_hash = lr_hash row\<rparr>, lc_actor = who, lc_at = lr_at row\<rparr>)))"

text \<open>\<open>SELECT MAX(seq) FROM change_fields\<close> of a target's field.\<close>

definition field_last :: "ledger \<Rightarrow> blame_target \<Rightarrow> str \<Rightarrow> nat option" where
  "field_last lg t f =
     (let seqs = snd ` Set.filter (\<lambda>e. fst e = (t, f)) (lg_fields lg)
      in if seqs = {} then None else Some (Max seqs))"

definition field_status_of :: "ledger \<Rightarrow> precondition \<Rightarrow> commit_failure + field_status" where
  "field_status_of lg p =
     res_bind (case field_last lg (pc_target p) (pc_field p) of
                 None \<Rightarrow> Ok None
               | Some n \<Rightarrow>
                   res_bind (last_change_of lg n) (\<lambda>found.
                   res_bind (ok_or CfBackend found) (\<lambda>l. Ok (Some l)))) (\<lambda>latest.
     Ok \<lparr>fn_last = latest, fn_target_exists = (db_row (lg_db lg) (target_key (pc_target p)) \<noteq> None),
         fn_ever_recorded = (Set.filter (\<lambda>e. fst (fst e) = pc_target p) (lg_fields lg) \<noteq> {}),
         fn_value = db_row (lg_db lg) (pc_value_key p)\<rparr>)"

fun stale_fields :: "ledger \<Rightarrow> stale_field list \<Rightarrow> precondition list \<Rightarrow> commit_failure + stale_field list" where
  "stale_fields lg stale [] = Ok stale"
| "stale_fields lg stale (p # ps) =
     res_bind (field_status_of lg p) (\<lambda>now.
     res_bind (res_map_err CfPrecondition (check_field p now)) (\<lambda>found.
     stale_fields lg (stale @ (case found of None \<Rightarrow> [] | Some x \<Rightarrow> [x])) ps))"

fun known_overrides :: "ledger \<Rightarrow> change_ref list \<Rightarrow> commit_failure + unit" where
  "known_overrides lg [] = Ok ()"
| "known_overrides lg (r # rs) =
     res_bind (last_change_of lg (cr_seq r)) (\<lambda>found.
     if (case found of Some l \<Rightarrow> cr_hash (lc_change l) = cr_hash r | None \<Rightarrow> False) then known_overrides lg rs
     else Err (CfPrecondition (UnknownOverride (cr_seq r))))"

definition check_expect :: "ledger \<Rightarrow> change_meta \<Rightarrow> commit_failure + unit" where
  "check_expect lg meta =
     (let ex = cm_expect meta in
      res_bind (res_map_err CfPrecondition (validate_fields (ex_fields ex))) (\<lambda>_.
      res_bind (res_map_err CfPrecondition (check_override_actor ex (og_actor (cm_origin meta)))) (\<lambda>_.
      res_bind (stale_fields lg [] (ex_fields ex)) (\<lambda>stale.
      if stale \<noteq> [] then Err (CfStale stale)
      else known_overrides lg (ex_overrides ex)))))"

section \<open>Appending the record\<close>

definition i64_limit :: nat where
  "i64_limit = 2 ^ 63"

text \<open>\<open>INSERT INTO change_log\<close> with the unique columns and the one record per actor and request.
  The \<open>CHECK\<close>s on hashes, actor kinds and surfaces hold of every record sealed here.\<close>

definition insert_log ::
  "codec \<Rightarrow> change_record \<Rightarrow> str option \<Rightarrow> (nat, log_row) table \<Rightarrow> commit_failure + (nat, log_row) table" where
  "insert_log cd r digest rows =
     res_bind (res_map_err CfStore (col_instant (ch_at r))) (\<lambda>at.
     if ch_seq r \<ge> i64_limit \<or> ch_revision r \<ge> i64_limit then Err CfBackend
     else
       res_bind (res_map_err (\<lambda>_. CfBackend) (record_canonical cd r)) (\<lambda>body.
       let row = \<lparr>lr_id = ch_id r, lr_revision = ch_revision r, lr_at = at,
             lr_actor_kind = actor_kind (og_actor (ch_origin r)), lr_actor_id = actor_id (og_actor (ch_origin r)),
             lr_surface = surface_str (og_surface (ch_origin r)), lr_request_id = og_request_id (ch_origin r),
             lr_request_digest = digest, lr_body = body, lr_prev_hash = ch_prev_hash r, lr_hash = ch_hash r\<rparr>
       in if t_has rows (ch_seq r) \<or>
             list_ex (\<lambda>other. lr_id other = lr_id row \<or> lr_hash other = lr_hash row \<or>
               (lr_request_id row \<noteq> None \<and> lr_actor_kind other = lr_actor_kind row \<and>
                lr_actor_id other = lr_actor_id row \<and> lr_request_id other = lr_request_id row)) (t_values rows)
          then Err CfBackend
          else Ok (t_insert (ch_seq r) row rows)))"

text \<open>\<open>insert\<close> and \<open>insert_fields\<close>.\<close>

definition insert_record :: "codec \<Rightarrow> change_record \<Rightarrow> str option \<Rightarrow> ledger \<Rightarrow> commit_failure + ledger" where
  "insert_record cd r digest lg =
     res_bind (insert_log cd r digest (lg_log lg)) (\<lambda>rows.
     if list_all python_year (ch_weeks r) then
       Ok (lg\<lparr>lg_log := rows, lg_weeks := lg_weeks lg \<union> (\<lambda>w. (w div 1000 * 1000, ch_seq r)) ` set (ch_weeks r),
              lg_fields := lg_fields lg \<union> (\<lambda>k. (k, ch_seq r)) ` changed_fields r\<rparr>)
     else Err (CfStore ConstraintViolated))"

text \<open>The record of the rows between two states of the tables, \<open>lg\<close> holding the second.\<close>

definition append_record ::
  "codec \<Rightarrow> str \<Rightarrow> nat \<Rightarrow> change_meta \<Rightarrow> row_key list \<Rightarrow> database \<Rightarrow> ledger \<Rightarrow> commit_failure + committed \<times> ledger" where
  "append_record cd ident revision meta keys before lg =
     (let rows = rows_between keys (db_row before) (db_row (lg_db lg));
          weeks = touched_weeks rows (\<lambda>run_id. map_option r_week_start (t_get (db_runs (lg_db lg)) run_id));
          prev = map_option (\<lambda>(n, row). (n, lr_hash row)) (log_head lg)
      in
      res_bind (res_map_err (\<lambda>_. CfStore ConstraintViolated)
                 (record_seal cd prev ident revision meta weeks rows)) (\<lambda>r.
      res_bind (res_map_err CfPrecondition (check_overrides_changed (cm_expect meta) (changed_fields r))) (\<lambda>_.
      res_bind (insert_record cd r (cm_request_digest meta) lg) (\<lambda>lg'.
      Ok (\<lparr>ct_seq = ch_seq r, ct_revision = ch_revision r, ct_replayed = False\<rparr>, lg')))))"

section \<open>One commit\<close>

definition ledger_commit ::
  "codec \<Rightarrow> str \<Rightarrow> nat \<Rightarrow> change list \<Rightarrow> change_meta \<Rightarrow> ledger \<Rightarrow> commit_failure + committed option \<times> ledger" where
  "ledger_commit cd ident expected changes meta lg =
     res_bind (replayed lg meta) (\<lambda>earlier.
     case earlier of
       Some c \<Rightarrow> Ok (Some c, lg)
     | None \<Rightarrow>
         res_bind (check_expect lg meta) (\<lambda>_.
         let revision = db_revision (lg_db lg) in
         if revision \<noteq> expected then Err (CfStore (RevisionConflict expected revision))
         else if changes = [] then Ok (None, lg)
         else
           let keys = touched_keys changes in
           res_bind (res_map_err CfStore (store_write (collapse changes) (lg_db lg))) (\<lambda>db.
           res_bind (append_record cd ident (revision + 1) meta keys (lg_db lg) (lg\<lparr>lg_db := db\<rparr>)) (\<lambda>(c, lg').
           if references_ok db then Ok (Some c, lg') else Err (CfStore ConstraintViolated)))))"

text \<open>A store whose history is empty gets the genesis record when it is opened.\<close>

definition ensure_genesis :: "codec \<Rightarrow> ledger \<Rightarrow> commit_failure + ledger" where
  "ensure_genesis cd lg =
     (if lg_log lg \<noteq> [] then Ok lg
      else
        res_bind (res_map_err (\<lambda>_. CfBackend) (record_genesis cd (db_revision (lg_db lg)))) (\<lambda>r.
        res_bind (insert_log cd r None (lg_log lg)) (\<lambda>rows. Ok (lg\<lparr>lg_log := rows\<rparr>))))"

section \<open>Reading the history back\<close>

definition stored_row ::
  "codec \<Rightarrow> nat \<times> log_row \<Rightarrow> instant set option \<Rightarrow> stored_record" where
  "stored_row cd entry weeks =
     (case entry of (n, row) \<Rightarrow>
        (case record_parse cd (lr_body row) (lr_hash row) of
           Inl _ \<Rightarrow> Inl (n, lit ''unreadable change record'')
         | Inr r \<Rightarrow>
             if ch_seq r = n \<and> ch_id r = lr_id row \<and> ch_revision r = lr_revision row \<and> ch_at r = lr_at row \<and>
                actor_kind (og_actor (ch_origin r)) = lr_actor_kind row \<and>
                actor_id (og_actor (ch_origin r)) = lr_actor_id row \<and>
                surface_str (og_surface (ch_origin r)) = lr_surface row \<and>
                og_request_id (ch_origin r) = lr_request_id row \<and>
                (case weeks of None \<Rightarrow> True | Some ws \<Rightarrow> set (ch_weeks r) = ws)
             then Inr (r, lr_body row)
             else Inl (n, lit ''indexed columns do not match the record'')))"

datatype checked_change = MissingChange | IntactChange change_record | TamperedChange str

definition checked_in :: "codec \<Rightarrow> ledger \<Rightarrow> nat \<Rightarrow> checked_change" where
  "checked_in cd lg n =
     (if n \<ge> i64_limit then MissingChange
      else
        (case t_get (lg_log lg) n of
           None \<Rightarrow> MissingChange
         | Some row \<Rightarrow>
             (case stored_row cd (n, row) None of
                Inl (_, reason) \<Rightarrow> TamperedChange reason
              | Inr (r, body) \<Rightarrow>
                  (case check_stored cd r body of Inr _ \<Rightarrow> IntactChange r | Inl reason \<Rightarrow> TamperedChange reason))))"

definition change_in :: "codec \<Rightarrow> ledger \<Rightarrow> nat \<Rightarrow> commit_failure + change_record option" where
  "change_in cd lg n =
     (case checked_in cd lg n of
        MissingChange \<Rightarrow> Ok None
      | IntactChange r \<Rightarrow> Ok (Some r)
      | TamperedChange _ \<Rightarrow> Err CfBackend)"

definition contains_anchor :: "codec \<Rightarrow> ledger \<Rightarrow> change_ref \<Rightarrow> commit_failure + bool" where
  "contains_anchor cd lg anchor =
     res_bind (change_in cd lg (cr_seq anchor)) (\<lambda>found.
     Ok (case found of Some r \<Rightarrow> ch_hash r = cr_hash anchor | None \<Rightarrow> False))"

definition head_ref :: "ledger \<Rightarrow> commit_failure + change_ref" where
  "head_ref lg = ok_or CfBackend (map_option (\<lambda>(n, row). \<lparr>cr_seq = n, cr_hash = lr_hash row\<rparr>) (log_head lg))"

text \<open>One entry of \<open>verify_history\<close>: also its weeks and fields as indexed.\<close>

definition indexed_row :: "codec \<Rightarrow> ledger \<Rightarrow> nat \<times> log_row \<Rightarrow> stored_record" where
  "indexed_row cd lg entry =
     (let n = fst entry in
      case stored_row cd entry (Some (fst ` Set.filter (\<lambda>e. snd e = n) (lg_weeks lg))) of
        Inl broken \<Rightarrow> Inl broken
      | Inr (r, body) \<Rightarrow>
          if changed_fields r \<noteq> fst ` Set.filter (\<lambda>e. snd e = n) (lg_fields lg)
          then Inl (n, lit ''blame index does not match the record'')
          else Inr (r, body))"

definition checkpoint_kept :: "stored_record list \<Rightarrow> checkpoint \<Rightarrow> bool" where
  "checkpoint_kept entries c \<longleftrightarrow>
     list_ex (\<lambda>entry. case entry of
         Inl _ \<Rightarrow> False
       | Inr (r, _) \<Rightarrow> record_reference r = ck_head c \<and> ch_revision r = ck_revision c) entries"

definition verify_history :: "codec \<Rightarrow> ledger \<Rightarrow> history_verification" where
  "verify_history cd lg =
     (let entries = map (indexed_row cd lg) (lg_log lg); result = verify_chain cd entries
      in if is_intact result then
           (case find (\<lambda>c. \<not> checkpoint_kept entries c) (lg_checkpoints lg) of
              None \<Rightarrow> result
            | Some bad \<Rightarrow>
                result\<lparr>hv_first_broken := Some (cr_seq (ck_head bad),
                  lit ''checkpoint '' @ ck_name bad @ lit '' does not match its record'')\<rparr>)
         else result)"

end
