(* ===== verification/LedgerRows.thy ===== *)
theory LedgerRows
  imports Ledger
begin

text \<open>
  What writing a change set does to the tables, whatever the change set is: rows of untouched keys
  stay, written rows are the stored form of a row of the change set, runs are never deleted, and
  everything stored can be written to a record and read back.
\<close>

section \<open>Whole microseconds\<close>

lemma trunc_div:
  fixes x k :: int
  assumes "0 < k"
  shows "(x div 1000 * 1000) div (1000 * k) = x div (1000 * k)"
proof -
  define y where "y = x div 1000"
  have "x div (1000 * k) = y div k" using assms unfolding y_def by (intro zdiv_zmult2_eq) simp
  moreover have "(y * 1000) div (1000 * k) = y div k" by (metis div_mult_mult1 mult.commute zero_neq_numeral)
  ultimately show ?thesis unfolding y_def by simp
qed

lemma trunc_mod:
  fixes x k :: int
  assumes "0 < k"
  shows "(x div 1000 * 1000) mod (1000 * k) = x mod (1000 * k) div 1000 * 1000"
proof -
  define y z where "y = x div 1000" and "z = x mod 1000"
  have "x mod (1000 * k) = 1000 * (y mod k) + z"
    using assms unfolding y_def z_def by (intro zmod_zmult2_eq) simp
  moreover have "(1000 * (y mod k) + z) div 1000 = y mod k"
    using pos_mod_bound [of 1000 x] unfolding z_def by simp
  moreover have "(y * 1000) mod (1000 * k) = 1000 * (y mod k)" by (metis mult.commute mult_mod_right)
  ultimately show ?thesis unfolding y_def by simp
qed

lemma trunc_wall:
  "wall_date (x div 1000 * 1000) = wall_date x" "wall_time (x div 1000 * 1000) = wall_time x div 1000 * 1000"
  unfolding wall_date_def wall_time_def
  using trunc_div [of 86400000000 x] trunc_mod [of 86400000000 x] by simp_all

lemma trunc_year [simp]: "python_year (x div 1000 * 1000) = python_year x"
  by (simp only: python_year_def wall_year_def trunc_wall)

lemma trunc_format: "format_iso (x div 1000 * 1000) off = format_iso x off"
proof -
  define t u where "t = wall_time x" and "u = t div 1000 * 1000"
  have "u div 1000000000 = t div 1000000000" "u div 3600000000000 = t div 3600000000000"
    "u div 60000000000 = t div 60000000000"
    using trunc_div [of 1000000 t] trunc_div [of 3600000000 t] trunc_div [of 60000000 t] unfolding u_def by simp_all
  moreover have "u mod 1000000000 div 1000 = t mod 1000000000 div 1000"
  proof -
    have "u mod 1000000000 = t mod 1000000000 div 1000 * 1000"
      using trunc_mod [of 1000000 t] unfolding u_def by simp
    then show ?thesis by (metis nonzero_mult_div_cancel_right zero_neq_numeral)
  qed
  ultimately have "wall_hour (x div 1000 * 1000) = wall_hour x" "wall_minute (x div 1000 * 1000) = wall_minute x"
    "wall_time (x div 1000 * 1000) div 1000000000 = wall_time x div 1000000000"
    "wall_time (x div 1000 * 1000) mod 1000000000 div 1000 = wall_time x mod 1000000000 div 1000"
    unfolding wall_hour_def wall_minute_def trunc_wall t_def [symmetric] u_def [symmetric] by (simp_all only:)
  then show ?thesis unfolding format_iso_def trunc_wall(1) by (simp only:)
qed

lemma col_instant_storable: "col_instant at = Ok at' \<Longrightarrow> instant_storable at'"
  by (auto simp: col_instant_def instant_storable_def split: if_splits)

section \<open>Stored rows\<close>

lemma col_children_enc:
  "col_children key enc cs = Ok cs' \<Longrightarrow> c' \<in> set cs' \<Longrightarrow> \<exists>c \<in> set cs. enc c = Ok c'"
  by (induction cs arbitrary: cs') (auto simp: res_bind_Ok_iff split: if_splits)

lemma stored_fixed_kept:
  assumes "stored_fixed row = Ok row'"
  shows "f_id row' = f_id row" "is_clock (f_time row) \<Longrightarrow> value_storable (VFixedRun row')"
proof -
  obtain time standing where s: "col_wall_time (f_time row) = Ok time"
    "col_children st_user_id (\<lambda>s. res_bind (col_instant (st_at s)) (\<lambda>at. Ok (s\<lparr>st_at := at\<rparr>))) (f_standing row) = Ok standing"
    "row' = row\<lparr>f_time := time, f_standing := standing\<rparr>"
    using assms by (auto simp: stored_fixed_def res_bind_Ok_iff)
  then show "f_id row' = f_id row" by simp
  have "instant_storable (st_at c)" if "c \<in> set standing" for c
    using col_children_enc [OF s(2) that] col_instant_storable by (auto simp: res_bind_Ok_iff)
  moreover have "time = f_time row" "f_time row mod seconds 1 = 0"
    using s(1) by (auto simp: col_wall_time_def split: if_splits)
  ultimately show "is_clock (f_time row) \<Longrightarrow> value_storable (VFixedRun row')"
    using s(3) by (simp add: fixed_storable_def)
qed

lemma stored_run_kept:
  assumes "stored_run row = Ok row'"
  shows "r_id row' = r_id row" "value_storable (VRun row')"
proof -
  obtain week at rows pin where s: "col_instant (r_week_start row) = Ok week" "col_instant (r_datetime row) = Ok at"
    "col_children ar_user_id (\<lambda>rec. res_bind (col_instant (ar_at rec)) (\<lambda>at. Ok (rec\<lparr>ar_at := at\<rparr>)))
       (r_attendance row) = Ok rows"
    "(case r_status_pin row of None \<Rightarrow> Ok None | Some pin \<Rightarrow> res_bind (stored_pin pin) (\<lambda>pin. Ok (Some pin))) = Ok pin"
    "row' = row\<lparr>r_week_start := week, r_datetime := at, r_attendance := rows, r_status_pin := pin\<rparr>"
    using assms by (auto simp: stored_run_def res_bind_Ok_iff)
  then show "r_id row' = r_id row" by simp
  have "instant_storable (ar_at c)" if "c \<in> set rows" for c
    using col_children_enc [OF s(3) that] col_instant_storable by (auto simp: res_bind_Ok_iff)
  moreover have "instant_storable (pin_at p)" if "pin = Some p" for p
    using s(4) that col_instant_storable
    by (auto simp: stored_pin_def res_bind_Ok_iff split: option.splits if_splits)
  ultimately show "value_storable (VRun row')"
    using s(1,2,5) col_instant_storable by (auto simp: run_storable_def split: option.split)
qed

lemma stored_reminder_kept:
  assumes "stored_reminder row = Ok row'"
  shows "m_id row' = m_id row" "value_storable (VReminder row')"
  using assms col_instant_storable
  by (auto simp: stored_reminder_def reminder_storable_def col_optional_instant_def res_bind_Ok_iff split: option.splits)

lemma stored_rsvp_kept:
  assumes "stored_rsvp row = Ok row'"
  shows "rsvp_key row' = rsvp_key row" "value_storable (VRsvp row')"
  using assms col_instant_storable
  by (auto simp: stored_rsvp_def rsvp_storable_def rsvp_key_def res_bind_Ok_iff)

section \<open>Rewritten tables\<close>

lemma insert_rows_result:
  assumes "insert_rows clash enc rows t = Ok t'" "t_ok t"
  shows "t_ok t' \<and> (\<forall>k. k \<notin> fst ` set rows \<longrightarrow> t_get t' k = t_get t k) \<and>
    (\<forall>k \<in> fst ` set rows. \<exists>row row'. (k, row) \<in> set rows \<and> enc row = Ok row' \<and> t_get t' k = Some row')"
  using assms
proof (induction rows arbitrary: t)
  case (Cons e rows)
  obtain k row where e: "e = (k, row)" by (cases e)
  obtain row' where r: "enc row = Ok row'" "\<not> t_has t k"
    "insert_rows clash enc rows (t_insert k row' t) = Ok t'"
    using Cons.prems(1) by (auto simp: e res_bind_Ok_iff split: if_splits)
  note ih = Cons.IH [OF r(3)] Cons.prems(2)
  have "\<exists>row1 row2. (k1, row1) \<in> set (e # rows) \<and> enc row1 = Ok row2 \<and> t_get t' k1 = Some row2"
    if "k1 \<in> fst ` set (e # rows)" for k1
  proof (cases "k1 \<in> fst ` set rows")
    case True
    then show ?thesis using ih by fastforce
  next
    case False
    then have "k1 = k" using that by (simp add: e)
    then have "t_get t' k1 = Some row'" using ih False by simp
    then show ?thesis using r(1) e \<open>k1 = k\<close> by auto
  qed
  then show ?case using ih by (auto simp: e)
qed simp

lemma collect_in: "(k, v) \<in> set (t_collect xs) \<Longrightarrow> (k, v) \<in> set xs"
  using t_get_iff_in [of "t_collect xs" k v] by (auto simp: t_get_collect dest: map_of_SomeD)

lemma collect_keys: "fst ` set (t_collect xs) = fst ` set xs"
proof -
  have "t_get (t_collect xs) k = None \<longleftrightarrow> k \<notin> fst ` set xs" for k
    unfolding t_get_collect map_of_eq_None_iff by (simp add: rev_map [symmetric])
  moreover have "t_get (t_collect xs) k = None \<longleftrightarrow> k \<notin> fst ` set (t_collect xs)" for k
    by (simp add: t_get_def map_of_eq_None_iff)
  ultimately show ?thesis by blast
qed

lemma fold_remove: "t_ok base \<Longrightarrow> t_ok (fold t_remove ks base)"
  by (induction ks arbitrary: base) auto

text \<open>A table after its touched keys were deleted and its surviving rows inserted.\<close>

lemma rewritten:
  assumes "insert_rows clash enc rows (fold t_remove ks base) = Ok t'" "t_ok base" "fst ` set rows \<subseteq> set ks"
  shows "t_ok t'" "k \<notin> set ks \<Longrightarrow> t_get t' k = t_get base k"
    "t_get t' k = Some v \<Longrightarrow> t_get base k = Some v \<or> (\<exists>row. (k, row) \<in> set rows \<and> enc row = Ok v)"
    "k \<in> fst ` set rows \<Longrightarrow> t_get t' k \<noteq> None"
proof -
  note r = insert_rows_result [OF assms(1) fold_remove [OF assms(2)]]
  show "t_ok t'" using r by simp
  show "k \<notin> set ks \<Longrightarrow> t_get t' k = t_get base k"
    using r assms(3) tbl.get_fold_del [of ks base k] by (metis subset_iff)
  show "t_get t' k = Some v \<Longrightarrow> t_get base k = Some v \<or> (\<exists>row. (k, row) \<in> set rows \<and> enc row = Ok v)"
    using r tbl.get_fold_del [of ks base k] by (cases "k \<in> fst ` set rows"; cases "k \<in> set ks") auto
  show "k \<in> fst ` set rows \<Longrightarrow> t_get t' k \<noteq> None" using r by fastforce
qed

section \<open>The tables after a write\<close>

definition db_ok :: "database \<Rightarrow> bool" where
  "db_ok db \<longleftrightarrow>
     t_ok (db_fixed db) \<and> tbl.keyed_by f_id (db_fixed db) \<and> t_ok (db_runs db) \<and> tbl.keyed_by r_id (db_runs db) \<and>
     t_ok (db_reminders db) \<and> tbl.keyed_by m_id (db_reminders db) \<and>
     t_ok (db_rsvps db) \<and> tbl.keyed_by rsvp_key (db_rsvps db)"

lemma db_ok_state: "db_ok db \<Longrightarrow> state_keyed (db_row db)"
  unfolding state_keyed_def
proof (intro allI impI)
  fix k v assume d: "db_ok db" and v: "db_row db k = Some v"
  note k = d [unfolded db_ok_def]
  show "value_key v = k"
    using v k by (cases k) (auto simp: tbl.keyed_by_def rsvp_key_def)
qed

text \<open>Clock times are below a day.\<close>

definition clocked :: "change list \<Rightarrow> bool" where
  "clocked changes \<longleftrightarrow> (\<forall>row. PutFixedRun row \<in> set changes \<longrightarrow> is_clock (f_time row))"

lemma collapse_collect:
  "co_fixed (collapse cs) = t_collect (List.map_filter fixed_write cs)"
  "co_runs (collapse cs) = t_collect (List.map_filter run_write cs)"
  "co_reminders (collapse cs) = t_collect (List.map_filter reminder_write cs)"
  "co_rsvps (collapse cs) = t_collect (List.map_filter rsvp_write cs)"
  by (simp_all add: collapse_def collapse_tables t_collect_def)

lemma in_map_filter: "y \<in> set (List.map_filter f xs) \<longleftrightarrow> (\<exists>x \<in> set xs. f x = Some y)"
  by (force simp: List.map_filter_def)

lemma write_of:
  "fixed_write c = Some (k, v) \<Longrightarrow> change_key c = KFixedRun k \<and> (\<forall>row. v = Some row \<longrightarrow> c = PutFixedRun row \<and> f_id row = k)"
  "run_write c = Some (k, row) \<Longrightarrow> c = PutRun row \<and> r_id row = k"
  "reminder_write c = Some (k, w) \<Longrightarrow> change_key c = KReminder k \<and> (\<forall>row. w = Some row \<longrightarrow> m_id row = k)"
  "rsvp_write c = Some (p, x) \<Longrightarrow> change_key c = KRsvp (fst p) (snd p) \<and> (\<forall>row. x = Some row \<longrightarrow> rsvp_key row = p)"
  by (cases c; auto simp: rsvp_key_def)+

lemma collapse_entry:
  "(k, v) \<in> set (co_fixed (collapse cs)) \<Longrightarrow> KFixedRun k \<in> change_key ` set cs"
  "(k, Some row) \<in> set (co_fixed (collapse cs)) \<Longrightarrow> PutFixedRun row \<in> set cs \<and> f_id row = k"
  "(k, run) \<in> set (co_runs (collapse cs)) \<Longrightarrow> KRun k \<in> change_key ` set cs \<and> r_id run = k"
  "(k, w) \<in> set (co_reminders (collapse cs)) \<Longrightarrow> KReminder k \<in> change_key ` set cs"
  "(k, Some m) \<in> set (co_reminders (collapse cs)) \<Longrightarrow> m_id m = k"
  "(p, x) \<in> set (co_rsvps (collapse cs)) \<Longrightarrow> KRsvp (fst p) (snd p) \<in> change_key ` set cs"
  "(p, Some a) \<in> set (co_rsvps (collapse cs)) \<Longrightarrow> rsvp_key a = p"
  unfolding collapse_collect
  by (drule collect_in, auto simp: in_map_filter dest!: write_of; force)+

lemma present_in: "(k, row) \<in> set (present w) \<longleftrightarrow> (k, Some row) \<in> set w"
  by (force simp: present_def List.map_filter_def)

lemma present_keys: "fst ` set (present w) \<subseteq> set (t_keys w)"
  by (force simp: present_in t_keys_def)

lemma rewritten_keyed:
  assumes "\<And>k v. t_get t' k = Some v \<Longrightarrow> t_get base k = Some v \<or> (\<exists>row. (k, row) \<in> set rows \<and> enc row = Ok v)"
    and "tbl.keyed_by key base" "\<And>k row. (k, row) \<in> set rows \<Longrightarrow> key row = k"
    and "\<And>row v. enc row = Ok v \<Longrightarrow> key v = key row"
  shows "tbl.keyed_by key t'"
  unfolding tbl.keyed_by_def
proof (intro allI impI)
  fix k v assume "t_get t' k = Some v"
  then consider "t_get base k = Some v" | row where "(k, row) \<in> set rows" "enc row = Ok v" using assms(1) by blast
  then show "key v = k"
  proof cases
    case 1
    then show ?thesis using assms(2) by (simp add: tbl.keyed_by_def)
  next
    case 2
    then show ?thesis using assms(3) [OF 2(1)] assms(4) [OF 2(2)] by simp
  qed
qed

lemma store_writeE:
  assumes "store_write (collapse cs) db = Ok db'"
  obtains "insert_rows (\<lambda>_ _. False) stored_fixed (present (co_fixed (collapse cs)))
      (fold t_remove (t_keys (co_fixed (collapse cs))) (db_fixed db)) = Ok (db_fixed db')"
    "insert_rows same_fixed_week stored_run (co_runs (collapse cs))
      (fold t_remove (t_keys (co_runs (collapse cs))) (db_runs db)) = Ok (db_runs db')"
    "insert_rows same_run_kind stored_reminder (present (co_reminders (collapse cs)))
      (fold t_remove (t_keys (co_reminders (collapse cs))) (db_reminders db)) = Ok (db_reminders db')"
    "insert_rows (\<lambda>_ _. False) stored_rsvp (present (co_rsvps (collapse cs)))
      (fold t_remove (t_keys (co_rsvps (collapse cs))) (db_rsvps db)) = Ok (db_rsvps db')"
    "db_revision db' = db_revision db + 1"
  using assms by (auto simp: store_write_def Let_def res_bind_Ok_iff)

lemma store_write_rows:
  assumes "store_write (collapse cs) db = Ok db'" "db_ok db"
  shows "db_ok db'" "k \<notin> change_key ` set cs \<Longrightarrow> db_row db' k = db_row db k"
    "db_row db (KRun i) \<noteq> None \<Longrightarrow> db_row db' (KRun i) \<noteq> None"
    "clocked cs \<Longrightarrow> (\<And>k v. db_row db k = Some v \<Longrightarrow> value_storable v) \<Longrightarrow> db_row db' k = Some v \<Longrightarrow> value_storable v"
proof -
  let ?co = "collapse cs"
  note ok = assms(2) [unfolded db_ok_def]
  have k2: "fst ` set (co_runs ?co) \<subseteq> set (t_keys (co_runs ?co))" by (simp add: t_keys_def)
  obtain ins: "insert_rows (\<lambda>_ _. False) stored_fixed (present (co_fixed ?co))
      (fold t_remove (t_keys (co_fixed ?co)) (db_fixed db)) = Ok (db_fixed db')"
    "insert_rows same_fixed_week stored_run (co_runs ?co) (fold t_remove (t_keys (co_runs ?co)) (db_runs db)) = Ok (db_runs db')"
    "insert_rows same_run_kind stored_reminder (present (co_reminders ?co))
      (fold t_remove (t_keys (co_reminders ?co)) (db_reminders db)) = Ok (db_reminders db')"
    "insert_rows (\<lambda>_ _. False) stored_rsvp (present (co_rsvps ?co))
      (fold t_remove (t_keys (co_rsvps ?co)) (db_rsvps db)) = Ok (db_rsvps db')"
    using assms(1) by (rule store_writeE)
  note f = rewritten [OF ins(1) _ present_keys] and r = rewritten [OF ins(2) _ k2]
    and m = rewritten [OF ins(3) _ present_keys] and a = rewritten [OF ins(4) _ present_keys]
  show "db_ok db'"
    unfolding db_ok_def
  proof (intro conjI)
    show "tbl.keyed_by f_id (db_fixed db')"
    proof (rule rewritten_keyed [OF f(3)])
      show "f_id row = k" if "(k, row) \<in> set (present (co_fixed ?co))" for k row
        using that collapse_entry(2) by (auto simp only: present_in)
    qed (use ok stored_fixed_kept(1) in simp_all)
    show "tbl.keyed_by r_id (db_runs db')"
    proof (rule rewritten_keyed [OF r(3)])
      show "r_id row = k" if "(k, row) \<in> set (co_runs ?co)" for k row
        using that collapse_entry(3) by (auto simp only: present_in)
    qed (use ok stored_run_kept(1) in simp_all)
    show "tbl.keyed_by m_id (db_reminders db')"
    proof (rule rewritten_keyed [OF m(3)])
      show "m_id row = k" if "(k, row) \<in> set (present (co_reminders ?co))" for k row
        using that collapse_entry(5) by (auto simp only: present_in)
    qed (use ok stored_reminder_kept(1) in simp_all)
    show "tbl.keyed_by rsvp_key (db_rsvps db')"
    proof (rule rewritten_keyed [OF a(3)])
      show "rsvp_key row = k" if "(k, row) \<in> set (present (co_rsvps ?co))" for k row
        using that collapse_entry(7) by (auto simp only: present_in)
    qed (use ok stored_rsvp_kept(1) in simp_all)
  qed (use ok f(1) r(1) m(1) a(1) in simp_all)
  show "db_row db' k = db_row db k" if "k \<notin> change_key ` set cs"
  proof (cases k)
    case (KFixedRun i)
    then have "i \<notin> set (t_keys (co_fixed ?co))" using that collapse_entry(1) by (force simp: t_keys_def)
    then show ?thesis using f(2) ok KFixedRun by simp
  next
    case (KRun i)
    then have "i \<notin> set (t_keys (co_runs ?co))" using that collapse_entry(3) by (force simp: t_keys_def)
    then show ?thesis using r(2) ok KRun by simp
  next
    case (KReminder i)
    then have "i \<notin> set (t_keys (co_reminders ?co))" using that collapse_entry(4) by (force simp: t_keys_def)
    then show ?thesis using m(2) ok KReminder by simp
  next
    case (KRsvp i u)
    then have "(i, u) \<notin> set (t_keys (co_rsvps ?co))" using that collapse_entry(6) [of "(i, u)"] by (force simp: t_keys_def)
    then show ?thesis using a(2) ok KRsvp by simp
  qed
  show "db_row db' (KRun i) \<noteq> None" if "db_row db (KRun i) \<noteq> None"
    using that r(2,4) ok by (cases "i \<in> fst ` set (co_runs ?co)") (auto simp: t_keys_def)
  show "value_storable v" if "clocked cs" "\<And>k v. db_row db k = Some v \<Longrightarrow> value_storable v" "db_row db' k = Some v"
  proof -
    note clk = that(1) and old = that(2) and new = that(3)
    show ?thesis
    proof (cases k)
      case (KFixedRun i)
      then obtain x where x: "t_get (db_fixed db') i = Some x" "v = VFixedRun x" using new by auto
      from f(3) [OF _ x(1)] ok consider "t_get (db_fixed db) i = Some x"
        | row where "(i, Some row) \<in> set (co_fixed ?co)" "stored_fixed row = Ok x" by (auto simp: present_in)
      then show ?thesis
      proof cases
        case 2
        then show ?thesis using clk collapse_entry(2) stored_fixed_kept(2) x(2) unfolding clocked_def by blast
      qed (use old [of "KFixedRun i"] x(2) in simp)
    next
      case (KRun i)
      then obtain x where x: "t_get (db_runs db') i = Some x" "v = VRun x" using new by auto
      from r(3) [OF _ x(1)] ok show ?thesis using old [of "KRun i"] x(2) stored_run_kept(2) by fastforce
    next
      case (KReminder i)
      then obtain x where x: "t_get (db_reminders db') i = Some x" "v = VReminder x" using new by auto
      from m(3) [OF _ x(1)] ok show ?thesis using old [of "KReminder i"] x(2) stored_reminder_kept(2) by fastforce
    next
      case (KRsvp i u)
      then obtain x where x: "t_get (db_rsvps db') (i, u) = Some x" "v = VRsvp x" using new by auto
      from a(3) [OF _ x(1)] ok show ?thesis using old [of "KRsvp i u"] x(2) stored_rsvp_kept(2) by fastforce
    qed
  qed
qed

end
