(* ===== verification/LedgerSound.thy ===== *)
theory LedgerSound
  imports LedgerRows
begin

text \<open>
  What the stored history is, whatever was committed: \<open>holds\<close> relates a store to the list of records
  it holds and to the states the schedule went through. It is kept by every commit, so the history
  always verifies, and the current rows and the records together give back every earlier state.
\<close>

section \<open>The history a store holds\<close>

definition log_row_of :: "change_record \<Rightarrow> str \<Rightarrow> str option \<Rightarrow> log_row" where
  "log_row_of r body digest =
     \<lparr>lr_id = ch_id r, lr_revision = ch_revision r, lr_at = ch_at r,
      lr_actor_kind = actor_kind (og_actor (ch_origin r)), lr_actor_id = actor_id (og_actor (ch_origin r)),
      lr_surface = surface_str (og_surface (ch_origin r)), lr_request_id = og_request_id (ch_origin r),
      lr_request_digest = digest, lr_body = body, lr_prev_hash = ch_prev_hash r, lr_hash = ch_hash r\<rparr>"

text \<open>The rows of a record, as commits leave them.\<close>

definition rows_ok :: "change_record \<Rightarrow> bool" where
  "rows_ok r \<longleftrightarrow>
     distinct (map rc_key (ch_rows r)) \<and> (\<forall>row \<in> set (ch_rows r). rc_before row \<noteq> rc_after row) \<and>
     (\<forall>row \<in> set (ch_rows r). \<forall>i. rc_key row = KRun i \<longrightarrow> rc_after row \<noteq> None)"

definition logged :: "(nat, log_row) table \<Rightarrow> (change_record \<times> str) list \<Rightarrow> bool" where
  "logged rows hist \<longleftrightarrow>
     list_all2 (\<lambda>(n, row) (r, body). n = ch_seq r \<and> (\<exists>digest. row = log_row_of r body digest)) rows hist"

definition indexed :: "('r \<Rightarrow> 'k set) \<Rightarrow> ('r \<Rightarrow> nat) \<Rightarrow> 'r list \<Rightarrow> ('k \<times> nat) set" where
  "indexed f n rs = (\<Union>r \<in> set rs. (\<lambda>k. (k, n r)) ` f r)"

definition db_storable :: "database \<Rightarrow> bool" where
  "db_storable db \<longleftrightarrow> (\<forall>k v. db_row db k = Some v \<longrightarrow> value_storable v)"

definition holds :: "codec \<Rightarrow> ledger \<Rightarrow> (change_record \<times> str) list \<Rightarrow> row_state list \<Rightarrow> bool" where
  "holds cd lg hist ss \<longleftrightarrow>
     hist \<noteq> [] \<and> logged (lg_log lg) hist \<and> linked cd 0 genesis_prev_hash hist \<and>
     (\<forall>r \<in> fst ` set hist. record_storable r \<and> rows_ok r \<and> ch_seq r < i64_limit) \<and>
     lg_fields lg = indexed changed_fields ch_seq (map fst hist) \<and>
     lg_weeks lg = indexed (\<lambda>r. set (ch_weeks r)) ch_seq (map fst hist) \<and>
     path (map fst (tl hist)) ss \<and> last ss = db_row (lg_db lg) \<and> (\<forall>s \<in> set ss. state_keyed s) \<and>
     db_ok (lg_db lg) \<and> db_storable (lg_db lg)"

section \<open>Appending\<close>

lemma t_insert_last: "(\<And>k'. k' \<in> fst ` set t \<Longrightarrow> k' < k) \<Longrightarrow> t_insert k v t = t @ [(k, v)]"
proof (induction t)
  case (Cons e t)
  obtain k' v' where e: "e = (k', v')" by (cases e)
  have "k' < k" using Cons.prems [of k'] by (simp add: e)
  then have "\<not> k < k'" "k \<noteq> k'" by auto
  then show ?case using Cons by (simp add: e)
qed simp

lemma logged_keys: "logged rows hist \<Longrightarrow> map fst rows = map (ch_seq \<circ> fst) hist"
  unfolding logged_def by (induction rule: list_all2_induct) auto

lemma logged_snoc: "logged rows hist \<Longrightarrow> logged (rows @ [(ch_seq r, log_row_of r body digest)]) (hist @ [(r, body)])"
  unfolding logged_def by (auto intro!: list_all2_appendI)

lemma linked_seqs: "linked cd n prev hist \<Longrightarrow> map (ch_seq \<circ> fst) hist = [n ..< n + length hist]"
  by (induction cd n prev hist rule: linked.induct) (auto simp: upt_rec)

lemma indexed_snoc: "indexed f n (rs @ [r]) = indexed f n rs \<union> (\<lambda>k. (k, n r)) ` f r"
  by (auto simp: indexed_def)

lemma indexed_at:
  assumes "\<And>a b. a \<in> set rs \<Longrightarrow> b \<in> set rs \<Longrightarrow> n a = n b \<Longrightarrow> a = b" "r \<in> set rs"
  shows "fst ` Set.filter (\<lambda>e. snd e = n r) (indexed f n rs) = f r"
proof -
  have "e \<in> Set.filter (\<lambda>e. snd e = n r) (indexed f n rs) \<longleftrightarrow> (\<exists>k \<in> f r. e = (k, n r))" for e
    using assms by (fastforce simp: indexed_def)
  then show ?thesis by (auto simp: image_iff)
qed

lemma path_snocI: "path rs ss \<Longrightarrow> describes (ch_rows r) (last ss) s \<Longrightarrow> path (rs @ [r]) (ss @ [s])"
  by (induction rs ss rule: path.induct) auto

lemma log_head_of:
  assumes "logged rows hist" "hist \<noteq> []"
  shows "rows \<noteq> [] \<and> fst (last rows) = ch_seq (fst (last hist)) \<and> lr_hash (snd (last rows)) = ch_hash (fst (last hist))"
proof -
  obtain hist' e where "hist = hist' @ [e]" using assms(2) by (cases hist rule: rev_cases) auto
  then show ?thesis
    using assms(1) by (auto simp: logged_def list_all2_append2 list_all2_Cons2 log_row_of_def)
qed

lemma distinct_sort_keys: "distinct (map f (sort_key f rows)) = distinct (map f rows)"
proof -
  have "mset (map f (sort_key f rows)) = mset (map f rows)" by simp
  then show ?thesis using mset_eq_imp_distinct_iff by blast
qed

lemma rows_between_rows:
  "row \<in> set (rows_between keys s s') \<longleftrightarrow>
     rc_key row \<in> set keys \<and> rc_before row = s (rc_key row) \<and> rc_after row = s' (rc_key row) \<and>
     s (rc_key row) \<noteq> s' (rc_key row)"
  by (cases row) (auto simp: rows_between_def)

lemma rows_between_distinct: "distinct keys \<Longrightarrow> distinct (map rc_key (rows_between keys s s'))"
  by (simp add: rows_between_def comp_def)

lemma touched_distinct: "distinct (touched_keys changes)"
  by (simp add: touched_keys_def sorted_remdups_adj_distinct)

lemma rows_between_describe:
  assumes "\<And>k. k \<notin> set keys \<Longrightarrow> s' k = s k" "set rows = set (rows_between keys s s')"
  shows "describes rows s s'"
  unfolding describes_def assms(2)
proof (intro conjI ballI allI impI)
  fix k assume "k \<notin> rc_key ` set (rows_between keys s s')"
  then have "\<lparr>rc_key = k, rc_before = s k, rc_after = s' k\<rparr> \<notin> set (rows_between keys s s')" by force
  then show "s' k = s k" using assms(1) [of k] by (auto simp: rows_between_rows)
qed (auto simp: rows_between_rows)

text \<open>A record with its instant in whole microseconds has the same text.\<close>

lemma whole_canonical: "record_canonical cd (r\<lparr>ch_at := ch_at r div 1000 * 1000\<rparr>) = record_canonical cd r"
  by (simp add: record_canonical_def record_body_def write_iso_def to_iso_def trunc_format)

lemma weeks_storable:
  assumes "\<And>row v. row \<in> set rows \<Longrightarrow> v \<in> set (row_values row) \<Longrightarrow> value_storable v"
    and "\<And>i w. f i = Some w \<Longrightarrow> instant_storable w" "w \<in> set (touched_weeks rows f)"
  shows "instant_storable w"
proof -
  obtain row v where v: "row \<in> set rows" "v \<in> set (row_values row)" "value_week f v = Some w"
    using assms(3) by (auto simp: touched_weeks_def in_map_filter)
  show ?thesis
    using assms(1) [OF v(1,2)] assms(2) v(3)
    by (cases v) (auto simp: value_week_def run_storable_def split: option.splits)
qed

lemma insert_recordE:
  assumes "insert_record cd r digest lg = Ok lg'" "logged (lg_log lg) hist" "map (ch_seq \<circ> fst) hist = [0 ..< ch_seq r]"
    "\<And>w. w \<in> set (ch_weeks r) \<Longrightarrow> w div 1000 * 1000 = w"
  obtains body where "record_canonical cd r = Ok body" "python_year (ch_at r)" "ch_seq r < i64_limit" "ch_revision r < i64_limit"
    "lg' = lg\<lparr>lg_log := lg_log lg @ [(ch_seq r, log_row_of (r\<lparr>ch_at := ch_at r div 1000 * 1000\<rparr>) body digest)],
       lg_weeks := lg_weeks lg \<union> (\<lambda>w. (w, ch_seq r)) ` set (ch_weeks r),
       lg_fields := lg_fields lg \<union> (\<lambda>k. (k, ch_seq r)) ` changed_fields r\<rparr>"
proof -
  obtain body where b: "record_canonical cd r = Ok body" "python_year (ch_at r)" "ch_seq r < i64_limit" "ch_revision r < i64_limit"
    "lg' = lg\<lparr>lg_log := t_insert (ch_seq r) (log_row_of (r\<lparr>ch_at := ch_at r div 1000 * 1000\<rparr>) body digest) (lg_log lg),
       lg_weeks := lg_weeks lg \<union> (\<lambda>w. (w div 1000 * 1000, ch_seq r)) ` set (ch_weeks r),
       lg_fields := lg_fields lg \<union> (\<lambda>k. (k, ch_seq r)) ` changed_fields r\<rparr>"
    using assms(1)
    by (auto simp: insert_record_def insert_log_def Let_def col_instant_def log_row_of_def res_bind_Ok_iff not_le
        split: if_splits sum.splits)
  have "fst ` set (lg_log lg) = {0 ..< ch_seq r}"
    using arg_cong [OF logged_keys [OF assms(2)], of set] arg_cong [OF assms(3), of set] by simp
  then have "t_insert (ch_seq r) row (lg_log lg) = lg_log lg @ [(ch_seq r, row)]" for row
    by (intro t_insert_last) auto
  moreover have "(\<lambda>w. (w div 1000 * 1000, ch_seq r)) ` set (ch_weeks r) = (\<lambda>w. (w, ch_seq r)) ` set (ch_weeks r)"
    using assms(4) by (intro image_cong) simp_all
  ultimately show thesis using b that by simp
qed

section \<open>A commit keeps the history\<close>

text \<open>References are 64-bit positions.\<close>

definition meta_u64 :: "change_meta \<Rightarrow> bool" where
  "meta_u64 meta \<longleftrightarrow> (\<forall>ref \<in> set (cm_refs meta). cr_seq ref < 2 ^ 64)"

lemma ledger_commitE:
  assumes "ledger_commit cd ident expected changes meta lg = Ok (out, lg')"
  obtains
    (earlier) c where "replayed lg meta = Ok (Some c)" "out = Some c" "lg' = lg"
  | (nothing) "replayed lg meta = Ok None" "check_expect lg meta = Ok ()" "out = None" "lg' = lg"
  | (new) db c where "replayed lg meta = Ok None" "check_expect lg meta = Ok ()"
      "db_revision (lg_db lg) = expected" "changes \<noteq> []"
      "store_write (collapse changes) (lg_db lg) = Ok db"
      "append_record cd ident (expected + 1) meta (touched_keys changes) (lg_db lg) (lg\<lparr>lg_db := db\<rparr>) = Ok (c, lg')"
      "references_ok db" "out = Some c"
proof -
  obtain a where a: "replayed lg meta = Ok a"
    "(case a of Some c \<Rightarrow> Ok (Some c, lg)
      | None \<Rightarrow>
          res_bind (check_expect lg meta) (\<lambda>_.
          if db_revision (lg_db lg) \<noteq> expected then Err (CfStore (RevisionConflict expected (db_revision (lg_db lg))))
          else if changes = [] then Ok (None, lg)
          else
            res_bind (res_map_err CfStore (store_write (collapse changes) (lg_db lg))) (\<lambda>db.
            res_bind (append_record cd ident (db_revision (lg_db lg) + 1) meta (touched_keys changes) (lg_db lg)
                        (lg\<lparr>lg_db := db\<rparr>)) (\<lambda>(c, lg').
            if references_ok db then Ok (Some c, lg') else Err (CfStore ConstraintViolated))))) = Ok (out, lg')"
    using assms unfolding ledger_commit_def Let_def by (rule res_bind_OkE)
  show thesis
  proof (cases a)
    case None
    have e: "check_expect lg meta = Ok ()" "db_revision (lg_db lg) = expected"
      using a(2) None by (auto simp: res_bind_Ok_iff split: if_splits)
    show thesis
    proof (cases "changes = []")
      case True
      show thesis by (rule nothing) (use a None e True in simp_all)
    next
      case False
      then obtain db c where db: "store_write (collapse changes) (lg_db lg) = Ok db"
        "append_record cd ident (expected + 1) meta (touched_keys changes) (lg_db lg) (lg\<lparr>lg_db := db\<rparr>) = Ok (c, lg')"
        "references_ok db" "out = Some c"
        using a(2) None e by (auto simp: res_bind_Ok_iff split: if_splits)
      show thesis by (rule new [of db c]) (use db a(1) None e False in simp_all)
    qed
  next
    case (Some c)
    show thesis by (rule earlier [of c]) (use a Some in simp_all)
  qed
qed

lemma append_recordE:
  assumes "append_record cd ident revision meta keys before lg = Ok (c, lg')"
  obtains r where
    "record_seal cd (map_option (\<lambda>(n, row). (n, lr_hash row)) (log_head lg)) ident revision meta
       (touched_weeks (rows_between keys (db_row before) (db_row (lg_db lg)))
         (\<lambda>run_id. map_option r_week_start (t_get (db_runs (lg_db lg)) run_id)))
       (rows_between keys (db_row before) (db_row (lg_db lg))) = Ok r"
    "check_overrides_changed (cm_expect meta) (changed_fields r) = Ok ()"
    "insert_record cd r (cm_request_digest meta) lg = Ok lg'"
    "c = \<lparr>ct_seq = ch_seq r, ct_revision = ch_revision r, ct_replayed = False\<rparr>"
  using assms by (auto simp: append_record_def Let_def res_bind_Ok_iff)

lemma sealed_origin:
  "record_seal cd prev ident revision meta weeks rows = Ok r \<Longrightarrow>
   ch_origin r = cm_origin meta \<and> ch_id r = ident \<and> ch_notices r = cm_notices meta"
  by (auto simp: record_seal_def Let_def res_bind_Ok_iff)

text \<open>The record as it will be read back: its instant in whole microseconds.\<close>

abbreviation whole :: "change_record \<Rightarrow> change_record" where
  "whole r \<equiv> r\<lparr>ch_at := ch_at r div 1000 * 1000\<rparr>"

lemma changed_fields_whole [simp]: "changed_fields (whole r) = changed_fields r"
  by (simp add: changed_fields_def)

text \<open>What a commit records can be written to a record and read back.\<close>

lemma commit_storable:
  assumes "store_write (collapse changes) db = Ok db'" "clocked changes" "db_ok db" "db_storable db"
    and "set rows = set (rows_between (touched_keys changes) (db_row db) (db_row db'))"
  shows "db_storable db'" "row \<in> set rows \<Longrightarrow> row_storable row"
    "w \<in> set (touched_weeks rows (\<lambda>run_id. map_option r_week_start (t_get (db_runs db') run_id))) \<Longrightarrow> instant_storable w"
proof -
  note new = store_write_rows [OF assms(1,3)]
  have stored: "\<And>k v. db_row db k = Some v \<Longrightarrow> value_storable v" using assms(4) by (simp add: db_storable_def)
  then have stored': "db_row db' k = Some v \<Longrightarrow> value_storable v" for k v using new(4) assms(2) by blast
  then show "db_storable db'" by (simp add: db_storable_def)
  have vals: "value_storable v \<and> value_key v = rc_key row"
    if "row \<in> set rows" "rc_before row = Some v \<or> rc_after row = Some v" for row v
    using that stored stored' db_ok_state [OF assms(3)] db_ok_state [OF new(1)]
    unfolding assms(5) rows_between_rows state_keyed_def by metis
  then show "row \<in> set rows \<Longrightarrow> row_storable row" by (auto simp: row_storable_def)
  show "instant_storable w"
    if "w \<in> set (touched_weeks rows (\<lambda>run_id. map_option r_week_start (t_get (db_runs db') run_id)))"
  proof (rule weeks_storable)
    show "value_storable v" if "row \<in> set rows" "v \<in> set (row_values row)" for row v
      using that vals by (auto simp: row_values_def map_filter_simps split: option.splits)
    show "instant_storable w" if "map_option r_week_start (t_get (db_runs db') i) = Some w" for i w
      using that stored' [of "KRun i"] by (auto simp: run_storable_def)
  qed (use that in simp)
qed

lemma append_holds:
  assumes h: "holds cd lg hist ss"
    and wr: "store_write (collapse changes) (lg_db lg) = Ok db" "clocked changes" "meta_u64 meta"
    and app: "append_record cd ident revision meta (touched_keys changes) (lg_db lg) (lg\<lparr>lg_db := db\<rparr>) = Ok (c, lg')"
  shows "\<exists>r body. holds cd lg' (hist @ [(r, body)]) (ss @ [db_row db]) \<and> lg_db lg' = db \<and>
    lg_log lg' = lg_log lg @ [(ch_seq r, log_row_of r body (cm_request_digest meta))] \<and>
    lg_checkpoints lg' = lg_checkpoints lg \<and>
    c = \<lparr>ct_seq = ch_seq r, ct_revision = revision, ct_replayed = False\<rparr> \<and> ch_revision r = revision \<and>
    ch_seq r = length hist \<and> ch_origin r = cm_origin meta \<and> ch_id r = ident \<and>
    check_overrides_changed (cm_expect meta) (changed_fields r) = Ok ()"
proof -
  let ?s = "db_row (lg_db lg)" and ?s' = "db_row db"
  let ?rows = "rows_between (touched_keys changes) ?s ?s'"
  let ?wk = "\<lambda>run_id. map_option r_week_start (t_get (db_runs db) run_id)"
  note old = h [unfolded holds_def]
  have ok: "db_ok (lg_db lg)" using old by blast
  note new = store_write_rows [OF wr(1) ok]
  have "db_storable (lg_db lg)" using old by blast
  note storable_rows = commit_storable [OF wr(1,2) ok this, where rows = ?rows, OF refl]
  obtain r0 where r0: "record_seal cd (map_option (\<lambda>(n, row). (n, lr_hash row)) (log_head (lg\<lparr>lg_db := db\<rparr>))) ident
       revision meta (touched_weeks ?rows ?wk) ?rows = Ok r0"
    "check_overrides_changed (cm_expect meta) (changed_fields r0) = Ok ()"
    "insert_record cd r0 (cm_request_digest meta) (lg\<lparr>lg_db := db\<rparr>) = Ok lg'"
    "c = \<lparr>ct_seq = ch_seq r0, ct_revision = ch_revision r0, ct_replayed = False\<rparr>"
    using app by (rule append_recordE) simp
  have hist: "hist \<noteq> []" "logged (lg_log lg) hist" "linked cd 0 genesis_prev_hash hist" using old by blast+
  have head: "log_head lg = Some (last (lg_log lg))" "fst (last (lg_log lg)) = length hist - 1"
    "lr_hash (snd (last (lg_log lg))) = ch_hash (fst (last hist))"
    using log_head_of [OF hist(2,1)] linked_last [OF hist(3,1)] by (simp_all add: log_head_def)
  have "map_option (\<lambda>(n, row). (n, lr_hash row)) (log_head (lg\<lparr>lg_db := db\<rparr>)) =
      Some (length hist - 1, ch_hash (fst (last hist)))"
    using head by (cases "last (lg_log lg)") (simp add: log_head_def split: if_splits)
  note r1 = r0(1) [unfolded this]
  obtain body where seal: "record_canonical cd r0 = Ok body" "sha256_hex cd body = ch_hash r0" "ch_seq r0 = length hist"
    "ch_prev_hash r0 = ch_hash (fst (last hist))" "ch_revision r0 = revision" "ch_rows r0 = sort_key rc_key ?rows"
    "ch_refs r0 = cm_refs meta" "ch_weeks r0 = remdups_adj (sort (touched_weeks ?rows ?wk))"
    using hist(1) by (rule_tac sealed [OF r1]) simp
  have rows: "row \<in> set (ch_rows r0) \<longleftrightarrow> row \<in> set ?rows" for row by (simp add: seal(6))
  have weeks: "instant_storable w" if "w \<in> set (ch_weeks r0)" for w
    using storable_rows(3) [of w] that by (simp add: seal(8))
  have whole_week: "w div 1000 * 1000 = w" if "w \<in> set (ch_weeks r0)" for w
    using weeks [OF that] div_mult_mod_eq [of w 1000] by (simp add: instant_storable_def)
  have seqs: "map (ch_seq \<circ> fst) hist = [0 ..< ch_seq r0]" using linked_seqs [OF hist(3)] seal(3) by simp
  obtain body' where ins: "record_canonical cd r0 = Ok body'" "python_year (ch_at r0)" "ch_seq r0 < i64_limit"
    "ch_revision r0 < i64_limit"
    "lg' = (lg\<lparr>lg_db := db\<rparr>)\<lparr>lg_log := lg_log lg @ [(ch_seq r0, log_row_of (whole r0) body' (cm_request_digest meta))],
       lg_weeks := lg_weeks lg \<union> (\<lambda>w. (w, ch_seq r0)) ` set (ch_weeks r0),
       lg_fields := lg_fields lg \<union> (\<lambda>k. (k, ch_seq r0)) ` changed_fields r0\<rparr>"
    using insert_recordE [OF r0(3) _ seqs whole_week] hist(2) by auto
  have body: "body' = body" using ins(1) seal(1) by simp
  have storable: "record_storable (whole r0)"
  proof -
    have "ch_seq r0 < 2 ^ 64" "ch_revision r0 < 2 ^ 64" using ins(3,4) by (simp_all add: i64_limit_def)
    then have "record_u64 (whole r0)" using wr(3) seal(7) by (simp add: record_u64_def meta_u64_def)
    moreover have "instant_storable (ch_at (whole r0))" using ins(2) by (simp add: instant_storable_def)
    moreover have "row_storable row" if "row \<in> set (ch_rows r0)" for row
      using storable_rows(2) that rows by blast
    ultimately show ?thesis using weeks by (simp add: record_storable_def)
  qed
  have ok_rows: "rows_ok (whole r0)"
  proof -
    have "distinct (map rc_key (ch_rows r0))"
      by (simp add: seal(6) distinct_sort_keys rows_between_distinct touched_distinct)
    moreover have "rc_after row \<noteq> None" if "row \<in> set (ch_rows r0)" "rc_key row = KRun i" for row i
      using that new(3) [of i] unfolding rows rows_between_rows by (cases "?s (KRun i)") auto
    ultimately show ?thesis using rows by (auto simp: rows_ok_def rows_between_rows)
  qed
  have desc: "describes (ch_rows r0) ?s ?s'"
  proof (rule rows_between_describe)
    show "?s' k = ?s k" if "k \<notin> set (touched_keys changes)" for k
      using that new(2) by (simp add: touched_keys_def)
  qed (use rows in blast)
  have "holds cd lg' (hist @ [(whole r0, body)]) (ss @ [?s'])"
    unfolding holds_def
  proof (intro conjI)
    show "logged (lg_log lg') (hist @ [(whole r0, body)])"
      using logged_snoc [OF hist(2), of "whole r0" body "cm_request_digest meta"] ins(5) body by simp
    show "linked cd 0 genesis_prev_hash (hist @ [(whole r0, body)])"
      using hist seal(1-4) by (simp add: linked_snoc whole_canonical)
    show "\<forall>r \<in> fst ` set (hist @ [(whole r0, body)]). record_storable r \<and> rows_ok r \<and> ch_seq r < i64_limit"
      using old storable ok_rows ins(3) by auto
    show "path (map fst (tl (hist @ [(whole r0, body)]))) (ss @ [?s'])"
      using path_snocI [of "map fst (tl hist)" ss "whole r0" ?s'] old desc hist(1) by simp
    show "lg_fields lg' = indexed changed_fields ch_seq (map fst (hist @ [(whole r0, body)]))"
      using old ins(5) by (simp add: indexed_snoc)
    show "lg_weeks lg' = indexed (\<lambda>r. set (ch_weeks r)) ch_seq (map fst (hist @ [(whole r0, body)]))"
      using old ins(5) by (simp add: indexed_snoc)
    show "\<forall>s \<in> set (ss @ [?s']). state_keyed s" using old db_ok_state [OF new(1)] by auto
    show "db_storable (lg_db lg')" using storable_rows(1) ins(5) by simp
  qed (use ins(5) new(1) in auto)
  then show ?thesis
    using ins(5) body r0(2,4) seal(3,5) sealed_origin [OF r0(1)]
    by (intro exI [of _ "whole r0"] exI [of _ body]) simp
qed

end
