(* ===== verification/Checkpoints.thy ===== *)
theory Checkpoints
  imports Ledger
begin

text \<open>
  Checkpoints (\<open>history/checkpoint.rs\<close>, \<open>create_checkpoint_in\<close> of \<open>sqlite/history.rs\<close>): names of
  the history head, automatic at each boss week or made by an administrator, checked and never
  changed. There is no operation that changes or removes one.
\<close>

definition max_checkpoint_name :: nat where
  "max_checkpoint_name = 100"

record new_checkpoint =
  nc_name :: str
  nc_kind :: checkpoint_kind
  nc_week :: instant
  nc_created_at :: instant
  nc_created_by :: actor

datatype checkpoint_created = CheckpointCreated checkpoint | CheckpointExisting checkpoint

fun created_checkpoint :: "checkpoint_created \<Rightarrow> checkpoint" where
  "created_checkpoint (CheckpointCreated c) = c"
| "created_checkpoint (CheckpointExisting c) = c"

text \<open>\<open>Display\<close> of a \<open>NaiveDate\<close>: a sign and more digits outside the years of four digits.\<close>

definition date_text :: "date \<Rightarrow> str" where
  "date_text d =
     (let (year, month, day) = civil_of_date d
      in (if 0 \<le> year \<and> year \<le> 9999 then dec_pad 4 (nat year)
          else (if year < 0 then lit ''-'' else lit ''+'') @ dec_pad 4 (nat \<bar>year\<bar>)) @
         lit ''-'' @ dec2 (nat month) @ lit ''-'' @ dec2 (nat day))"

definition auto_checkpoint_name :: "date \<Rightarrow> str" where
  "auto_checkpoint_name d = lit ''week '' @ date_text d @ lit '' start''"

definition strip_suffix :: "str \<Rightarrow> str \<Rightarrow> str option" where
  "strip_suffix p s = map_option rev (strip_prefix (rev p) (rev s))"

definition reserved_name :: "str \<Rightarrow> bool" where
  "reserved_name name =
     (case Option.bind (strip_prefix (lit ''week '') name) (strip_suffix (lit '' start'')) of
        None \<Rightarrow> False
      | Some date_part \<Rightarrow>
          let parts = split_on (\<lambda>c. c = 45) [] date_part
          in length parts = 3 \<and> list_all (list_all ascii_digit) parts)"

text \<open>\<open>str::trim\<close>.\<close>

definition rust_trim :: "str \<Rightarrow> str" where
  "rust_trim s = rev (dropWhile is_whitespace (rev (dropWhile is_whitespace s)))"

definition check_checkpoint :: "new_checkpoint \<Rightarrow> commit_failure + unit" where
  "check_checkpoint new =
     (let name = nc_name new in
      if rust_trim name \<noteq> name \<or> name = [] \<or> length name > max_checkpoint_name \<or> list_ex is_control name
      then Err (CfStore ConstraintViolated)
      else if nc_kind new = AdminMade \<and> reserved_name name then Err (CfStore ConstraintViolated)
      else Ok ())"

definition create_checkpoint_in ::
  "new_checkpoint \<Rightarrow> ledger \<Rightarrow> commit_failure + checkpoint_created \<times> ledger" where
  "create_checkpoint_in new lg =
     res_bind (res_map_err CfStore (col_instant (nc_week new))) (\<lambda>week.
     let existing =
       (if nc_kind new = AutoMade then
          find (\<lambda>c. ck_kind c = AutoMade \<and> (ck_week c = week \<or> ck_name c = nc_name new)) (lg_checkpoints lg)
        else None)
     in case existing of
       Some c \<Rightarrow> Ok (CheckpointExisting c, lg)
     | None \<Rightarrow>
         if list_ex (\<lambda>c. ck_name c = nc_name new) (lg_checkpoints lg) then Err (CfStore ConstraintViolated)
         else
           res_bind (ok_or CfBackend (log_head lg)) (\<lambda>(n, row).
           res_bind (res_map_err CfStore (col_instant (nc_created_at new))) (\<lambda>at.
           let made = \<lparr>ck_name = nc_name new, ck_kind = nc_kind new, ck_head = \<lparr>cr_seq = n, cr_hash = lr_hash row\<rparr>,
                 ck_revision = lr_revision row, ck_week = nc_week new, ck_created_at = nc_created_at new,
                 ck_created_by = nc_created_by new\<rparr>
           in Ok (CheckpointCreated made,
                  lg\<lparr>lg_checkpoints := lg_checkpoints lg @ [made\<lparr>ck_week := week, ck_created_at := at\<rparr>]\<rparr>))))"

definition create_checkpoint :: "new_checkpoint \<Rightarrow> ledger \<Rightarrow> commit_failure + checkpoint_created \<times> ledger" where
  "create_checkpoint new lg = res_bind (check_checkpoint new) (\<lambda>_. create_checkpoint_in new lg)"

definition list_checkpoints :: "instant option \<Rightarrow> ledger \<Rightarrow> commit_failure + checkpoint list" where
  "list_checkpoints week lg =
     (case week of
        None \<Rightarrow> Ok (lg_checkpoints lg)
      | Some w \<Rightarrow>
          res_bind (res_map_err CfStore (col_instant w)) (\<lambda>w.
          Ok (filter (\<lambda>c. ck_week c = w) (lg_checkpoints lg))))"

section \<open>What checkpoints promise\<close>

text \<open>Each names a record the log holds; names are unique, and each boss week has at most one
  automatic checkpoint.\<close>

definition checkpoints_ok :: "ledger \<Rightarrow> bool" where
  "checkpoints_ok lg \<longleftrightarrow>
     (\<forall>c \<in> set (lg_checkpoints lg).
        \<exists>row. (cr_seq (ck_head c), row) \<in> set (lg_log lg) \<and> cr_hash (ck_head c) = lr_hash row \<and>
          ck_revision c = lr_revision row) \<and>
     distinct (map ck_name (lg_checkpoints lg)) \<and>
     distinct (map ck_week (filter (\<lambda>c. ck_kind c = AutoMade) (lg_checkpoints lg)))"

lemma create_checkpoint_cases:
  assumes "create_checkpoint new lg = Ok (out, lg')"
  obtains (existing) c where "out = CheckpointExisting c" "lg' = lg" "c \<in> set (lg_checkpoints lg)"
  | (made) c n row where "out = CheckpointCreated c" "log_head lg = Some (n, row)"
      "ck_name c \<notin> ck_name ` set (lg_checkpoints lg)"
      "ck_head c = \<lparr>cr_seq = n, cr_hash = lr_hash row\<rparr>" "ck_revision c = lr_revision row"
      "lg' = lg\<lparr>lg_checkpoints := lg_checkpoints lg @
         [c\<lparr>ck_week := ck_week c div 1000 * 1000, ck_created_at := ck_created_at c div 1000 * 1000\<rparr>]\<rparr>"
      "ck_kind c = AutoMade \<longrightarrow>
         ck_week c div 1000 * 1000 \<notin> ck_week ` set (filter (\<lambda>c. ck_kind c = AutoMade) (lg_checkpoints lg))"
proof -
  have in': "create_checkpoint_in new lg = Ok (out, lg')"
    using assms by (auto simp: create_checkpoint_def res_bind_Ok_iff)
  then have year: "python_year (nc_week new)"
    by (auto simp: create_checkpoint_in_def col_instant_def split: if_splits)
  let ?week = "nc_week new div 1000 * 1000"
  let ?found = "if nc_kind new = AutoMade then
      find (\<lambda>c. ck_kind c = AutoMade \<and> (ck_week c = ?week \<or> ck_name c = nc_name new)) (lg_checkpoints lg) else None"
  note run = in' [unfolded create_checkpoint_in_def col_instant_def, simplified year if_True res_map_err_simps
      res_bind_simps Let_def]
  show thesis
  proof (cases ?found)
    case (Some c)
    have "c \<in> set (lg_checkpoints lg)" using Some find_Some_in by (fastforce split: if_splits)
    then show thesis by (rule_tac existing [of c]) (use run Some in auto)
  next
    case None
    let ?made = "\<lambda>n row. \<lparr>ck_name = nc_name new, ck_kind = nc_kind new, ck_head = \<lparr>cr_seq = n, cr_hash = lr_hash row\<rparr>,
                 ck_revision = lr_revision row, ck_week = nc_week new, ck_created_at = nc_created_at new,
                 ck_created_by = nc_created_by new\<rparr>"
    obtain n row where r: "log_head lg = Some (n, row)" "\<not> list_ex (\<lambda>c. ck_name c = nc_name new) (lg_checkpoints lg)"
      "out = CheckpointCreated (?made n row)"
      "lg' = lg\<lparr>lg_checkpoints := lg_checkpoints lg @
         [(?made n row)\<lparr>ck_week := ?week, ck_created_at := nc_created_at new div 1000 * 1000\<rparr>]\<rparr>"
      using run None by (auto simp: res_bind_Ok_iff split: if_splits)
    have nw: "nc_kind new = AutoMade \<longrightarrow> ?week \<notin> ck_week ` set (filter (\<lambda>c. ck_kind c = AutoMade) (lg_checkpoints lg))"
    proof (intro impI notI)
      assume auto: "nc_kind new = AutoMade"
        and "?week \<in> ck_week ` set (filter (\<lambda>c. ck_kind c = AutoMade) (lg_checkpoints lg))"
      then obtain c where c: "c \<in> set (lg_checkpoints lg)" "ck_kind c = AutoMade" "ck_week c = ?week" by fastforce
      moreover have "find (\<lambda>c. ck_kind c = AutoMade \<and> (ck_week c = ?week \<or> ck_name c = nc_name new)) (lg_checkpoints lg) = None"
        using None auto by simp
      ultimately show False unfolding find_None_iff by blast
    qed
    have nn: "nc_name new \<notin> ck_name ` set (lg_checkpoints lg)" using r(2) by (auto simp: list_ex_iff)
    show thesis by (rule made [of "?made n row" n row]) (use r nw nn in simp_all)
  qed
qed

lemma create_checkpoint_ok:
  assumes "create_checkpoint new lg = Ok (out, lg')" "checkpoints_ok lg"
  shows "checkpoints_ok lg'" "lg_db lg' = lg_db lg" "lg_log lg' = lg_log lg" "lg_fields lg' = lg_fields lg"
    "lg_weeks lg' = lg_weeks lg" "set (lg_checkpoints lg) \<subseteq> set (lg_checkpoints lg')"
proof -
  have "checkpoints_ok lg' \<and> lg_db lg' = lg_db lg \<and> lg_log lg' = lg_log lg \<and> lg_fields lg' = lg_fields lg \<and>
    lg_weeks lg' = lg_weeks lg \<and> set (lg_checkpoints lg) \<subseteq> set (lg_checkpoints lg')"
    using assms(1)
  proof (cases rule: create_checkpoint_cases)
    case (existing c)
    then show ?thesis using assms(2) by simp
  next
    case (made c n row)
    have "lg_log lg \<noteq> []" "last (lg_log lg) = (n, row)" using made(2) by (auto simp: log_head_def split: if_splits)
    then have "(n, row) \<in> set (lg_log lg)" by (metis last_in_set)
    then show ?thesis using made assms(2) by (auto simp: checkpoints_ok_def)
  qed
  then show "checkpoints_ok lg'" "lg_db lg' = lg_db lg" "lg_log lg' = lg_log lg" "lg_fields lg' = lg_fields lg"
    "lg_weeks lg' = lg_weeks lg" "set (lg_checkpoints lg) \<subseteq> set (lg_checkpoints lg')" by simp_all
qed

lemma checkpoints_ok_grows:
  "checkpoints_ok lg \<Longrightarrow> set (lg_log lg) \<subseteq> set (lg_log lg') \<Longrightarrow> lg_checkpoints lg' = lg_checkpoints lg \<Longrightarrow>
   checkpoints_ok lg'"
  by (fastforce simp: checkpoints_ok_def)

end
