(* ===== verification/LedgerRead.thy ===== *)
theory LedgerRead
  imports Checkpoints
begin

text \<open>
  Reading the store: snapshots by scope (\<open>load\<close> and \<open>scoped_run_ids\<close> of \<open>sqlite/schedule.rs\<close>), the
  snapshot with its head and the records after one (\<open>sqlite/drafts.rs\<close>), the base a staged draft is
  replayed on (\<open>upstream\<close> of \<open>scheduler/drafts.rs\<close>), the pages of the history (\<open>history/port.rs\<close>,
  \<open>list_in\<close> and \<open>count_in\<close>) and the version of each field (\<open>last_changes_in\<close>, \<open>versioned_in\<close>). Whether
  a reminder's delivery is unproven is asked of the delivery tables, a parameter here. A read is one
  transaction, so it is a function of one state of the store.
\<close>

section \<open>Snapshots\<close>

datatype scope = ScopeAll | ScopeWeeks "instant list" | ScopeRun str | ScopeReminder str

definition scoped_run_ids :: "database \<Rightarrow> scope \<Rightarrow> str list" where
  "scoped_run_ids db scope =
     (case scope of
        ScopeAll \<Rightarrow> t_keys (db_runs db)
      | ScopeWeeks weeks \<Rightarrow>
          let weeks = List.map_filter (\<lambda>w. case col_instant w of Inr w \<Rightarrow> Some w | Inl _ \<Rightarrow> None) weeks
          in map fst (filter (\<lambda>(_, run). contains weeks (r_week_start run)) (db_runs db))
      | ScopeRun i \<Rightarrow> (if t_has (db_runs db) i then [i] else [])
      | ScopeReminder i \<Rightarrow> (case t_get (db_reminders db) i of None \<Rightarrow> [] | Some row \<Rightarrow> [m_run_id row]))"

definition load_scope :: "(str \<Rightarrow> bool) \<Rightarrow> scope \<Rightarrow> database \<Rightarrow> snapshot" where
  "load_scope unproven scope db =
     (let ids = scoped_run_ids db scope;
          reminders = filter (\<lambda>row. contains ids (m_run_id row)) (t_values (db_reminders db))
      in snapshot_sort
        \<lparr>sn_revision = db_revision db, sn_fixed_runs = t_values (db_fixed db),
         sn_runs = filter (\<lambda>run. contains ids (r_id run)) (t_values (db_runs db)),
         sn_reminders = reminders,
         sn_rsvps = filter (\<lambda>row. contains ids (a_run_id row)) (t_values (db_rsvps db)),
         sn_unproven_retired = filter unproven (map m_id reminders)\<rparr>)"

definition snapshot_with_head :: "(str \<Rightarrow> bool) \<Rightarrow> ledger \<Rightarrow> commit_failure + snapshot \<times> change_ref" where
  "snapshot_with_head unproven lg =
     res_bind (ok_or CfBackend (log_head lg)) (\<lambda>(n, row).
     Ok (load_scope unproven ScopeAll (lg_db lg), \<lparr>cr_seq = n, cr_hash = lr_hash row\<rparr>))"

datatype read_failure = RfStore commit_failure | RfGap history_gap

fun read_records :: "codec \<Rightarrow> (nat \<times> log_row) list \<Rightarrow> read_failure + change_record list" where
  "read_records cd [] = Ok []"
| "read_records cd (entry # entries) =
     (case stored_row cd entry None of
        Inl (n, _) \<Rightarrow> Err (RfGap (GapTampered n))
      | Inr (r, _) \<Rightarrow> res_bind (read_records cd entries) (\<lambda>rs. Ok (r # rs)))"

definition records_after :: "codec \<Rightarrow> change_ref \<Rightarrow> ledger \<Rightarrow> read_failure + change_record list" where
  "records_after cd base lg =
     (if cr_seq base \<ge> i64_limit then Err (RfStore CfBackend)
      else read_records cd (filter (\<lambda>(n, _). n > cr_seq base) (lg_log lg)))"

record upstream_schedule =
  up_current :: snapshot
  up_base_snapshot :: snapshot

definition upstream :: "codec \<Rightarrow> (str \<Rightarrow> bool) \<Rightarrow> change_ref \<Rightarrow> ledger \<Rightarrow> ledger \<Rightarrow> read_failure + upstream_schedule" where
  "upstream cd unproven base lg later =
     res_bind (res_map_err RfStore (snapshot_with_head unproven lg)) (\<lambda>(cur, head).
     res_bind (records_after cd base later) (\<lambda>records.
     res_bind (res_map_err RfGap (rewind cd cur base head records)) (\<lambda>old.
     Ok \<lparr>up_current = cur, up_base_snapshot = old\<rparr>)))"

section \<open>Pages of the history\<close>

definition max_page :: nat where
  "max_page = 200"

datatype change_filter =
    FilterAll | FilterWeek instant | FilterActor actor | FilterActorInWeek actor instant | FilterRun str
  | FilterRevisions nat nat

record change_query =
  cq_filter :: change_filter
  cq_cursor :: "nat option"
  cq_limit :: nat
  cq_newest_first :: bool

definition change_query_new :: "change_filter \<Rightarrow> change_query" where
  "change_query_new f = \<lparr>cq_filter = f, cq_cursor = None, cq_limit = max_page, cq_newest_first = False\<rparr>"

definition page_size :: "change_query \<Rightarrow> nat" where
  "page_size q = min max_page (max 1 (cq_limit q))"

record change_page =
  cp_records :: "change_record list"
  cp_next_cursor :: "nat option"

definition page_from_matches :: "change_record list \<Rightarrow> change_query \<Rightarrow> change_page" where
  "page_from_matches records q =
     (let kept = take (page_size q) records
      in \<lparr>cp_records = kept,
          cp_next_cursor = (if length records > page_size q \<and> kept \<noteq> [] then Some (ch_seq (last kept)) else None)\<rparr>)"

text \<open>The condition a filter puts on a row of the log.\<close>

definition week_clause :: "ledger \<Rightarrow> instant \<Rightarrow> commit_failure + (nat \<times> log_row \<Rightarrow> bool)" where
  "week_clause lg w = res_bind (res_map_err CfStore (col_instant w)) (\<lambda>w. Ok (\<lambda>(n, _). (w, n) \<in> lg_weeks lg))"

definition actor_clause :: "actor \<Rightarrow> nat \<times> log_row \<Rightarrow> bool" where
  "actor_clause who = (\<lambda>(_, row). lr_actor_kind row = actor_kind who \<and> lr_actor_id row = actor_id who)"

definition run_clause :: "ledger \<Rightarrow> str \<Rightarrow> nat \<times> log_row \<Rightarrow> bool" where
  "run_clause lg i = (\<lambda>(n, _). n \<in> snd ` Set.filter (\<lambda>e. fst (fst e) = OnRun i) (lg_fields lg))"

definition filter_clause :: "ledger \<Rightarrow> change_filter \<Rightarrow> commit_failure + (nat \<times> log_row \<Rightarrow> bool)" where
  "filter_clause lg f =
     (case f of
        FilterAll \<Rightarrow> Ok (\<lambda>_. True)
      | FilterWeek w \<Rightarrow> week_clause lg w
      | FilterActor who \<Rightarrow> Ok (actor_clause who)
      | FilterActorInWeek who w \<Rightarrow> res_bind (week_clause lg w) (\<lambda>in_week. Ok (\<lambda>e. actor_clause who e \<and> in_week e))
      | FilterRun i \<Rightarrow> Ok (run_clause lg i)
      | FilterRevisions from_ to_ \<Rightarrow>
          if from_ \<ge> i64_limit \<or> to_ \<ge> i64_limit then Err CfBackend
          else Ok (\<lambda>(_, row). from_ \<le> lr_revision row \<and> lr_revision row \<le> to_))"

fun decode_rows :: "codec \<Rightarrow> (nat \<times> log_row) list \<Rightarrow> commit_failure + change_record list" where
  "decode_rows cd [] = Ok []"
| "decode_rows cd (entry # entries) =
     (case stored_row cd entry None of
        Inl _ \<Rightarrow> Err CfBackend
      | Inr (r, _) \<Rightarrow> res_bind (decode_rows cd entries) (\<lambda>rs. Ok (r # rs)))"

definition list_in :: "codec \<Rightarrow> ledger \<Rightarrow> change_query \<Rightarrow> commit_failure + change_page" where
  "list_in cd lg q =
     res_bind (filter_clause lg (cq_filter q)) (\<lambda>clause.
     let past = (\<lambda>(n, _).
           case cq_cursor q of
             None \<Rightarrow> True
           | Some cursor \<Rightarrow>
               if cq_newest_first q then n < min cursor (i64_limit - 1) else n > min cursor (i64_limit - 1));
         found = filter (\<lambda>e. clause e \<and> past e) (lg_log lg);
         ordered = (if cq_newest_first q then rev found else found)
     in res_bind (decode_rows cd (take (page_size q + 1) ordered)) (\<lambda>records.
        Ok (page_from_matches records q)))"

definition count_in :: "ledger \<Rightarrow> change_filter \<Rightarrow> commit_failure + nat" where
  "count_in lg f =
     res_bind (filter_clause lg f) (\<lambda>clause.
     Ok (length (filter (\<lambda>e. fst e > 0 \<and> clause e) (lg_log lg))))"

section \<open>Versions of fields\<close>

text \<open>For each field of a target any record set, the last record's position.\<close>

definition last_changes_in :: "ledger \<Rightarrow> blame_target \<Rightarrow> str \<Rightarrow> nat option" where
  "last_changes_in lg t f = field_last lg t f"

record versioned =
  ve_target :: blame_target
  ve_row :: "row_value option"
  ve_answers :: "row_value list"
  ve_versions :: "str \<Rightarrow> nat option"

definition versioned_in :: "ledger \<Rightarrow> blame_target \<Rightarrow> versioned" where
  "versioned_in lg t =
     \<lparr>ve_target = t, ve_row = db_row (lg_db lg) (target_key t),
      ve_answers =
        (case t of
           OnRun i \<Rightarrow> map VRsvp (filter (\<lambda>row. a_run_id row = i) (t_values (db_rsvps (lg_db lg))))
         | OnFixedRun _ \<Rightarrow> []),
      ve_versions = last_changes_in lg t\<rparr>"

end
