(* ===== verification/LedgerHistory.thy ===== *)
theory LedgerHistory
  imports LedgerSound LedgerRead
begin

text \<open>
  Everything a store goes through: it is opened on its tables, then commits and checkpoints follow, in
  any number and order. The history then always verifies, and every state the schedule went through
  is given back by the records since.
\<close>

section \<open>Opening a store\<close>

text \<open>Tables without a history.\<close>

definition unrecorded :: "database \<Rightarrow> ledger" where
  "unrecorded db = \<lparr>lg_db = db, lg_log = [], lg_weeks = {}, lg_fields = {}, lg_checkpoints = []\<rparr>"

lemma year_1970: "python_year 0"
  by code_simp

lemma genesis_parts:
  assumes "record_genesis cd revision = Ok r"
  obtains body where "record_canonical cd r = Ok body" "sha256_hex cd body = ch_hash r" "ch_seq r = 0"
    "ch_prev_hash r = genesis_prev_hash" "ch_revision r = revision" "ch_at r = 0" "ch_rows r = []" "ch_weeks r = []"
    "ch_refs r = []" "ch_origin r = origin_new (ActSystem (lit ''store'')) Import" "ch_id r = lit ''genesis''"
proof -
  have "ch_id r = lit ''genesis''" "ch_at r = 0" "ch_refs r = []" "ch_origin r = origin_new (ActSystem (lit ''store'')) Import"
    using assms by (auto simp: record_genesis_def record_seal_def Let_def res_bind_Ok_iff)
  then show thesis
    using sealed [OF assms [unfolded record_genesis_def]] that by auto
qed

lemma ensure_genesis_holds:
  assumes "db_revision db < i64_limit"
  shows "\<exists>lg. ensure_genesis cd (unrecorded db) = Ok lg"
    "ensure_genesis cd (unrecorded db) = Ok lg \<Longrightarrow> db_ok db \<Longrightarrow> db_storable db \<Longrightarrow>
     (\<exists>r body. record_genesis cd (db_revision db) = Ok r \<and> holds cd lg [(r, body)] [db_row db]) \<and> lg_db lg = db \<and> lg_checkpoints lg = []"
proof -
  obtain r where r: "record_genesis cd (db_revision db) = Ok r" using genesis_sealed by blast
  obtain body where b: "record_canonical cd r = Ok body" "sha256_hex cd body = ch_hash r" "ch_seq r = 0"
    "ch_prev_hash r = genesis_prev_hash" "ch_revision r = db_revision db" "ch_at r = 0" "ch_rows r = []"
    "ch_weeks r = []" "ch_refs r = []" "ch_origin r = origin_new (ActSystem (lit ''store'')) Import"
    using r by (rule genesis_parts)
  have opened: "ensure_genesis cd (unrecorded db) = Ok ((unrecorded db)\<lparr>lg_log := [(0, log_row_of r body None)]\<rparr>)"
    using r b assms year_1970
    by (simp add: ensure_genesis_def unrecorded_def insert_log_def Let_def col_instant_def log_row_of_def i64_limit_def
        t_has_def t_values_def)
  then show "\<exists>lg. ensure_genesis cd (unrecorded db) = Ok lg" by blast
  show "(\<exists>r body. record_genesis cd (db_revision db) = Ok r \<and> holds cd lg [(r, body)] [db_row db]) \<and> lg_db lg = db \<and> lg_checkpoints lg = []"
    if "ensure_genesis cd (unrecorded db) = Ok lg" "db_ok db" "db_storable db"
  proof -
    have lg: "lg = (unrecorded db)\<lparr>lg_log := [(0, log_row_of r body None)]\<rparr>" using that(1) opened by simp
    have "record_storable r"
      using b assms year_1970 by (simp add: record_storable_def record_u64_def i64_limit_def instant_storable_def)
    moreover have "changed_fields r = {}" by (simp add: changed_fields_def b)
    ultimately have "holds cd lg [(r, body)] [db_row db]"
      using b that db_ok_state
      by (auto simp: holds_def lg unrecorded_def logged_def rows_ok_def i64_limit_def indexed_def)
    then show ?thesis using r by (auto simp: lg unrecorded_def)
  qed
qed

section \<open>Steps\<close>

inductive ledger_step :: "codec \<Rightarrow> ledger \<Rightarrow> ledger \<Rightarrow> bool" for cd where
  committing:
    "ledger_commit cd ident expected changes meta lg = Ok (out, lg') \<Longrightarrow> clocked changes \<Longrightarrow> meta_u64 meta \<Longrightarrow>
     ledger_step cd lg lg'"
| naming: "create_checkpoint new lg = Ok (made, lg') \<Longrightarrow> ledger_step cd lg lg'"

inductive_cases ledger_stepE: "ledger_step cd lg lg'"

abbreviation ledger_steps :: "codec \<Rightarrow> ledger \<Rightarrow> ledger \<Rightarrow> bool" where
  "ledger_steps cd \<equiv> (ledger_step cd)\<^sup>*\<^sup>*"

text \<open>The store after it was opened on some tables and any steps.\<close>

definition reached :: "codec \<Rightarrow> database \<Rightarrow> ledger \<Rightarrow> bool" where
  "reached cd db lg \<longleftrightarrow> (\<exists>opened. ensure_genesis cd (unrecorded db) = Ok opened \<and> ledger_steps cd opened lg)"

text \<open>Tables a store can be opened on.\<close>

definition db_sound :: "database \<Rightarrow> bool" where
  "db_sound db \<longleftrightarrow> db_ok db \<and> db_storable db \<and> db_revision db < i64_limit"

lemma step_holds:
  assumes "ledger_step cd lg lg'" "holds cd lg hist ss" "checkpoints_ok lg"
  shows "\<exists>more ss'. holds cd lg' (hist @ more) (ss @ ss') \<and> checkpoints_ok lg' \<and> (\<exists>added. lg_log lg' = lg_log lg @ added)"
  using assms(1)
proof (cases rule: ledger_step.cases)
  case (committing ident expected changes meta out)
  show ?thesis
    using committing(1)
  proof (cases rule: ledger_commitE)
    case (new db c)
    obtain r body where
      "holds cd lg' (hist @ [(r, body)]) (ss @ [db_row db])" "lg_checkpoints lg' = lg_checkpoints lg"
      "lg_log lg' = lg_log lg @ [(ch_seq r, log_row_of r body (cm_request_digest meta))]"
      using append_holds [OF assms(2) new(5) committing(2,3) new(6)] by blast
    moreover from this have "set (lg_log lg) \<subseteq> set (lg_log lg')" by auto
    ultimately show ?thesis using checkpoints_ok_grows [OF assms(3), of lg'] by blast
  qed (use assms(2,3) in \<open>auto intro!: exI [of _ "[]"]\<close>)
next
  case (naming new made)
  have "holds cd lg' hist ss"
    using assms(2) create_checkpoint_ok(2-5) [OF naming(1) assms(3)] by (simp add: holds_def)
  then show ?thesis
    using create_checkpoint_ok(1,3) [OF naming(1) assms(3)] by (auto intro!: exI [of _ "[]"])
qed

lemma steps_hold:
  assumes "ledger_steps cd lg lg'" "holds cd lg hist ss" "checkpoints_ok lg"
  shows "\<exists>more ss'. holds cd lg' (hist @ more) (ss @ ss') \<and> checkpoints_ok lg' \<and> (\<exists>added. lg_log lg' = lg_log lg @ added)"
  using assms(1)
proof (induction rule: rtranclp_induct)
  case base
  then show ?case using assms(2,3) by (auto intro!: exI [of _ "[]"])
next
  case (step lg1 lg2)
  obtain more ss' added where 1: "holds cd lg1 (hist @ more) (ss @ ss')" "checkpoints_ok lg1" "lg_log lg1 = lg_log lg @ added"
    using step.IH by blast
  obtain more2 ss2 added2 where "holds cd lg2 ((hist @ more) @ more2) ((ss @ ss') @ ss2)" "checkpoints_ok lg2"
    "lg_log lg2 = lg_log lg1 @ added2"
    using step_holds [OF step.hyps(2) 1(1,2)] by blast
  then show ?case using 1(3) by (metis append.assoc)
qed

lemma reached_holds:
  assumes "reached cd db lg" "db_sound db"
  obtains hist ss where "holds cd lg hist ss" "checkpoints_ok lg" "hd ss = db_row db"
proof -
  obtain opened where o: "ensure_genesis cd (unrecorded db) = Ok opened" "ledger_steps cd opened lg"
    using assms(1) by (auto simp: reached_def)
  obtain r body where h: "holds cd opened [(r, body)] [db_row db]" "lg_checkpoints opened = []"
    using ensure_genesis_holds(2) [OF _ o(1)] assms(2) by (auto simp: db_sound_def)
  then have "checkpoints_ok opened" by (simp add: checkpoints_ok_def)
  then obtain more ss' where "holds cd lg ([(r, body)] @ more) ([db_row db] @ ss')" "checkpoints_ok lg"
    using steps_hold [OF o(2) h(1)] by blast
  then show thesis by (rule that) (simp only: append_Cons list.sel)
qed

section \<open>Reading it back\<close>

lemma parse_canonical:
  assumes "codec_ok cd" "record_storable r" "record_canonical cd r = Ok body"
  shows "record_parse cd body (ch_hash r) = Ok r"
proof -
  obtain j where "record_body r = Ok j" "cd_write cd j = body"
    using assms(3) by (auto simp: record_canonical_def res_bind_Ok_iff)
  then show ?thesis using record_parse_body [OF assms(1) _ assms(2), of j "ch_hash r"] by simp
qed

lemma stored_row_logged:
  assumes "codec_ok cd" "record_storable r" "record_canonical cd r = Ok body"
    and "\<And>ws. weeks = Some ws \<Longrightarrow> set (ch_weeks r) = ws"
  shows "stored_row cd (ch_seq r, log_row_of r body digest) weeks = Inr (r, body)"
  using parse_canonical [OF assms(1-3)] assms(4)
  by (simp add: stored_row_def log_row_of_def split: option.split)

lemma linked_in: "linked cd n prev hist \<Longrightarrow> (r, body) \<in> set hist \<Longrightarrow>
    record_canonical cd r = Ok body \<and> sha256_hex cd body = ch_hash r"
  by (induction cd n prev hist rule: linked.induct) auto

lemma holds_in:
  assumes "holds cd lg hist ss" "(r, body) \<in> set hist"
  shows "record_storable r" "rows_ok r" "ch_seq r < i64_limit" "record_canonical cd r = Ok body" "sha256_hex cd body = ch_hash r"
  using assms linked_in [of cd 0 genesis_prev_hash hist r body] by (force simp: holds_def)+

text \<open>The rows of the log are those of the records, in order.\<close>

lemma read_back:
  assumes "codec_ok cd" "holds cd lg hist ss"
    and "\<And>r body digest. (r, body) \<in> set hist \<Longrightarrow> f (ch_seq r, log_row_of r body digest) = g (r, body)"
  shows "map f (lg_log lg) = map g hist"
proof -
  have "list_all2 (\<lambda>(n, row) (r, body). n = ch_seq r \<and> (\<exists>digest. row = log_row_of r body digest)) (lg_log lg) hist"
    using assms(2) by (simp add: holds_def logged_def)
  then show ?thesis using assms(3) by (induction rule: list_all2_induct) fastforce+
qed

lemma seq_inj:
  assumes "holds cd lg hist ss" "a \<in> fst ` set hist" "b \<in> fst ` set hist" "ch_seq a = ch_seq b"
  shows "a = b"
proof -
  have "map (ch_seq \<circ> fst) hist = [0 ..< length hist]"
    using linked_seqs [of cd 0 genesis_prev_hash hist] assms(1) by (simp add: holds_def)
  then have "distinct (map (ch_seq \<circ> fst) hist)" by simp
  then have "inj_on (ch_seq \<circ> fst) (set hist)" by (simp add: distinct_map)
  then show ?thesis using assms(2-4) by (auto simp: inj_on_def)
qed

lemma indexed_rows:
  assumes "codec_ok cd" "holds cd lg hist ss"
  shows "map (indexed_row cd lg) (lg_log lg) = map Inr hist"
proof (rule read_back [OF assms])
  fix r body digest assume r: "(r, body) \<in> set hist"
  then have m: "r \<in> set (map fst hist)" by force
  have inj: "a = b" if "a \<in> set (map fst hist)" "b \<in> set (map fst hist)" "ch_seq a = ch_seq b" for a b
    using seq_inj [OF assms(2)] that by simp
  have "lg_weeks lg = indexed (\<lambda>r. set (ch_weeks r)) ch_seq (map fst hist)"
    "lg_fields lg = indexed changed_fields ch_seq (map fst hist)"
    using assms(2) by (simp_all only: holds_def)
  then have "fst ` Set.filter (\<lambda>e. snd e = ch_seq r) (lg_weeks lg) = set (ch_weeks r)"
    "fst ` Set.filter (\<lambda>e. snd e = ch_seq r) (lg_fields lg) = changed_fields r"
    by (simp_all only: indexed_at [OF inj m])
  moreover have "stored_row cd (ch_seq r, log_row_of r body digest) (Some (set (ch_weeks r))) = Inr (r, body)"
    by (rule stored_row_logged [OF assms(1) holds_in(1,4) [OF assms(2) r]]) simp
  ultimately show "indexed_row cd lg (ch_seq r, log_row_of r body digest) = Inr (r, body)"
    by (simp only: indexed_row_def fst_conv Let_def sum.case prod.case simp_thms if_False)
qed

lemma reference_iff: "record_reference r = ref \<longleftrightarrow> ch_seq r = cr_seq ref \<and> ch_hash r = cr_hash ref"
  by (cases ref) (auto simp: record_reference_def)

lemma logged_in: "logged rows hist \<Longrightarrow> (n, row) \<in> set rows \<Longrightarrow>
    \<exists>r body digest. (r, body) \<in> set hist \<and> n = ch_seq r \<and> row = log_row_of r body digest"
  unfolding logged_def by (induction rule: list_all2_induct) auto

lemma holds_verifies:
  assumes "codec_ok cd" "holds cd lg hist ss" "checkpoints_ok lg"
  shows "verify_history cd lg = verify_chain cd (map Inr hist)" "is_intact (verify_history cd lg)"
proof -
  have intact: "is_intact (verify_chain cd (map Inr hist))"
    using assms(2) by (simp add: verify_stored_intact holds_def)
  have "checkpoint_kept (map Inr hist) c" if "c \<in> set (lg_checkpoints lg)" for c
  proof -
    note mem = that
    obtain row where row: "(cr_seq (ck_head c), row) \<in> set (lg_log lg)" "cr_hash (ck_head c) = lr_hash row"
      "ck_revision c = lr_revision row"
      using mem assms(3) unfolding checkpoints_ok_def by blast
    have "logged (lg_log lg) hist" using assms(2) by (simp only: holds_def)
    then obtain r body digest where "(r, body) \<in> set hist" "cr_seq (ck_head c) = ch_seq r"
      "row = log_row_of r body digest"
      using logged_in [OF _ row(1)] by blast
    moreover from this have "record_reference r = ck_head c" "ch_revision r = ck_revision c"
      using row(2,3) by (simp_all add: reference_iff log_row_of_def)
    ultimately show ?thesis unfolding checkpoint_kept_def list_ex_iff by (auto intro!: bexI [of _ "(r, body)"])
  qed
  then have "find (\<lambda>c. \<not> checkpoint_kept (map Inr hist) c) (lg_checkpoints lg) = None"
    by (simp add: find_None_iff)
  then show "verify_history cd lg = verify_chain cd (map Inr hist)"
    using intact indexed_rows [OF assms(1,2)] by (simp add: verify_history_def)
  then show "is_intact (verify_history cd lg)" using intact by simp
qed

section \<open>Going back\<close>

lemma linked_append:
  "linked cd n prev (xs @ ys) \<longleftrightarrow>
     linked cd n prev xs \<and> linked cd (n + length xs) (if xs = [] then prev else ch_hash (fst (last xs))) ys"
  by (induction cd n prev xs rule: linked.induct) auto

lemma linked_chained: "linked cd (n + 1) prev xs \<Longrightarrow> chained cd n prev (map fst xs)"
proof (induction xs arbitrary: n prev)
  case (Cons e xs)
  obtain r body where "e = (r, body)" by (cases e)
  then show ?case using Cons by (simp add: computed_hash_def)
qed simp

lemma path_length: "path rs ss \<Longrightarrow> length ss = length rs + 1"
  by (induction rs ss rule: path.induct) auto

lemma path_append: "path (rs @ rs') (ss @ ss') \<Longrightarrow> path rs ss \<Longrightarrow> path rs' (last ss # ss')"
  by (induction rs ss rule: path.induct) auto

lemma read_logged:
  assumes "codec_ok cd" "logged rows hist" "\<forall>(r, body) \<in> set hist. record_storable r \<and> record_canonical cd r = Ok body"
  shows "read_records cd rows = Ok (map fst hist)"
  using assms(2,3) unfolding logged_def
proof (induction rule: list_all2_induct)
  case (Cons e rows h hist)
  obtain r body digest where "h = (r, body)" "e = (ch_seq r, log_row_of r body digest)"
    using Cons.hyps by (cases e; cases h) auto
  then show ?case using Cons.IH Cons.prems stored_row_logged [OF assms(1), of r body None] by simp
qed simp

lemma logged_after:
  assumes "logged rows (hist @ rest)" "linked cd 0 genesis_prev_hash (hist @ rest)" "hist \<noteq> []"
  shows "logged (filter (\<lambda>(n, _). n > length hist - 1) rows) rest"
proof -
  obtain us vs where rows: "rows = us @ vs" "logged us hist" "logged vs rest"
    using assms(1) unfolding logged_def list_all2_append2 by blast
  have "linked cd (length hist) (ch_hash (fst (last hist))) rest" "linked cd 0 genesis_prev_hash hist"
    using assms(2,3) by (simp_all add: linked_append)
  then have keys: "map fst us = [0 ..< length hist]" "map fst vs = [length hist ..< length hist + length rest]"
    using logged_keys [OF rows(2)] logged_keys [OF rows(3)] linked_seqs by (metis add_0)+
  have "\<not> n > length hist - 1" if "(n, row) \<in> set us" for n row
  proof -
    have "n \<in> set (map fst us)" using that by force
    then show ?thesis using assms(3) by (cases hist) (auto simp: keys(1))
  qed
  moreover have "n > length hist - 1" if "(n, row) \<in> set vs" for n row
  proof -
    have "n \<in> set (map fst vs)" using that by force
    then show ?thesis using assms(3) by (cases hist) (auto simp: keys(2))
  qed
  ultimately have "filter (\<lambda>(n, _). n > length hist - 1) us = []" "filter (\<lambda>(n, _). n > length hist - 1) vs = vs"
    by (auto simp: filter_empty_conv intro!: filter_True)
  then show ?thesis using rows by simp
qed

lemma step_references: "ledger_step cd lg lg' \<Longrightarrow> references_ok (lg_db lg) \<Longrightarrow> references_ok (lg_db lg')"
proof (induction rule: ledger_step.induct)
  case (committing ident expected changes meta lg out lg')
  show ?case
    using committing(1)
  proof (cases rule: ledger_commitE)
    case (new db c)
    have "lg_db lg' = db" using new(6) by (rule append_recordE) (auto simp: insert_record_def res_bind_Ok_iff split: if_splits)
    then show ?thesis using new(7) by simp
  qed (use committing in simp_all)
next
  case (naming new lg made lg')
  then show ?case by (cases rule: create_checkpoint_cases) simp_all
qed

lemma steps_references: "ledger_steps cd lg lg' \<Longrightarrow> references_ok (lg_db lg) \<Longrightarrow> references_ok (lg_db lg')"
  by (induction rule: rtranclp_induct) (auto dest: step_references)

end
