(* ===== verification/LedgerProgress.thy ===== *)
theory LedgerProgress
  imports LedgerHistory
begin

text \<open>
  A commit that passes its checks goes through: the rows it stores can always be written to a record,
  and the record always fits the log, unless its text has the hash of another text in the log.
\<close>

section \<open>Records can be written\<close>

lemma write_iso_Ok: "python_year at \<Longrightarrow> \<exists>s. write_iso at = Ok s"
  by (simp add: write_iso_def to_iso_def)

lemma storable_iso: "instant_storable at \<Longrightarrow> \<exists>s. write_iso at = Ok s"
  by (simp add: write_iso_Ok instant_storable_def)

lemma res_list_exists: "(\<And>x. x \<in> set xs \<Longrightarrow> \<exists>y. f x = Ok y) \<Longrightarrow> \<exists>ys. res_list f xs = Ok ys"
proof (induction xs)
  case (Cons x xs)
  obtain y ys where "f x = Ok y" "res_list f xs = Ok ys" using Cons by (metis list.set_intros)
  then show ?case by simp
qed simp

lemma value_json_Ok:
  assumes "value_storable v"
  shows "\<exists>j. value_to_json v = Ok j"
proof (cases v)
  case (VFixedRun row)
  have "\<exists>ys. res_list standing_to_json (f_standing row) = Ok ys"
    using assms VFixedRun storable_iso
    by (intro res_list_exists) (fastforce simp: standing_to_json_def fixed_storable_def)
  then show ?thesis using VFixedRun by (auto simp: Let_def)
next
  case (VRun row)
  have s: "instant_storable (r_week_start row)" "instant_storable (r_datetime row)"
    "\<And>a. a \<in> set (r_attendance row) \<Longrightarrow> instant_storable (ar_at a)"
    "\<And>pin. r_status_pin row = Some pin \<Longrightarrow> instant_storable (pin_at pin)"
    using assms VRun by (auto simp: run_storable_def)
  have "\<exists>ys. res_list attendance_to_json (r_attendance row) = Ok ys"
    using s(3) storable_iso by (intro res_list_exists) (fastforce simp: attendance_to_json_def)
  then obtain ys where "res_list attendance_to_json (r_attendance row) = Ok ys" ..
  moreover obtain week at where "write_iso (r_week_start row) = Ok week" "write_iso (r_datetime row) = Ok at"
    using s(1,2) storable_iso by meson
  moreover have "\<exists>s. write_iso (pin_at pin) = Ok s" if "r_status_pin row = Some pin" for pin
    using s(4) [OF that] storable_iso by blast
  ultimately show ?thesis using VRun by (cases "r_status_pin row") (auto simp: Let_def)
next
  case (VReminder row)
  have "\<exists>s. write_iso (m_fire_at row) = Ok s" "\<And>at. m_sent_at row = Some at \<Longrightarrow> \<exists>s. write_iso at = Ok s"
    using assms VReminder storable_iso by (auto simp: reminder_storable_def)
  then show ?thesis using VReminder by (cases "m_sent_at row") (auto simp: res_opt_def)
next
  case (VRsvp row)
  have "\<exists>s. write_iso (a_at row) = Ok s" using assms VRsvp storable_iso by (simp add: rsvp_storable_def)
  then show ?thesis using VRsvp by auto
qed

lemma row_json_Ok: "row_storable row \<Longrightarrow> \<exists>j. row_to_json row = Ok j"
proof -
  assume "row_storable row"
  then have v: "value_storable v" if "rc_before row = Some v \<or> rc_after row = Some v" for v
    using that unfolding row_storable_def by blast
  have "\<exists>j. res_opt value_to_json x = Ok j" if "\<And>v. x = Some v \<Longrightarrow> value_storable v" for x
    using that value_json_Ok by (cases x) (fastforce simp: res_opt_def)+
  then obtain j j' where "res_opt value_to_json (rc_before row) = Ok j" "res_opt value_to_json (rc_after row) = Ok j'"
    using v by meson
  then show ?thesis by (simp add: row_to_json_def)
qed

lemma canonical_Ok:
  assumes "\<And>row. row \<in> set (ch_rows r) \<Longrightarrow> row_storable row" "\<And>w. w \<in> set (ch_weeks r) \<Longrightarrow> instant_storable w"
    "python_year (ch_at r)"
  shows "\<exists>body. record_canonical cd r = Ok body"
proof -
  obtain rows where "res_list row_to_json (ch_rows r) = Ok rows" using res_list_exists [of "ch_rows r" row_to_json] row_json_Ok assms(1) by blast
  moreover obtain weeks where "res_list write_iso (ch_weeks r) = Ok weeks"
    using res_list_exists [of "ch_weeks r" write_iso] storable_iso assms(2) by blast
  moreover obtain at where "write_iso (ch_at r) = Ok at" using write_iso_Ok [OF assms(3)] by blast
  ultimately show ?thesis by (simp add: record_canonical_def record_body_def)
qed

lemma canonical_seq:
  assumes "codec_ok cd" "record_u64 a" "record_u64 b"
    and "record_canonical cd a = Ok body" "record_canonical cd b = Ok body"
  shows "ch_seq a = ch_seq b"
proof -
  obtain j j' where j: "record_body a = Ok j" "cd_write cd j = body" "record_body b = Ok j'" "cd_write cd j' = body"
    using assms(4,5) by (auto simp: record_canonical_def res_bind_Ok_iff)
  then have "j = j'" using codec_inject [OF assms(1)] json_ok_body assms(2,3) by metis
  moreover have "json_get j (lit ''seq'') = Some (JNum (ch_seq a))" "json_get j' (lit ''seq'') = Some (JNum (ch_seq b))"
    using j(1,3) by (auto simp: record_body_def res_bind_Ok_iff json_simps)
  ultimately show ?thesis by simp
qed

section \<open>Commits go through\<close>

text \<open>A text that has the hash of another text of the log.\<close>

definition second_text :: "codec \<Rightarrow> ledger \<Rightarrow> bool" where
  "second_text cd lg \<longleftrightarrow> (\<exists>row \<in> set (t_values (lg_log lg)). \<exists>body. body \<noteq> lr_body row \<and> sha256_hex cd body = lr_hash row)"

lemma log_parts:
  assumes "logged (lg_log lg) hist" "row \<in> set (t_values (lg_log lg))"
  obtains r body digest where "(r, body) \<in> set hist" "row = log_row_of r body digest"
proof -
  obtain n where "(n, row) \<in> set (lg_log lg)" using assms(2) by (auto simp: t_values_def)
  then show thesis using logged_in [OF assms(1)] that by blast
qed

lemma insert_log_Ok:
  assumes "python_year (ch_at r)" "ch_seq r < i64_limit" "ch_revision r < i64_limit" "record_canonical cd r = Ok body"
    "\<not> t_has rows (ch_seq r)"
    "\<And>row. row \<in> set (t_values rows) \<Longrightarrow> lr_id row \<noteq> ch_id r \<and> lr_hash row \<noteq> ch_hash r"
    "\<And>row. row \<in> set (t_values rows) \<Longrightarrow> \<not> (og_request_id (ch_origin r) \<noteq> None \<and>
      lr_actor_kind row = actor_kind (og_actor (ch_origin r)) \<and> lr_actor_id row = actor_id (og_actor (ch_origin r)) \<and>
      lr_request_id row = og_request_id (ch_origin r))"
  shows "\<exists>rows'. insert_log cd r digest rows = Ok rows'"
proof -
  let ?row = "\<lparr>lr_id = ch_id r, lr_revision = ch_revision r, lr_at = ch_at r div 1000 * 1000,
      lr_actor_kind = actor_kind (og_actor (ch_origin r)), lr_actor_id = actor_id (og_actor (ch_origin r)),
      lr_surface = surface_str (og_surface (ch_origin r)), lr_request_id = og_request_id (ch_origin r),
      lr_request_digest = digest, lr_body = body, lr_prev_hash = ch_prev_hash r, lr_hash = ch_hash r\<rparr>"
  have "\<not> list_ex (\<lambda>other. lr_id other = lr_id ?row \<or> lr_hash other = lr_hash ?row \<or>
      (lr_request_id ?row \<noteq> None \<and> lr_actor_kind other = lr_actor_kind ?row \<and>
       lr_actor_id other = lr_actor_id ?row \<and> lr_request_id other = lr_request_id ?row)) (t_values rows)"
    using assms(6,7) unfolding list_ex_iff log_row.select_convs by blast
  then have "insert_log cd r digest rows = Ok (t_insert (ch_seq r) ?row rows)"
    using assms(1-5) by (simp only: insert_log_def col_instant_def res_map_err_simps res_bind_simps Let_def if_True if_False
        not_le [symmetric] simp_thms)
  then show ?thesis by blast
qed

lemma append_record_Ok:
  assumes "record_seal cd (map_option (\<lambda>(n, row). (n, lr_hash row)) (log_head lg)) ident revision meta
      (touched_weeks (rows_between keys (db_row before) (db_row (lg_db lg)))
        (\<lambda>run_id. map_option r_week_start (t_get (db_runs (lg_db lg)) run_id)))
      (rows_between keys (db_row before) (db_row (lg_db lg))) = Ok r"
    and "check_overrides_changed (cm_expect meta) (changed_fields r) = Ok ()"
    and "insert_record cd r (cm_request_digest meta) lg = Ok lg'"
  shows "append_record cd ident revision meta keys before lg =
    Ok (\<lparr>ct_seq = ch_seq r, ct_revision = ch_revision r, ct_replayed = False\<rparr>, lg')"
  by (simp only: append_record_def Let_def assms res_map_err_simps res_bind_simps)

lemma commit_written:
  assumes h: "holds cd lg hist ss" and codec: "codec_ok cd"
    and checks: "replayed lg meta = Ok None" "check_expect lg meta = Ok ()" "db_revision (lg_db lg) = expected" "changes \<noteq> []"
    and write_ok: "store_write (collapse changes) (lg_db lg) = Ok db" "references_ok db" "clocked changes"
    and meta: "meta_u64 meta" "python_year (cm_at meta)" "ex_overrides (cm_expect meta) = []"
    and fresh: "ident \<notin> lr_id ` set (t_values (lg_log lg))" "length hist < i64_limit" "expected + 1 < i64_limit"
    and hash: "\<not> second_text cd lg"
  shows "\<exists>lg'. ledger_commit cd ident expected changes meta lg =
    Ok (Some \<lparr>ct_seq = length hist, ct_revision = expected + 1, ct_replayed = False\<rparr>, lg')"
proof -
  let ?rows = "rows_between (touched_keys changes) (db_row (lg_db lg)) (db_row db)"
  let ?weeks = "touched_weeks ?rows (\<lambda>run_id. map_option r_week_start (t_get (db_runs db) run_id))"
  note old = h [unfolded holds_def]
  have "db_ok (lg_db lg)" "db_storable (lg_db lg)" using old by blast+
  note storable = commit_storable [OF write_ok(1,3) this, where rows = ?rows, OF refl]
  have hist: "hist \<noteq> []" "logged (lg_log lg) hist" "linked cd 0 genesis_prev_hash hist" using old by blast+
  let ?n = "length hist - 1" and ?prev = "ch_hash (fst (last hist))"
  have head: "log_head (lg\<lparr>lg_db := db\<rparr>) = Some (last (lg_log lg))" "fst (last (lg_log lg)) = ?n"
    "lr_hash (snd (last (lg_log lg))) = ?prev"
    using log_head_of [OF hist(2,1)] linked_last [OF hist(3,1)] by (simp_all add: log_head_def)
  then have prev: "map_option (\<lambda>(n, row). (n, lr_hash row)) (log_head (lg\<lparr>lg_db := db\<rparr>)) = Some (?n, ?prev)"
    by (cases "last (lg_log lg)") simp
  let ?r = "\<lparr>ch_seq = ?n + 1, ch_id = ident, ch_revision = expected + 1, ch_at = cm_at meta, ch_origin = cm_origin meta,
     ch_weeks = remdups_adj (sort ?weeks), ch_rows = sort_key rc_key ?rows, ch_notices = cm_notices meta,
     ch_refs = cm_refs meta, ch_prev_hash = ?prev, ch_hash = []\<rparr>"
  have "\<exists>body. record_canonical cd ?r = Ok body"
    using storable(2,3) meta(2) by (intro canonical_Ok) simp_all
  then obtain body where body: "record_canonical cd ?r = Ok body" ..
  let ?r' = "?r\<lparr>ch_hash := sha256_hex cd body\<rparr>"
  have seal: "record_seal cd (Some (?n, ?prev)) ident (expected + 1) meta ?weeks ?rows = Ok ?r'"
    using body by (simp add: record_seal_def computed_hash_def)
  have body': "record_canonical cd ?r' = Ok body" using body by (simp only: record_canonical_def record_body_hash)
  have seq: "?n + 1 = length hist" using hist(1) by (cases hist) simp_all
  have u64: "record_u64 ?r'"
    using fresh(2,3) meta(1) seq by (auto simp: record_u64_def meta_u64_def i64_limit_def)
  have keys: "fst ` set (lg_log lg) = {0 ..< length hist}"
    using arg_cong [OF logged_keys [OF hist(2)], of set] arg_cong [OF linked_seqs [OF hist(3)], of set] by simp
  have new_hash: "lr_hash row \<noteq> sha256_hex cd body" if "row \<in> set (t_values (lg_log lg))" for row
  proof
    note row = that
    assume eq: "lr_hash row = sha256_hex cd body"
    obtain r b digest where r: "(r, b) \<in> set hist" "row = log_row_of r b digest" using log_parts [OF hist(2) row] .
    have "b = body" using hash row eq r(2) unfolding second_text_def by (metis log_row_of_def log_row.select_convs(9))
    moreover have "record_canonical cd r = Ok b" "record_u64 r"
      using holds_in(1,4) [OF h r(1)] by (simp_all add: record_storable_def)
    ultimately have "ch_seq r = ?n + 1" using canonical_seq [OF codec _ u64 _ body'] by simp
    moreover have "ch_seq r < length hist"
      using linked_seqs [OF hist(3)] r(1) by (metis (no_types, lifting) add_0 atLeastLessThan_iff comp_apply
          fst_conv in_set_conv_nth length_map nth_map set_map set_upt image_eqI)
    ultimately show False using seq by simp
  qed
  have new_request: "\<not> (lr_request_id row = og_request_id (cm_origin meta) \<and> og_request_id (cm_origin meta) \<noteq> None \<and>
      lr_actor_kind row = actor_kind (og_actor (cm_origin meta)) \<and> lr_actor_id row = actor_id (og_actor (cm_origin meta)))"
    if "row \<in> set (t_values (lg_log lg))" for row
    using that checks(1)
    by (auto simp: replayed_def recorded_request_def find_None_iff t_values_def split: option.splits if_splits)
  have "\<exists>rows. insert_log cd ?r' (cm_request_digest meta) (lg_log lg) = Ok rows"
  proof (rule insert_log_Ok [OF _ _ _ body'])
    show "\<not> t_has (lg_log lg) (ch_seq ?r')"
      using keys seq by (auto simp: t_has_def t_get_def map_of_eq_None_iff)
    show "lr_id row \<noteq> ch_id ?r' \<and> lr_hash row \<noteq> ch_hash ?r'" if "row \<in> set (t_values (lg_log lg))" for row
      using that fresh(1) new_hash by auto
  qed (use new_request fresh seq meta(2) in auto)
  then obtain rows where ins: "insert_log cd ?r' (cm_request_digest meta) (lg_log lg) = Ok rows" ..
  have "list_all python_year (ch_weeks ?r')"
    using storable(3) by (auto simp: list_all_iff instant_storable_def)
  then obtain lg' where "insert_record cd ?r' (cm_request_digest meta) (lg\<lparr>lg_db := db\<rparr>) = Ok lg'"
    using ins by (simp add: insert_record_def)
  moreover have "check_overrides_changed (cm_expect meta) (changed_fields ?r') = Ok ()"
    using meta(3) by (simp add: check_overrides_changed_def)
  ultimately have "append_record cd ident (expected + 1) meta (touched_keys changes) (lg_db lg) (lg\<lparr>lg_db := db\<rparr>) =
      Ok (\<lparr>ct_seq = ch_seq ?r', ct_revision = ch_revision ?r', ct_replayed = False\<rparr>, lg')"
    using append_record_Ok [of cd "lg\<lparr>lg_db := db\<rparr>", unfolded prev] seal by simp
  then show ?thesis using checks write_ok seq by (simp add: ledger_commit_def Let_def)
qed

end
