(* ===== verification/LedgerEdits.thy ===== *)
theory LedgerEdits
  imports LedgerProgress
begin

text \<open>
  Edit preconditions against the stored history: the version of a field is the last record that set
  it, every declared version can be looked up, and while no record sets a field its value is the
  same in every state of the schedule.
\<close>

section \<open>Looking versions up\<close>

lemma log_at:
  assumes "logged rows hist" "(r, body) \<in> set hist" "map (ch_seq \<circ> fst) hist = [0 ..< length hist]"
  obtains digest where "t_get rows (ch_seq r) = Some (log_row_of r body digest)"
proof -
  have "distinct (map fst rows)" using logged_keys [OF assms(1)] assms(3) by simp
  moreover have "\<exists>digest. (ch_seq r, log_row_of r body digest) \<in> set rows"
    using assms(1,2) unfolding logged_def by (induction rule: list_all2_induct) auto
  ultimately show thesis using that unfolding t_get_def by (metis map_of_eq_Some_iff)
qed

lemma fields_in:
  "lg_fields lg = indexed changed_fields ch_seq rs \<Longrightarrow>
   snd ` Set.filter (\<lambda>e. fst e = (t, f)) (lg_fields lg) = ch_seq ` {r \<in> set rs. (t, f) \<in> changed_fields r}"
proof (rule set_eqI)
  fix n assume "lg_fields lg = indexed changed_fields ch_seq rs"
  then have "n \<in> snd ` Set.filter (\<lambda>e. fst e = (t, f)) (lg_fields lg) \<longleftrightarrow>
      ((t, f), n) \<in> indexed changed_fields ch_seq rs" by (auto simp: image_iff)
  also have "\<dots> \<longleftrightarrow> (\<exists>r \<in> set rs. (t, f) \<in> changed_fields r \<and> n = ch_seq r)" by (auto simp: indexed_def)
  finally show "n \<in> snd ` Set.filter (\<lambda>e. fst e = (t, f)) (lg_fields lg) \<longleftrightarrow>
      n \<in> ch_seq ` {r \<in> set rs. (t, f) \<in> changed_fields r}" by auto
qed

lemma field_last_eq:
  assumes "holds cd lg hist ss"
  shows "field_last lg t f =
    (let rs = filter (\<lambda>r. (t, f) \<in> changed_fields r) (map fst hist) in if rs = [] then None else Some (ch_seq (last rs)))"
proof -
  let ?rs = "filter (\<lambda>r. (t, f) \<in> changed_fields r) (map fst hist)"
  have "sorted (map ch_seq (map fst hist))"
    using linked_seqs [of cd 0 genesis_prev_hash hist] assms by (simp add: holds_def)
  then have s: "sorted (map ch_seq ?rs)" by (simp add: sorted_filter)
  have "lg_fields lg = indexed changed_fields ch_seq (map fst hist)" using assms by (simp only: holds_def)
  note seqs_of = fields_in [OF this]
  have seqs: "snd ` Set.filter (\<lambda>e. fst e = (t, f)) (lg_fields lg) = ch_seq ` set ?rs"
    unfolding seqs_of by simp
  show ?thesis
  proof (cases ?rs rule: rev_cases)
    case Nil
    then show ?thesis unfolding field_last_def seqs Let_def by simp
  next
    case (snoc rs r)
    then have "ch_seq a \<le> ch_seq r" if "a \<in> set ?rs" for a
      using s that by (auto simp: sorted_append)
    then have "Max (ch_seq ` set ?rs) = ch_seq r" by (intro Max_eqI) (use snoc in auto)
    then show ?thesis using snoc unfolding field_last_def seqs Let_def by (simp del: set_filter)
  qed
qed

lemma field_status_holds:
  assumes "holds cd lg hist ss"
  shows "\<exists>st. field_status_of lg p = Ok st \<and>
    map_option (\<lambda>l. cr_seq (lc_change l)) (fn_last st) = field_last lg (pc_target p) (pc_field p) \<and>
    fn_target_exists st = (db_row (lg_db lg) (target_key (pc_target p)) \<noteq> None)"
proof (cases "field_last lg (pc_target p) (pc_field p)")
  case None
  then show ?thesis by (simp add: field_status_of_def)
next
  case (Some n)
  let ?rs = "filter (\<lambda>r. (pc_target p, pc_field p) \<in> changed_fields r) (map fst hist)"
  have rs: "?rs \<noteq> []" "n = ch_seq (last ?rs)"
    using Some field_last_eq [OF assms, of "pc_target p" "pc_field p"] by (auto simp: Let_def split: if_splits)
  then have "last ?rs \<in> set ?rs" by (intro last_in_set)
  then obtain r body where r: "(r, body) \<in> set hist" "n = ch_seq r" using rs(2) by auto
  have "map (ch_seq \<circ> fst) hist = [0 ..< length hist]"
    using linked_seqs [of cd 0 genesis_prev_hash hist] assms by (simp add: holds_def)
  then obtain digest where "t_get (lg_log lg) n = Some (log_row_of r body digest)"
    using log_at [OF _ r(1)] assms r(2) by (auto simp: holds_def)
  then have "\<exists>l. last_change_of lg n = Ok (Some l) \<and> cr_seq (lc_change l) = n"
    by (simp add: last_change_of_def log_row_of_def actor_round_trip)
  then show ?thesis using Some by (auto simp: field_status_of_def)
qed

text \<open>What the loop over the declared fields finds.\<close>

lemma stale_fields_grow: "stale_fields lg stale ps = Ok found \<Longrightarrow> \<exists>rest. found = stale @ rest"
  by (induction ps arbitrary: stale) (fastforce simp: res_bind_Ok_iff)+

lemma stale_fields_none:
  assumes "holds cd lg hist ss" "\<And>p. p \<in> set ps \<Longrightarrow> db_row (lg_db lg) (target_key (pc_target p)) \<noteq> None"
  shows "stale_fields lg [] ps = Ok [] \<longleftrightarrow> (\<forall>p \<in> set ps. field_last lg (pc_target p) (pc_field p) = pc_seen p)"
proof -
  have "stale_fields lg [] ps = Ok [] \<longleftrightarrow> (\<forall>p \<in> set ps. field_last lg (pc_target p) (pc_field p) = pc_seen p)"
    using assms(2)
  proof (induction ps)
    case (Cons p ps)
    obtain st where st: "field_status_of lg p = Ok st"
      "map_option (\<lambda>l. cr_seq (lc_change l)) (fn_last st) = field_last lg (pc_target p) (pc_field p)"
      "fn_target_exists st" using field_status_holds [OF assms(1), of p] Cons.prems [of p] by auto
    show ?case
    proof (cases "field_last lg (pc_target p) (pc_field p) = pc_seen p")
      case True
      then show ?thesis using Cons st by (simp add: check_field_def)
    next
      case False
      then have "stale_fields lg [] (p # ps) \<noteq> Ok []"
        using st stale_fields_grow [of lg "[_]" ps "[]"] by (auto simp: check_field_def)
      then show ?thesis using False by simp
    qed
  qed simp
  then show ?thesis .
qed

lemma stale_fields_exist:
  assumes "holds cd lg hist ss" "stale_fields lg stale ps = Ok []"
  shows "p \<in> set ps \<Longrightarrow> db_row (lg_db lg) (target_key (pc_target p)) \<noteq> None"
  using assms(2)
proof (induction ps arbitrary: stale)
  case (Cons q ps)
  obtain st where st: "field_status_of lg q = Ok st"
      "fn_target_exists st = (db_row (lg_db lg) (target_key (pc_target q)) \<noteq> None)"
    using field_status_holds [OF assms(1), of q] by auto
  obtain x where x: "check_field q st = Ok x" "stale_fields lg (stale @ (case x of None \<Rightarrow> [] | Some x \<Rightarrow> [x])) ps = Ok []"
    using Cons.prems(2) st(1) by (auto simp: res_bind_Ok_iff)
  then have "x = None" using stale_fields_grow [OF x(2)] by (cases x) auto
  then have "fn_target_exists st" using x(1) by (auto simp: check_field_def split: if_splits)
  then show ?case using Cons.IH [OF _ x(2)] Cons.prems(1) st(2) by auto
qed simp

section \<open>Fields no record sets\<close>

text \<open>The fields of a timing every record names that creates it; those of a run always count.\<close>

definition tracked :: "blame_target \<Rightarrow> str \<Rightarrow> bool" where
  "tracked t f \<longleftrightarrow> (\<forall>i. t = OnFixedRun i \<longrightarrow> f \<in> set fixed_field_names)"

lemma created_fixed:
  assumes "describes (ch_rows r) s s'" "s (KFixedRun i) = None" "s' (KFixedRun i) = Some (VFixedRun b)"
    "f \<in> set fixed_field_names"
  shows "(OnFixedRun i, f) \<in> changed_fields r"
proof -
  have "KFixedRun i \<in> rc_key ` set (ch_rows r)" using assms(1-3) unfolding describes_def by fastforce
  then obtain row where row: "row \<in> set (ch_rows r)" "rc_key row = KFixedRun i" by auto
  then have "rc_before row = None" "rc_after row = Some (VFixedRun b)"
    using assms(1-3) unfolding describes_def by force+
  then have "(OnFixedRun i, f) \<in> set (row_fields row)"
    using row(2) assms(4) by (simp add: fixed_row_blamed fixed_fields_def)
  then show ?thesis using row(1) by (auto simp: changed_fields_def)
qed

lemma unset_step:
  assumes "describes (ch_rows r) s s'" "rows_ok r" "state_keyed s" "state_keyed s'" "tracked t f"
    and "(t, f) \<notin> changed_fields r" "s' (target_key t) \<noteq> None" "\<And>i. t = OnRun i \<Longrightarrow> s (KRun i) \<noteq> None"
  shows "s (target_key t) \<noteq> None \<and> field_now s t f = field_now s' t f"
proof
  show present: "s (target_key t) \<noteq> None"
  proof (cases t)
    case (OnFixedRun i)
    then obtain b where "s' (KFixedRun i) = Some (VFixedRun b)" using assms(4,7) keyed_value(2) by force
    then show ?thesis using created_fixed [OF assms(1)] assms(5,6) OnFixedRun by (auto simp: tracked_def)
  qed (use assms(8) in simp)
  have "\<forall>row \<in> set (ch_rows r). rc_before row \<noteq> rc_after row" using assms(2) by (simp add: rows_ok_def)
  then show "field_now s t f = field_now s' t f"
    using set_fields [OF assms(1) _ assms(3,4) present assms(7), of f] assms(6) by blast
qed

lemma run_stays:
  assumes "describes (ch_rows r) s s'" "rows_ok r" "s (KRun i) \<noteq> None"
  shows "s' (KRun i) \<noteq> None"
proof (cases "KRun i \<in> rc_key ` set (ch_rows r)")
  case True
  then obtain row where "row \<in> set (ch_rows r)" "rc_key row = KRun i" by auto
  then show ?thesis using assms(1,2) unfolding describes_def rows_ok_def by metis
next
  case False
  then show ?thesis using assms(1,3) unfolding describes_def by metis
qed

lemma unset_path:
  assumes "path rs ss" "\<forall>s \<in> set ss. state_keyed s" "\<forall>r \<in> set rs. rows_ok r \<and> (t, f) \<notin> changed_fields r"
    and "tracked t f" "\<And>i. t = OnRun i \<Longrightarrow> hd ss (KRun i) \<noteq> None" "last ss (target_key t) \<noteq> None"
  shows "hd ss (target_key t) \<noteq> None \<and> field_now (hd ss) t f = field_now (last ss) t f"
  using assms(1-3,5,6)
proof (induction rs ss rule: path.induct)
  case (2 r rs s s' ss)
  have d: "describes (ch_rows r) s s'" "rows_ok r" "state_keyed s" "state_keyed s'" "(t, f) \<notin> changed_fields r"
    using 2 by auto
  have "s' (KRun i) \<noteq> None" if "t = OnRun i" for i using run_stays [OF d(1,2)] 2(5) that by simp
  then have "s' (target_key t) \<noteq> None \<and> field_now s' t f = field_now (last (s' # ss)) t f" using 2 by simp
  then show ?case using unset_step [OF d(1-4) assms(4) d(5)] 2(5) by simp
qed simp_all

end
