(* ===== verification/LedgerProperties.thy ===== *)
theory LedgerProperties
  imports LedgerEdits
begin

text \<open>
  What the stored history guarantees: it always verifies, it gives back every state the schedule went
  through, commits that pass their checks go through, a request is carried out once, and an edit
  whose preconditions were met overwrites nothing it had not seen.
\<close>

section \<open>A store with two commits\<close>

text \<open>A codec whose hash is injective: bytes in unary.\<close>

fun unary :: "str \<Rightarrow> nat list" where
  "unary [] = []"
| "unary (n # s) = replicate n 1 @ 0 # unary s"

definition unary_codec :: codec where
  "unary_codec = plain_codec\<lparr>cd_sha256 := unary\<rparr>"

lemma codec_ok_unary: "codec_ok unary_codec"
  using codec_ok_plain by (simp add: codec_ok_def unary_codec_def)

lemma unary_split:
  "replicate n (1 :: nat) @ 0 # xs = replicate m 1 @ 0 # ys \<Longrightarrow> n = m \<and> xs = ys"
proof (induction n arbitrary: m)
  case 0
  then show ?case by (cases m) auto
next
  case (Suc n)
  then show ?case by (cases m) auto
qed

lemma unary_inject: "unary s = unary s' \<Longrightarrow> s = s'"
proof (induction s arbitrary: s')
  case Nil
  then show ?case by (cases s') auto
next
  case (Cons n s)
  then obtain m s'' where s': "s' = m # s''" by (cases s') auto
  have "n = m \<and> unary s = unary s''"
    by (rule unary_split) (use Cons.prems s' in \<open>simp only: unary.simps\<close>)
  then show ?case using Cons.IH s' by simp
qed

lemma hex_bit: "x \<in> {0, 1} \<Longrightarrow> hex_fixed 2 x = [48, 48 + x]"
proof -
  have "hex_fixed 2 0 = [48, 48]" "hex_fixed 2 1 = [48, 49]" by code_simp+
  then show "x \<in> {0, 1} \<Longrightarrow> hex_fixed 2 x = [48, 48 + x]" by auto
qed

lemma hex_bits: "set xs \<subseteq> {0, 1} \<Longrightarrow> concat (map (hex_fixed 2) xs) = concat (map (\<lambda>x. [48, 48 + x]) xs)"
  by (induction xs) (simp_all only: list.map concat.simps hex_bit list.set insert_subset)

lemma pairs_inject: "concat (map (\<lambda>x. [48, 48 + x]) xs) = concat (map (\<lambda>x. [48, 48 + x :: nat]) ys) \<Longrightarrow> xs = ys"
proof (induction xs arbitrary: ys)
  case Nil
  then show ?case by (cases ys) simp_all
next
  case (Cons x xs)
  then obtain y ys' where "ys = y # ys'" by (cases ys) simp_all
  then show ?case using Cons by simp
qed

lemma unary_bits: "set (unary s) \<subseteq> {0, 1}"
  by (induction s) auto

lemma unary_hash: "sha256_hex unary_codec a = sha256_hex unary_codec b \<Longrightarrow> a = b"
proof -
  have hash: "cd_sha256 unary_codec = unary" by (simp add: unary_codec_def)
  assume "sha256_hex unary_codec a = sha256_hex unary_codec b"
  then have "concat (map (\<lambda>x. [48, 48 + x]) (unary a)) = concat (map (\<lambda>x. [48, 48 + x]) (unary b))"
    unfolding sha256_hex_def hash hex_bits [OF unary_bits] .
  then show "a = b" by (rule unary_inject [OF pairs_inject])
qed

lemma unary_no_second:
  assumes "holds unary_codec lg hist ss"
  shows "\<not> second_text unary_codec lg"
proof
  assume "second_text unary_codec lg"
  then obtain row body where row: "row \<in> set (t_values (lg_log lg))" "body \<noteq> lr_body row"
    "sha256_hex unary_codec body = lr_hash row" by (auto simp: second_text_def)
  have "logged (lg_log lg) hist" using assms by (simp only: holds_def)
  then obtain r b digest where r: "(r, b) \<in> set hist" "row = log_row_of r b digest" using row(1) by (rule log_parts)
  then have "sha256_hex unary_codec body = sha256_hex unary_codec b"
    using row(3) holds_in(5) [OF assms r(1)] by (simp add: log_row_of_def)
  then show False using unary_hash row(2) r(2) by (simp add: log_row_of_def)
qed

definition empty_db :: database where
  "empty_db = \<lparr>db_revision = 0, db_fixed = [], db_runs = [], db_reminders = [], db_rsvps = []\<rparr>"

lemma empty_db_sound: "db_sound empty_db" "references_ok empty_db"
proof -
  have "db_row empty_db k = None" for k by (cases k) (simp_all add: empty_db_def)
  then show "db_sound empty_db"
    by (simp add: db_sound_def db_storable_def)
      (simp add: db_ok_def empty_db_def i64_limit_def tbl.keyed_by_def)
qed (simp add: references_ok_def empty_db_def t_values_def)

text \<open>A weekly timing is added, its note is edited by a request that saw the first change of the note, and
  edited back by one that saw the first change of the day.\<close>

definition sample_meta :: "str \<Rightarrow> str option \<Rightarrow> change_meta" where
  "sample_meta request seen =
     \<lparr>cm_origin = \<lparr>og_actor = ActSystem (lit ''test''), og_surface = Import, og_request_id = Some request\<rparr>,
      cm_at = 0, cm_notices = [], cm_refs = [], cm_request_digest = Some (lit ''d''),
      cm_expect = \<lparr>ex_fields = (case seen of None \<Rightarrow> []
          | Some field \<Rightarrow> [\<lparr>pc_target = OnFixedRun (lit ''f1''), pc_field = field, pc_seen = Some 1\<rparr>]),
        ex_overrides = []\<rparr>, cm_outbox = []\<rparr>"

definition sample_db :: "nat \<Rightarrow> str option \<Rightarrow> database" where
  "sample_db revision note = empty_db\<lparr>db_revision := revision, db_fixed := [(lit ''f1'', sample_fixed\<lparr>f_note := note\<rparr>)]\<rparr>"

lemma sample_fixed_note: "sample_fixed\<lparr>f_note := None\<rparr> = sample_fixed"
  by (simp add: sample_fixed_def)

lemma sample_writes:
  "store_write (collapse [PutFixedRun sample_fixed]) empty_db = Ok (sample_db 1 None)"
  "store_write (collapse [PutFixedRun (sample_fixed\<lparr>f_note := Some (lit ''n'')\<rparr>)]) (sample_db 1 None) =
     Ok (sample_db 2 (Some (lit ''n'')))"
  "store_write (collapse [PutFixedRun (sample_fixed\<lparr>f_note := None\<rparr>)]) (sample_db 2 (Some (lit ''n''))) =
     Ok (sample_db 3 None)"
  by code_simp+

lemma sample_clocked: "clocked [PutFixedRun (sample_fixed\<lparr>f_note := note\<rparr>)]"
  by (simp add: clocked_def sample_fixed_def is_clock_def hours_def)

lemma sample_references: "references_ok (sample_db n note)"
  by (simp add: sample_db_def references_ok_def empty_db_def t_values_def)

lemma empty_year: "python_year (cm_at (sample_meta q seen))"
  by (simp add: sample_meta_def year_1970)

lemma sample_u64: "meta_u64 (sample_meta q seen)"
  by (simp add: sample_meta_def meta_u64_def)

text \<open>The store after it is opened on no rows, after the timing is added, and after its note is edited.\<close>

lemma sample_row: "db_row (sample_db n note) (KFixedRun (lit ''f1'')) = Some (VFixedRun (sample_fixed\<lparr>f_note := note\<rparr>))"
  by (simp add: sample_db_def empty_db_def t_get_def)

lemma sample_commit:
  assumes "holds unary_codec lg hist ss" "replayed lg (sample_meta q seen) = Ok None"
    "check_expect lg (sample_meta q seen) = Ok ()" "ident \<notin> lr_id ` set (t_values (lg_log lg))"
    and "store_write (collapse [PutFixedRun (sample_fixed\<lparr>f_note := note\<rparr>)]) (lg_db lg) = Ok (sample_db (n + 1) note)"
    and "db_revision (lg_db lg) = n" "n \<le> 2" "length hist \<le> 3"
  obtains lg' r body where
    "ledger_commit unary_codec ident n [PutFixedRun (sample_fixed\<lparr>f_note := note\<rparr>)] (sample_meta q seen) lg =
      Ok (Some \<lparr>ct_seq = length hist, ct_revision = n + 1, ct_replayed = False\<rparr>, lg')"
    "holds unary_codec lg' (hist @ [(r, body)]) (ss @ [db_row (sample_db (n + 1) note)])"
    "lg_db lg' = sample_db (n + 1) note" "ch_id r = ident" "ch_origin r = cm_origin (sample_meta q seen)"
    "lg_log lg' = lg_log lg @ [(length hist, log_row_of r body (Some (lit ''d'')))]"
    "ledger_step unary_codec lg lg'"
proof -
  let ?changes = "[PutFixedRun (sample_fixed\<lparr>f_note := note\<rparr>)]" and ?meta = "sample_meta q seen"
  have small: "length hist < i64_limit" "n + 1 < i64_limit" using assms(7,8) by (simp_all add: i64_limit_def)
  obtain lg' where lg': "ledger_commit unary_codec ident n ?changes ?meta lg =
      Ok (Some \<lparr>ct_seq = length hist, ct_revision = n + 1, ct_replayed = False\<rparr>, lg')"
    using commit_written [OF assms(1) codec_ok_unary assms(2,3,6) _ assms(5) sample_references sample_clocked sample_u64
        empty_year _ assms(4) small unary_no_second [OF assms(1)]] by (auto simp: sample_meta_def)
  show thesis
    using lg'
  proof (cases rule: ledger_commitE)
    case (new db c)
    have db: "db = sample_db (n + 1) note" using new(5) assms(5) by simp
    obtain r body where r: "holds unary_codec lg' (hist @ [(r, body)]) (ss @ [db_row db])" "lg_db lg' = db"
      "lg_log lg' = lg_log lg @ [(ch_seq r, log_row_of r body (cm_request_digest ?meta))]"
      "ch_seq r = length hist" "ch_origin r = cm_origin ?meta" "ch_id r = ident"
      using append_holds [OF assms(1) new(5) sample_clocked sample_u64 new(6)] by blast
    then show thesis
      using that [OF lg'] ledger_step.committing [OF lg' sample_clocked sample_u64] db by (simp add: sample_meta_def)
  qed (use assms(2) in \<open>auto simp: sample_meta_def\<close>)
qed

lemma no_request: "(\<And>row. row \<in> set (t_values (lg_log lg)) \<Longrightarrow> lr_request_id row \<noteq> og_request_id (cm_origin meta)) \<Longrightarrow>
    replayed lg meta = Ok None"
proof (cases "og_request_id (cm_origin meta)")
  case (Some q)
  assume other: "\<And>row. row \<in> set (t_values (lg_log lg)) \<Longrightarrow> lr_request_id row \<noteq> og_request_id (cm_origin meta)"
  have "recorded_request lg (og_actor (cm_origin meta)) q = None"
    using other Some by (force simp: recorded_request_def find_None_iff t_values_def)
  then show "replayed lg meta = Ok None" using Some by (simp add: replayed_def)
qed (simp add: replayed_def)

lemma head_of:
  assumes "holds cd lg hist ss"
  shows "head_ref lg = Ok (record_reference (fst (last hist)))"
    "log_head lg = Some (last (lg_log lg))" "fst (last (lg_log lg)) = ch_seq (fst (last hist))"
    "lr_hash (snd (last (lg_log lg))) = ch_hash (fst (last hist))"
proof -
  have "hist \<noteq> []" "logged (lg_log lg) hist" using assms unfolding holds_def by blast+
  note h = log_head_of [OF this(2,1)]
  then show "log_head lg = Some (last (lg_log lg))" "fst (last (lg_log lg)) = ch_seq (fst (last hist))"
    "lr_hash (snd (last (lg_log lg))) = ch_hash (fst (last hist))" by (simp_all add: log_head_def)
  then show "head_ref lg = Ok (record_reference (fst (last hist)))"
    by (simp add: head_ref_def record_reference_def case_prod_beta)
qed

lemma reached_steps: "reached cd db lg \<Longrightarrow> ledger_steps cd lg lg' \<Longrightarrow> reached cd db lg'"
  unfolding reached_def by (meson rtranclp_trans)

lemma reached_later:
  assumes "reached cd db lg" "db_sound db" "ledger_steps cd lg lg'"
  obtains hist ss added ss' where "holds cd lg hist ss" "checkpoints_ok lg" "holds cd lg' (hist @ added) (ss @ ss')"
    "checkpoints_ok lg'" "\<exists>rows. lg_log lg' = lg_log lg @ rows"
proof -
  obtain hist ss where h: "holds cd lg hist ss" "checkpoints_ok lg" using assms(1,2) by (rule reached_holds)
  then show thesis using steps_hold [OF assms(3) h] that by blast
qed

section \<open>The history always verifies\<close>

text \<open>C5. However a store got to where it is - opened on sound tables, then any commits and
  checkpoints, accepted or refused - re-checking its whole history finds it intact: every row of the
  log reads back as the record it is, at consecutive positions, linked by hashes, with its indexed
  weeks and fields and every checkpoint in agreement; and the reported head is the store's head.\<close>

theorem history_always_verifies:
  assumes "codec_ok cd" "db_sound db" "reached cd db lg"
  shows "is_intact (verify_history cd lg) \<and> hv_records (verify_history cd lg) = length (lg_log lg) \<and>
    (\<exists>head. head_ref lg = Ok head \<and> hv_head (verify_history cd lg) = Some head)"
proof -
  obtain hist ss where h: "holds cd lg hist ss" "checkpoints_ok lg" using assms(3,2) by (rule reached_holds)
  have hist: "hist \<noteq> []" "logged (lg_log lg) hist" "linked cd 0 genesis_prev_hash hist"
    using h(1) unfolding holds_def by blast+
  then have "length (lg_log lg) = length hist" by (simp add: logged_def list_all2_lengthD)
  then show ?thesis
    using holds_verifies [OF assms(1) h] verify_chain_result [OF hist(3)] head_of(1) [OF h(1)] hist(1)
    by (simp add: last_head_def)
qed

section \<open>Earlier states come back\<close>

lemma load_state:
  assumes "db_ok db" "references_ok db"
  shows "state_of (load_scope unproven ScopeAll db) = db_row db"
proof -
  let ?t = "\<lparr>rt_fixed = db_fixed db, rt_runs = db_runs db, rt_reminders = db_reminders db, rt_rsvps = db_rsvps db\<rparr>"
  have ids: "contains (t_keys (db_runs db)) i \<longleftrightarrow> t_has (db_runs db) i" for i
    using map_of_eq_None_iff [of "db_runs db" i] by (auto simp: t_keys_def t_has_def t_get_def)
  have "t_has (db_runs db) (r_id run)" if "run \<in> set (t_values (db_runs db))" for run
  proof -
    note run = that
    have "t_ok (db_runs db)" using assms(1) by (simp add: db_ok_def)
    then obtain k where "t_get (db_runs db) k = Some run" using run in_t_values by metis
    moreover from this have "r_id run = k" using assms(1) by (auto simp: db_ok_def tbl.keyed_by_def)
    ultimately show ?thesis by (simp add: t_has_def)
  qed
  then have all: "filter (\<lambda>run. contains (t_keys (db_runs db)) (r_id run)) (t_values (db_runs db)) = t_values (db_runs db)"
    "filter (\<lambda>row. contains (t_keys (db_runs db)) (m_run_id row)) (t_values (db_reminders db)) = t_values (db_reminders db)"
    "filter (\<lambda>row. contains (t_keys (db_runs db)) (a_run_id row)) (t_values (db_rsvps db)) = t_values (db_rsvps db)"
    using assms(2) unfolding ids references_ok_def by (simp_all add: list_all_iff filter_id_conv)
  have "tables_wf ?t" using assms(1) by (simp add: tables_wf_def db_ok_def)
  then have "tables_of (load_scope unproven ScopeAll db) = ?t"
    using tables_of_values [of ?t]
    by (simp only: load_scope_def scoped_run_ids_def all scope.case Let_def row_tables.select_convs)
  moreover have "row_at ?t k = db_row db k" for k by (cases k) simp_all
  ultimately show ?thesis by (auto simp: state_of_def)
qed

lemma later_keys:
  assumes "holds cd lg hist ss" "r \<in> fst ` set hist" "row \<in> set (ch_rows r)" "rc_before row = Some v"
  shows "value_key v = rc_key row"
proof -
  obtain body where "(r, body) \<in> set hist" using assms(2) by auto
  then have "record_storable r" using holds_in(1) [OF assms(1)] by blast
  then show ?thesis using assms(3,4) by (auto simp: record_storable_def row_storable_def)
qed

lemma records_after_logged:
  assumes "codec_ok cd" "holds cd lg (hist @ later) ss" "hist \<noteq> []"
  shows "records_after cd (record_reference (fst (last hist))) lg = Ok (map fst later)"
proof -
  have h: "logged (lg_log lg) (hist @ later)" "linked cd 0 genesis_prev_hash (hist @ later)"
    using assms(2) unfolding holds_def by blast+
  have n: "ch_seq (fst (last hist)) = length hist - 1"
    using h(2) linked_last [of cd genesis_prev_hash hist] assms(3) by (simp add: linked_append)
  obtain r body where rb: "last hist = (r, body)" by (cases "last hist")
  then have "(r, body) \<in> set (hist @ later)" using last_in_set [OF assms(3)] by simp
  then have "ch_seq r < i64_limit" by (rule holds_in(3) [OF assms(2)])
  then have small: "\<not> cr_seq (record_reference (fst (last hist))) \<ge> i64_limit"
    using rb by (simp add: record_reference_def)
  have "read_records cd (filter (\<lambda>(n, _). n > length hist - 1) (lg_log lg)) = Ok (map fst later)"
  proof (rule read_logged [OF assms(1)])
    show "logged (filter (\<lambda>(n, _). n > length hist - 1) (lg_log lg)) later" using logged_after h assms(3) by blast
    show "\<forall>(r, body) \<in> set later. record_storable r \<and> record_canonical cd r = Ok body"
      using holds_in(1,4) [OF assms(2)] by auto
  qed
  then show ?thesis using small n by (simp add: records_after_def record_reference_def)
qed

lemma rewind_logged:
  assumes "codec_ok cd" "holds cd lg0 hist ss" "holds cd lg1 (hist @ mid) (ss @ ss1)"
    "holds cd lg2 ((hist @ mid) @ later) ((ss @ ss1) @ ss2)" "state_of cur = db_row (lg_db lg1)"
  shows "\<exists>old. rewind cd cur (record_reference (fst (last hist))) (record_reference (fst (last (hist @ mid))))
      (map fst (mid @ later)) = Ok old \<and> state_of old = db_row (lg_db lg0)"
proof -
  have hist: "hist \<noteq> []" "path (map fst (tl hist)) ss" "last ss = db_row (lg_db lg0)"
    using assms(2) unfolding holds_def by blast+
  have mid: "last (ss @ ss1) = db_row (lg_db lg1)" using assms(3) unfolding holds_def by blast
  have all: "linked cd 0 genesis_prev_hash (hist @ mid @ later)" "path (map fst (tl (hist @ mid @ later))) (ss @ ss1 @ ss2)"
    using assms(4) unfolding holds_def append.assoc by blast+
  let ?rs = "map fst (mid @ later)" and ?base = "record_reference (fst (last hist))"
    and ?head = "record_reference (fst (last (hist @ mid)))"
  have n: "ch_seq (fst (last hist)) = length hist - 1"
    using all(1) linked_last [of cd genesis_prev_hash hist] hist(1) by (simp add: linked_append)
  have "linked cd (length hist - 1 + 1) (ch_hash (fst (last hist))) (mid @ later)"
    using all(1) hist(1) by (simp add: linked_append)
  note link = this
  then have "chained cd (length hist - 1) (ch_hash (fst (last hist))) ?rs" by (rule linked_chained)
  then have ch: "chained cd (cr_seq ?base) (cr_hash ?base) ?rs"
    by (simp only: record_reference_def change_ref.select_convs n)
  have sorted: "sort_key ch_seq ?rs = ?rs"
  proof -
    have "map ch_seq ?rs = [length hist ..< length hist + length (mid @ later)]"
      using linked_seqs [OF link] hist(1) by (cases hist) (simp_all add: comp_def)
    then have "sorted (map ch_seq ?rs)" by (metis sorted_upt)
    then show ?thesis by (rule sort_key_id_if_sorted)
  qed
  have head_in: "?head = ?base \<or> (\<exists>r \<in> set ?rs. record_reference r = ?head)"
  proof (cases "mid = []")
    case False
    then have "fst (last (hist @ mid)) \<in> set (map fst mid)" by simp
    then show ?thesis by auto
  qed simp
  have same: "ch_hash r = cr_hash ?head" if "r \<in> set ?rs" "ch_seq r = cr_seq ?head" for r
  proof -
    have "last (hist @ mid) \<in> set (hist @ mid)" using hist(1) by (intro last_in_set) simp
    then have "fst (last (hist @ mid)) \<in> fst ` set ((hist @ mid) @ later)" unfolding set_append by blast
    moreover have "r \<in> fst ` set ((hist @ mid) @ later)" using that(1) by auto
    ultimately have "r = fst (last (hist @ mid))"
      using seq_inj [OF assms(4)] that(2) by (simp add: record_reference_def)
    then show ?thesis by (simp add: record_reference_def)
  qed
  have "check_links cd ?head (cr_seq ?base) (cr_hash ?base) (?head = ?base) ?rs =
      Ok (cr_seq ?base + length ?rs, True)"
    unfolding check_links_Ok using ch same head_in reference_iff by blast
  then have "check_records_after cd ?base ?head ?rs = Ok ()" by (simp only: check_records_after_def sorted res_bind_simps prod.case if_True)
  then obtain old where old: "rewind cd cur ?base ?head ?rs = Ok old" by (auto simp: rewind_def Let_def)
  have "path ?rs (last ss # ss1 @ ss2)"
    using path_append [of "map fst (tl hist)" ?rs ss "ss1 @ ss2"] all(2) hist(1,2) by simp
  then have p: "path (sort_key ch_seq ?rs) (last ss # ss1 @ ss2)" unfolding sorted .
  have cur: "state_of cur \<in> set (last ss # ss1 @ ss2)"
  proof (cases "ss1 = []")
    case True
    then show ?thesis using assms(5) mid by simp
  next
    case False
    then have "last (ss @ ss1) \<in> set ss1" by simp
    then show ?thesis using assms(5) mid by simp
  qed
  have "\<forall>r \<in> set ?rs. \<forall>row \<in> set (ch_rows r). \<forall>v. rc_before row = Some v \<longrightarrow> value_key v = rc_key row"
  proof (intro ballI allI impI)
    fix r row v assume r: "r \<in> set ?rs" "row \<in> set (ch_rows r)" "rc_before row = Some v"
    then have "r \<in> fst ` set ((hist @ mid) @ later)" by auto
    then show "value_key v = rc_key row" using r(2,3) by (rule later_keys [OF assms(4)])
  qed
  then have "state_of old = last ss" using rewind_goes_back(1) [OF old p cur] by simp
  then show ?thesis using old hist(3) by auto
qed


section \<open>Commits\<close>


text \<open>C11. A request is carried out once: after its commit, the same actor's same request changes nothing
  whatever it now asks and whatever was committed since; it returns the first outcome when its
  digest is the same and is refused otherwise.\<close>

theorem requests_carried_out_once:
  assumes "db_sound db" "reached cd db lg" "clocked changes" "meta_u64 meta"
    and "ledger_commit cd ident expected changes meta lg = Ok (Some c, lg1)" "\<not> ct_replayed c"
    and "ledger_steps cd lg1 lg2"
    and "og_request_id (cm_origin meta) = Some q" "og_request_id (cm_origin again) = Some q"
    and "og_actor (cm_origin again) = og_actor (cm_origin meta)"
  shows "ledger_commit cd ident' expected' changes' again lg2 =
    (if cm_request_digest again = cm_request_digest meta then Ok (Some (c\<lparr>ct_replayed := True\<rparr>), lg2)
     else Err (CfMismatch (ct_seq c)))"
proof -
  obtain hist ss where h: "holds cd lg hist ss" using assms(2,1) by (rule reached_holds)
  have "reached cd db lg1"
    using reached_steps [OF assms(2)] ledger_step.committing [OF assms(5,3,4)] by blast
  then obtain rows where later: "lg_log lg2 = lg_log lg1 @ rows" using assms(1,7) by (rule reached_later) blast
  have once: "ct_replayed e" if "replayed lg meta = Ok (Some e)" for e
    using that by (auto simp: replayed_def recorded_request_def split: option.splits if_splits)
  show ?thesis
    using assms(5)
  proof (cases rule: ledger_commitE)
    case (new db' c')
    obtain r body where r: "lg_log lg1 = lg_log lg @ [(ch_seq r, log_row_of r body (cm_request_digest meta))]"
      "c = \<lparr>ct_seq = ch_seq r, ct_revision = ch_revision r, ct_replayed = False\<rparr>" "ch_origin r = cm_origin meta"
      using append_holds [OF h new(5) assms(3,4) new(6)] new(8) by (metis option.inject)
    let ?p = "\<lambda>(n :: nat, row). lr_actor_kind row = actor_kind (og_actor (cm_origin meta)) \<and>
      lr_actor_id row = actor_id (og_actor (cm_origin meta)) \<and> lr_request_id row = Some q"
    have "find ?p (lg_log lg) = None"
      using new(1) assms(8) by (auto simp: replayed_def recorded_request_def split: option.splits if_splits)
    moreover have "?p (ch_seq r, log_row_of r body (cm_request_digest meta))"
      using r(3) assms(8) by (simp add: log_row_of_def)
    ultimately have "find ?p (lg_log lg2) = Some (ch_seq r, log_row_of r body (cm_request_digest meta))"
      unfolding later r(1) by (simp add: find_append)
    then show ?thesis
      using assms(9,10) r(2) by (simp add: ledger_commit_def replayed_def recorded_request_def log_row_of_def)
  qed (use once assms(6) in auto)
qed

lemma later_unset:
  assumes "holds cd lg1 hist ss" "holds cd lg2 (hist @ later) ss2" "field_last lg2 t f = field_last lg1 t f"
    and "r \<in> fst ` set later"
  shows "(t, f) \<notin> changed_fields r"
proof
  assume "(t, f) \<in> changed_fields r"
  then have some: "filter (\<lambda>r. (t, f) \<in> changed_fields r) (map fst later) \<noteq> []"
    using assms(4) by (auto simp: filter_empty_conv)
  let ?l = "last (filter (\<lambda>r. (t, f) \<in> changed_fields r) (map fst later))"
    and ?old = "filter (\<lambda>r. (t, f) \<in> changed_fields r) (map fst hist)"
  have hist: "hist \<noteq> []" "linked cd 0 genesis_prev_hash (hist @ later)" using assms(1,2) unfolding holds_def by blast+
  have last2: "field_last lg2 t f = Some (ch_seq ?l)"
    using some by (simp add: field_last_eq [OF assms(2)] Let_def)
  then have old: "?old \<noteq> []" "ch_seq ?l = ch_seq (last ?old)"
    using assms(3) field_last_eq [OF assms(1), of t f] by (auto simp: Let_def split: if_splits)
  have l: "linked cd (length hist) (ch_hash (fst (last hist))) later" "linked cd 0 genesis_prev_hash hist"
    using hist by (simp_all add: linked_append)
  have "?l \<in> set (map fst later)" using last_in_set [OF some] by simp
  then have "ch_seq ?l \<in> set (map (ch_seq \<circ> fst) later)" by (metis image_eqI list.map_comp list.set_map)
  then have "ch_seq ?l \<ge> length hist" unfolding linked_seqs [OF l(1)] by simp
  moreover have "last ?old \<in> set (map fst hist)" using last_in_set [OF old(1)] by simp
  then have "ch_seq (last ?old) \<in> set (map (ch_seq \<circ> fst) hist)" by (metis image_eqI list.map_comp list.set_map)
  then have "ch_seq (last ?old) < length hist" unfolding linked_seqs [OF l(2)] by simp
  ultimately show False using old(2) by simp
qed


section \<open>The sample store\<close>

lemma sample_expect:
  assumes "holds unary_codec lg hist ss" "field_last lg (OnFixedRun (lit ''f1'')) f = Some 1"
    "lg_db lg = sample_db n note" "f \<in> set fixed_field_names"
  shows "check_expect lg (sample_meta q (Some f)) = Ok ()"
proof -
  let ?p = "\<lparr>pc_target = OnFixedRun (lit ''f1''), pc_field = f, pc_seen = Some 1\<rparr>"
  have "validate_fields [?p] = Ok ()" using assms(4) by (simp add: validate_fields_def known_field_def)
  moreover have "stale_fields lg [] [?p] = Ok []"
    using stale_fields_none [OF assms(1), of "[?p]"] assms(2,3) sample_row by simp
  ultimately show ?thesis by (simp add: check_expect_def sample_meta_def check_override_actor_def)
qed

abbreviation edit_note :: "str \<Rightarrow> nat \<Rightarrow> str option \<Rightarrow> str \<Rightarrow> str option \<Rightarrow> ledger \<Rightarrow> commit_failure + committed option \<times> ledger" where
  "edit_note ident n note q seen \<equiv>
     ledger_commit unary_codec ident n [PutFixedRun (sample_fixed\<lparr>f_note := note\<rparr>)] (sample_meta q seen)"

abbreviation first_time :: "nat \<Rightarrow> committed" where
  "first_time n \<equiv> \<lparr>ct_seq = n, ct_revision = n, ct_replayed = False\<rparr>"

text \<open>The sample store at the start and after each of its three commits.\<close>

definition sample_stores :: "ledger \<Rightarrow> ledger \<Rightarrow> ledger \<Rightarrow> ledger \<Rightarrow> bool" where
  "sample_stores lg0 lg1 lg2 lg3 \<longleftrightarrow>
     reached unary_codec empty_db lg0 \<and> ledger_step unary_codec lg0 lg1 \<and> ledger_step unary_codec lg1 lg2 \<and>
     lg_db lg0 = empty_db \<and> lg_db lg1 = sample_db 1 None \<and> lg_db lg2 = sample_db 2 (Some (lit ''n'')) \<and>
     edit_note (lit ''c1'') 0 None (lit ''q1'') None lg0 = Ok (Some (first_time 1), lg1) \<and>
     edit_note (lit ''c2'') 1 (Some (lit ''n'')) (lit ''q2'') (Some (lit ''note'')) lg1 = Ok (Some (first_time 2), lg2) \<and>
     edit_note (lit ''c3'') 2 None (lit ''q3'') (Some (lit ''day'')) lg2 = Ok (Some (first_time 3), lg3) \<and>
     field_last lg1 (OnFixedRun (lit ''f1'')) (lit ''day'') = Some 1 \<and>
     replayed lg1 (sample_meta (lit ''q2'') (Some (lit ''note''))) = Ok None \<and>
     check_expect lg1 (sample_meta (lit ''q2'') (Some (lit ''note''))) = Ok () \<and>
     lit ''c2'' \<notin> lr_id ` set (t_values (lg_log lg1)) \<and> length (lg_log lg1) = 2"

lemma holds_parts:
  assumes "holds cd lg hist ss"
  shows "path (map fst (tl hist)) ss" "\<forall>s \<in> set ss. state_keyed s" "map (ch_seq \<circ> fst) hist = [0 ..< length hist]"
    "\<forall>r \<in> fst ` set hist. rows_ok r"
  using assms linked_seqs [of cd 0 genesis_prev_hash hist] by (auto simp: holds_def)

lemma sample_history: "\<exists>lg0 lg1 lg2 lg3. sample_stores lg0 lg1 lg2 lg3"
proof -
  let ?t = "OnFixedRun (lit ''f1'')" and ?m2 = "sample_meta (lit ''q2'') (Some (lit ''note''))"
    and ?m3 = "sample_meta (lit ''q3'') (Some (lit ''day''))"
  have rev: "db_revision empty_db < i64_limit" by (simp add: empty_db_def i64_limit_def)
  obtain lg0 where lg0: "ensure_genesis unary_codec (unrecorded empty_db) = Ok lg0"
    using ensure_genesis_holds(1) [OF rev] by blast
  have ok: "db_ok empty_db" "db_storable empty_db" using empty_db_sound(1) by (simp_all add: db_sound_def)
  obtain g b where g: "record_genesis unary_codec (db_revision empty_db) = Ok g"
    "holds unary_codec lg0 [(g, b)] [db_row empty_db]" "lg_db lg0 = empty_db"
    using ensure_genesis_holds(2) [OF rev lg0 ok] by blast
  have gp: "ch_id g = lit ''genesis''" "og_request_id (ch_origin g) = None"
    using g(1) by (auto elim!: genesis_parts simp: origin_new_def)
  have "logged (lg_log lg0) [(g, b)]" using g(2) by (simp only: holds_def)
  then obtain d where log0: "lg_log lg0 = [(ch_seq g, log_row_of g b d)]" by (auto simp: logged_def list_all2_Cons2)
  note facts = t_values_def log_row_of_def gp sample_meta_def
  obtain lg1 r1 b1 where 1: "edit_note (lit ''c1'') 0 None (lit ''q1'') None lg0 =
      Ok (Some \<lparr>ct_seq = length [(g, b)], ct_revision = 0 + 1, ct_replayed = False\<rparr>, lg1)"
    "holds unary_codec lg1 ([(g, b)] @ [(r1, b1)]) ([db_row empty_db] @ [db_row (sample_db (0 + 1) None)])"
    "lg_db lg1 = sample_db (0 + 1) None" "ch_id r1 = lit ''c1''" "ch_origin r1 = cm_origin (sample_meta (lit ''q1'') None)"
    "lg_log lg1 = lg_log lg0 @ [(length [(g, b)], log_row_of r1 b1 (Some (lit ''d'')))]" "ledger_step unary_codec lg0 lg1"
  proof (rule sample_commit [OF g(2), of "lit ''q1''" None "lit ''c1''" None 0])
    show "replayed lg0 (sample_meta (lit ''q1'') None) = Ok None" by (rule no_request) (simp add: log0 facts)
    show "check_expect lg0 (sample_meta (lit ''q1'') None) = Ok ()"
      by (simp add: check_expect_def sample_meta_def validate_fields_def check_override_actor_def)
    show "store_write (collapse [PutFixedRun (sample_fixed\<lparr>f_note := None\<rparr>)]) (lg_db lg0) = Ok (sample_db (0 + 1) None)"
      using sample_writes(1) g(3) by (simp add: sample_fixed_note)
  qed (use g(3) in \<open>simp_all add: log0 facts empty_db_def\<close>)
  have d1: "describes (ch_rows r1) (db_row empty_db) (db_row (sample_db 1 None))"
    using holds_parts(1) [OF 1(2)] by simp
  have set1: "(?t, f) \<in> changed_fields r1" if "f \<in> set fixed_field_names" for f
    by (rule created_fixed [OF d1 _ sample_row that]) (simp add: empty_db_def)
  have seq1: "ch_seq r1 = 1" using holds_parts(3) [OF 1(2)] by (simp add: upt_rec)
  have last1: "field_last lg1 ?t f = Some 1" if "f \<in> set fixed_field_names" for f
    using field_last_eq [OF 1(2), of ?t f] set1 [OF that] seq1 by simp
  have req1: "replayed lg1 ?m2 = Ok None" by (rule no_request) (auto simp: 1(5,6) log0 facts)
  have names: "lit ''note'' \<in> set fixed_field_names" "lit ''day'' \<in> set fixed_field_names" by (simp_all add: fixed_field_names_def)
  have ex1: "check_expect lg1 ?m2 = Ok ()" by (rule sample_expect [OF 1(2) last1 [OF names(1)] 1(3) names(1)])
  have id1: "lit ''c2'' \<notin> lr_id ` set (t_values (lg_log lg1))" by (simp add: 1(4,6) log0 facts)
  obtain lg2 r2 b2 where 2: "edit_note (lit ''c2'') 1 (Some (lit ''n'')) (lit ''q2'') (Some (lit ''note'')) lg1 =
      Ok (Some \<lparr>ct_seq = length ([(g, b)] @ [(r1, b1)]), ct_revision = 1 + 1, ct_replayed = False\<rparr>, lg2)"
    "holds unary_codec lg2 (([(g, b)] @ [(r1, b1)]) @ [(r2, b2)])
       (([db_row empty_db] @ [db_row (sample_db (0 + 1) None)]) @ [db_row (sample_db (1 + 1) (Some (lit ''n'')))])"
    "lg_db lg2 = sample_db (1 + 1) (Some (lit ''n''))" "ch_id r2 = lit ''c2''" "ch_origin r2 = cm_origin ?m2"
    "lg_log lg2 = lg_log lg1 @ [(length ([(g, b)] @ [(r1, b1)]), log_row_of r2 b2 (Some (lit ''d'')))]" "ledger_step unary_codec lg1 lg2"
    by (rule sample_commit [OF 1(2) req1 ex1 id1, of "Some (lit ''n'')" 1])
      (use 1(3) sample_writes(2) in \<open>simp_all add: sample_db_def empty_db_def numeral_2_eq_2\<close>)
  have step2: "describes (ch_rows r2) (db_row (sample_db 1 None)) (db_row (sample_db 2 (Some (lit ''n''))))" "rows_ok r2"
    "state_keyed (db_row (sample_db 1 None))" "state_keyed (db_row (sample_db 2 (Some (lit ''n''))))"
    using holds_parts [OF 2(2)] by (simp_all add: numeral_2_eq_2)
  have "(?t, lit ''day'') \<notin> changed_fields r2"
    using set_fields [OF step2(1) _ step2(3,4), of ?t "lit ''day''"] step2(2) sample_row
    by (simp add: rows_ok_def fixed_field_now_def)
  then have last2: "field_last lg2 ?t (lit ''day'') = Some 1"
    using field_last_eq [OF 2(2), of ?t "lit ''day''"] set1 [OF names(2)] seq1 by simp
  have req2: "replayed lg2 ?m3 = Ok None" by (rule no_request) (auto simp: 1(5,6) 2(5,6) log0 facts)
  have id2: "lit ''c3'' \<notin> lr_id ` set (t_values (lg_log lg2))" by (simp add: 1(4,6) 2(4,6) log0 facts)
  obtain lg3 where 3: "edit_note (lit ''c3'') 2 None (lit ''q3'') (Some (lit ''day'')) lg2 =
      Ok (Some \<lparr>ct_seq = length (([(g, b)] @ [(r1, b1)]) @ [(r2, b2)]), ct_revision = 2 + 1, ct_replayed = False\<rparr>, lg3)"
    by (rule sample_commit [OF 2(2) req2 sample_expect [OF 2(2) last2 2(3) names(2)] id2, of None 2])
      (use 2(3) sample_writes(3) in \<open>simp_all add: sample_db_def empty_db_def numeral_2_eq_2\<close>)
  have "reached unary_codec empty_db lg0" using lg0 by (auto simp: reached_def)
  then have "sample_stores lg0 lg1 lg2 lg3"
    unfolding sample_stores_def
    using 1(1,3,7) 2(1,3,7) 3 g(3) last1 [OF names(2)] req1 ex1 id1
    by (simp add: numeral_2_eq_2 numeral_3_eq_3 1(6) log0)
  then show ?thesis by blast
qed

theorem history_always_verifies_witness:
  "\<exists>lg. reached unary_codec empty_db lg \<and> lg_db lg = sample_db 2 (Some (lit ''n'')) \<and>
     is_intact (verify_history unary_codec lg)"
proof -
  obtain lg0 lg1 lg2 lg3 where s: "sample_stores lg0 lg1 lg2 lg3" using sample_history by blast
  then have r: "reached unary_codec empty_db lg2"
    unfolding sample_stores_def by (meson reached_steps rtranclp.rtrancl_into_rtrancl rtranclp.rtrancl_refl)
  have "lg_db lg2 = sample_db 2 (Some (lit ''n''))" using s by (simp add: sample_stores_def)
  then show ?thesis using history_always_verifies [OF codec_ok_unary empty_db_sound(1) r] r by blast
qed



theorem requests_carried_out_once_witness:
  "\<exists>lg1 lg2. reached unary_codec empty_db lg1 \<and> ledger_step unary_codec lg1 lg2 \<and>
     ledger_commit unary_codec (lit ''c9'') 7 [] (sample_meta (lit ''q1'') None) lg2 =
       Ok (Some ((first_time 1)\<lparr>ct_replayed := True\<rparr>), lg2)"
proof -
  let ?m1 = "sample_meta (lit ''q1'') None"
  obtain lg0 lg1 lg2 lg3 where "sample_stores lg0 lg1 lg2 lg3" using sample_history by blast
  then have s: "reached unary_codec empty_db lg0" "ledger_steps unary_codec lg0 lg1" "ledger_step unary_codec lg1 lg2"
    "edit_note (lit ''c1'') 0 None (lit ''q1'') None lg0 = Ok (Some (first_time 1), lg1)" "ledger_steps unary_codec lg1 lg2"
    by (auto simp: sample_stores_def)
  have q: "\<not> ct_replayed (first_time 1)" "og_request_id (cm_origin ?m1) = Some (lit ''q1'')" by (simp_all add: sample_meta_def)
  have "ledger_commit unary_codec (lit ''c9'') 7 [] ?m1 lg2 = Ok (Some ((first_time 1)\<lparr>ct_replayed := True\<rparr>), lg2)"
    using requests_carried_out_once [OF empty_db_sound(1) s(1) sample_clocked sample_u64 s(4) q(1) s(5) q(2) q(2) refl,
        of "lit ''c9''" 7 "[]"] by simp
  moreover have "reached unary_codec empty_db lg1" by (rule reached_steps [OF s(1,2)])
  ultimately show ?thesis using s(3) by blast
qed


end
