(* ===== verification/WeekProperties.thy ===== *)
theory WeekProperties
  imports Completion
begin

text \<open>
  The properties of local time and of boss weeks: converting an instant loses nothing, boss weeks
  partition local time, a timing's slot lies in its week, and clock times read back as they are
  printed.
\<close>

section \<open>A zone that falls back\<close>

text \<open>Clocks go back one hour at instant 0: the local hour after midnight happens twice.\<close>

definition fall_back_zone :: tz where
  "fall_back_zone =
     \<lparr>tz_name = lit ''Test/FallBack'',
      tz_from_utc = \<lambda>i. if i < 0 then 3600 else 0,
      tz_from_local = \<lambda>w. if w < 0 then Single 3600 else if w < hours 1 then Ambiguous 3600 0
                            else Single 0\<rparr>"

lemma fall_back_coherent: "tz_coherent fall_back_zone"
  by (auto simp: tz_coherent_def fall_back_zone_def seconds_def hours_def)

section \<open>Instants and wall clocks\<close>

text \<open>C32. Converting an instant to a zone and back gives the instant, also in the hour that happens
  twice when clocks go back, and two instants with the same wall clock and fold are the same:
  the fold is all that is needed to tell the two passes apart.\<close>

theorem zoned_conversion_loses_nothing:
  assumes "tz_coherent z" "from_instant i z = Ok zd"
  shows "to_fixed zd = i \<and> zd_wall zd = i + seconds (tz_from_utc z i) \<and>
    (\<forall>j. from_instant j z = Ok zd \<longrightarrow> j = i) \<and>
    (\<forall>y. same_zone z y \<longrightarrow> astimezone (AtZoned zd) y = Ok zd)"
proof -
  have zone: "zd_zone zd = z" and wall: "zd_wall zd = i + seconds (tz_from_utc z i)"
    using from_instant_Ok(1,2) [OF assms(2)] by blast+
  moreover have "to_fixed zd = i" using assms by (rule from_instant_roundtrip)
  moreover have "j = i" if "from_instant j z = Ok zd" for j
    using from_instant_roundtrip [OF assms(1) that] from_instant_roundtrip [OF assms] by simp
  ultimately show ?thesis by (simp add: zoned_astimezone_def)
qed

theorem zoned_conversion_loses_nothing_witness:
  "\<exists>a b. from_instant (- minutes 30) fall_back_zone = Ok a \<and> from_instant (minutes 30) fall_back_zone = Ok b \<and>
     zd_wall a = zd_wall b \<and> zd_fold a \<noteq> zd_fold b \<and> to_fixed a = - minutes 30 \<and> to_fixed b = minutes 30"
proof -
  have "is_ok_and (\<lambda>a. is_ok_and (\<lambda>b. zd_wall a = zd_wall b \<and> zd_fold a \<noteq> zd_fold b)
      (from_instant (minutes 30) fall_back_zone)) (from_instant (- minutes 30) fall_back_zone)"
    by code_simp
  then obtain a b where ab: "from_instant (- minutes 30) fall_back_zone = Ok a"
      "from_instant (minutes 30) fall_back_zone = Ok b" "zd_wall a = zd_wall b" "zd_fold a \<noteq> zd_fold b"
    by (auto simp: is_ok_and_def split: sum.splits)
  then show ?thesis
    using zoned_conversion_loses_nothing [OF fall_back_coherent ab(1)]
      zoned_conversion_loses_nothing [OF fall_back_coherent ab(2)] by blast
qed

section \<open>Boss weeks\<close>

lemma week_starts_agree:
  assumes clk: "is_clock t"
    and a: "astimezone at z = Ok l" "week_start at z wd t = Ok ws"
    and b: "astimezone at' z = Ok l'" "week_start at' z wd t = Ok ws'"
    and within: "zd_wall ws \<le> zd_wall l'" "zd_wall l' < zd_wall ws + days 7"
  shows "ws' = ws"
proof -
  note w = week_start_Ok [OF clk a] and w' = week_start_Ok [OF clk b]
  let ?l = "zd_wall l' - days 7 + 1"
  have "zd_wall ws' = zd_wall ws"
    by (rule wall_unique_in_week [where l = ?l]) (use w w' within in \<open>simp_all\<close>)
  then show ?thesis using w(5,6) w'(5,6) by simp
qed

text \<open>C31. The boss week of an instant is the one that contains its local time: it starts on the reset
  weekday at the reset clock, not after the instant and less than seven local days before it.
  Two instants are in the same boss week exactly when the local time of the second is within
  the seven days from the first one's start, so boss weeks neither overlap nor leave gaps.\<close>

theorem boss_weeks_partition_time:
  assumes "is_clock t"
    and "astimezone at z = Ok l" "week_start at z wd t = Ok ws"
    and "astimezone at' z = Ok l'" "week_start at' z wd t = Ok ws'"
  shows "zd_wall ws \<le> zd_wall l \<and> zd_wall l < zd_wall ws + days 7 \<and>
    wall_weekday (zd_wall ws) = wd \<and> wall_time (zd_wall ws) = t \<and>
    (ws' = ws \<longleftrightarrow> zd_wall ws \<le> zd_wall l' \<and> zd_wall l' < zd_wall ws + days 7)"
  using week_start_Ok [OF assms(1-3)] week_start_Ok [OF assms(1,4,5)] week_starts_agree [OF assms]
  by auto

theorem boss_weeks_partition_time_witness:
  "\<exists>ws. week_start (AtInstant (hours 100)) sample_zone Wed midnight = Ok ws \<and>
     week_start (AtInstant (hours 111)) sample_zone Wed midnight = Ok ws"
proof -
  have "is_ok_and (\<lambda>l. is_ok_and (\<lambda>ws. is_ok_and (\<lambda>l'. is_ok_and (\<lambda>ws'.
        zd_wall ws \<le> zd_wall l' \<and> zd_wall l' < zd_wall ws + days 7)
      (week_start (AtInstant (hours 111)) sample_zone Wed midnight))
      (astimezone (AtInstant (hours 111)) sample_zone))
      (week_start (AtInstant (hours 100)) sample_zone Wed midnight))
      (astimezone (AtInstant (hours 100)) sample_zone)"
    by code_simp
  then obtain l ws l' ws' where r: "astimezone (AtInstant (hours 100)) sample_zone = Ok l"
      "week_start (AtInstant (hours 100)) sample_zone Wed midnight = Ok ws"
      "astimezone (AtInstant (hours 111)) sample_zone = Ok l'"
      "week_start (AtInstant (hours 111)) sample_zone Wed midnight = Ok ws'"
      "zd_wall ws \<le> zd_wall l' \<and> zd_wall l' < zd_wall ws + days 7"
    by (auto simp only: is_ok_and_def split: sum.splits)
  then show ?thesis using boss_weeks_partition_time [OF is_clock_midnight r(1-4)] by auto
qed

section \<open>Slots\<close>

text \<open>C34. The slot of a weekly timing lies in the boss week it was placed in, on the timing's weekday
  and clock, and is the only such local time there; so the guard that skips a slot outside its
  week (\<open>materialise_week\<close>) never fires, and the slot's own boss week is that week again.\<close>

theorem slot_lies_in_its_week:
  assumes "is_clock reset" "is_clock time" "week_start at z wd reset = Ok start"
    and "slot_in_week (AtZoned start) z day time = Ok slot"
    and "week_end (AtZoned start) z = Ok next"
  shows "\<not> (zd_wall slot < zd_wall start \<or> zd_wall slot \<ge> zd_wall next) \<and>
    wall_weekday (zd_wall slot) = day \<and> wall_time (zd_wall slot) = time \<and>
    (\<forall>w. wall_weekday w = day \<and> wall_time w = time \<and> zd_wall start \<le> w \<and> w < zd_wall next \<longrightarrow>
       w = zd_wall slot) \<and>
    (\<forall>ws. week_start (AtZoned slot) z wd reset = Ok ws \<longrightarrow> ws = start)"
proof -
  obtain l where l: "astimezone at z = Ok l" using assms(3) by (auto simp: week_start_def res_bind_Ok_iff)
  note s = week_start_Ok [OF assms(1) l assms(3)]
  have start: "astimezone (AtZoned start) z = Ok start" using s(5) by (rule astimezone_same_zone)
  note o' = slot_in_week_Ok [OF assms(2) start assms(4)]
  have next': "zd_wall next = zd_wall start + days 7" using week_end_Ok(1) [OF start assms(5)] .
  have same: "ws = start" if "week_start (AtZoned slot) z wd reset = Ok ws" for ws
    using week_starts_agree [OF assms(1) l assms(3) astimezone_same_zone [OF o'(5)] that] o'(1,2) by simp
  have only: "w = zd_wall slot"
    if "wall_weekday w = day" "wall_time w = time" "zd_wall start \<le> w" "w < zd_wall next" for w
  proof (rule wall_unique_in_week)
    show "wall_weekday w = wall_weekday (zd_wall slot)" "wall_time w = wall_time (zd_wall slot)"
      using that(1,2) o'(3,4) by simp_all
    show "zd_wall start \<le> w" "w < zd_wall start + days 7" using that(3,4) next' by simp_all
  qed (rule o'(1), rule o'(2))
  have inside: "\<not> (zd_wall slot < zd_wall start \<or> zd_wall slot \<ge> zd_wall next)"
    using o'(1,2) next' by simp
  show ?thesis using inside o'(3,4) same only by blast
qed

theorem slot_lies_in_its_week_witness:
  "\<exists>start slot. week_start (AtInstant (hours 100)) sample_zone Wed midnight = Ok start \<and>
     slot_in_week (AtZoned start) sample_zone Mon (hours 12) = Ok slot \<and>
     wall_weekday (zd_wall slot) = Mon"
proof -
  have "is_ok_and (\<lambda>start. is_ok_and (\<lambda>slot. is_ok_and (\<lambda>_. True)
      (week_end (AtZoned start) sample_zone))
      (slot_in_week (AtZoned start) sample_zone Mon (hours 12)))
      (week_start (AtInstant (hours 100)) sample_zone Wed midnight)"
    by code_simp
  then obtain start slot "next" where r: "week_start (AtInstant (hours 100)) sample_zone Wed midnight = Ok start"
      "slot_in_week (AtZoned start) sample_zone Mon (hours 12) = Ok slot"
      "week_end (AtZoned start) sample_zone = Ok next"
    by (auto simp only: is_ok_and_def split: sum.splits)
  have "is_clock (hours 12)" by (simp add: is_clock_def hours_def)
  then show ?thesis using slot_lies_in_its_week [OF is_clock_midnight _ r] r by blast
qed

text \<open>The three materialised weeks follow one another: each starts seven local days after the one
  before, on the same weekday and clock, and the first one contains the present.\<close>

theorem materialised_weeks_follow:
  assumes "is_clock t" "astimezone now z = Ok l" "materialised_week_starts z wd t now = Ok weeks"
  shows "length weeks = 3 \<and> zd_wall (weeks ! 0) \<le> zd_wall l \<and> zd_wall l < zd_wall (weeks ! 1) \<and>
    zd_wall (weeks ! 1) = zd_wall (weeks ! 0) + days 7 \<and>
    zd_wall (weeks ! 2) = zd_wall (weeks ! 1) + days 7 \<and>
    (\<forall>w \<in> set weeks. wall_weekday (zd_wall w) = wd \<and> wall_time (zd_wall w) = t \<and> zd_zone w = z)"
proof -
  obtain a b c where w: "week_start now z wd t = Ok a" "week_end (AtZoned a) z = Ok b"
      "week_end (AtZoned b) z = Ok c" "weeks = [a, b, c]"
    using assms(3) by (auto simp: materialised_week_starts_def res_bind_Ok_iff)
  note s = week_start_Ok [OF assms(1,2) w(1)]
  note b = week_end_Ok [OF astimezone_same_zone [OF s(5)] w(2)]
  note c = week_end_Ok [OF astimezone_same_zone [OF b(2)] w(3)]
  have "date_weekday (d + 7) = date_weekday d" "date_weekday (14 + d) = date_weekday d" for d
    by (simp_all add: date_weekday_eq_iff)
  then have "wall_weekday (zd_wall b) = wd" "wall_weekday (zd_wall c) = wd"
    "wall_time (zd_wall b) = t" "wall_time (zd_wall c) = t"
    using s(3,4) unfolding b(1) c(1) wall_weekday_def wall_date_add_days wall_time_add_days by simp_all
  then show ?thesis using w(4) s b c by simp
qed

theorem materialised_weeks_follow_witness:
  "\<exists>weeks. materialised_week_starts sample_zone Wed midnight (AtInstant (hours 100)) = Ok weeks \<and>
     zd_wall (weeks ! 2) = zd_wall (weeks ! 0) + days 14"
proof -
  have "is_ok_and (\<lambda>_. is_ok_and (\<lambda>_. True)
      (materialised_week_starts sample_zone Wed midnight (AtInstant (hours 100))))
      (astimezone (AtInstant (hours 100)) sample_zone)"
    by code_simp
  then obtain l weeks where r: "astimezone (AtInstant (hours 100)) sample_zone = Ok l"
      "materialised_week_starts sample_zone Wed midnight (AtInstant (hours 100)) = Ok weeks"
    by (auto simp only: is_ok_and_def split: sum.splits)
  then show ?thesis using materialised_weeks_follow [OF is_clock_midnight r] by (simp add: days_def)
qed

section \<open>Clock times\<close>

lemma digit_not_space [simp]: "d < 10 \<Longrightarrow> \<not> is_space (48 + d)"
  by (auto simp: is_space_def is_whitespace_def)

lemma from_hms_clock: "from_hms h m = Some c \<Longrightarrow> is_clock c \<and> c mod minutes 1 = 0"
  by (auto simp: from_hms_def is_clock_def hours_def minutes_def split: if_splits)

text \<open>A time shown as \<open>HH:MM\<close> (as notices print local times) reads back as that clock, and whatever
  input \<open>parse_hhmm\<close> accepts, the result is a clock time of the day in whole minutes.\<close>

theorem clock_text_round_trip:
  "(h < 24 \<and> m < 60 \<longrightarrow>
     parse_hhmm (dec2 h @ lit '':'' @ dec2 m) = Ok (hours (int h) + minutes (int m))) \<and>
   (parse_hhmm v = Ok c \<longrightarrow> is_clock c \<and> c mod minutes 1 = 0)"
proof (intro conjI impI)
  assume hm: "h < 24 \<and> m < 60"
  have digits: "h div 10 < 10" "h mod 10 < 10" "m div 10 < 10" "m mod 10 < 10"
    using hm by (auto intro: less_mult_imp_div_less)
  note dec = decimal_ascii [OF digits(1)] decimal_ascii [OF digits(2)]
    decimal_ascii [OF digits(3)] decimal_ascii [OF digits(4)]
  have shown: "dec2 h @ lit '':'' @ dec2 m =
      [48 + h div 10, 48 + h mod 10, 58, 48 + m div 10, 48 + m mod 10]"
    using hm by (simp add: dec2_two lit_def)
  have colon: "decimal 58 = None" by (simp add: decimal_def decimal_zeros_def)
  have whole: "10 * (h div 10) + h mod 10 = h" "10 * (m div 10) + m mod 10 = m" by simp_all
  show "parse_hhmm (dec2 h @ lit '':'' @ dec2 m) = Ok (hours (int h) + minutes (int m))"
    unfolding shown using digits hm
    by (simp add: parse_hhmm_def strip_def dec colon minute_part_def meridiem_tail_def number_def
        from_hms_def whole mult.commute)
next
  assume "parse_hhmm v = Ok c"
  then obtain hour minute where "from_hms hour minute = Some c"
    by (auto simp: parse_hhmm_def Let_def res_bind_Ok_iff split: if_splits option.splits prod.splits)
  then show "is_clock c" "c mod minutes 1 = 0" using from_hms_clock by blast+
qed

theorem clock_text_round_trip_witness:
  "parse_hhmm (dec2 21 @ lit '':'' @ dec2 5) = Ok (hours 21 + minutes 5) \<and>
   is_clock (hours 21 + minutes 30)"
proof -
  have digit: "decimal 57 = Some 9" "decimal 51 = Some 3" "decimal 48 = Some 0" "decimal 46 = None"
    "decimal 112 = None"
    by (simp_all add: decimal_def decimal_zeros_def)
  have "lit ''9.30 pm'' = [57, 46, 51, 48, 32, 112, 109]" by (simp add: lit_def)
  then have "parse_hhmm (lit ''9.30 pm'') = Ok (hours 21 + minutes 30)"
    by (simp add: parse_hhmm_def strip_def is_space_def is_whitespace_def digit minute_part_def
        meridiem_tail_def ascii_lower_def number_def from_hms_def) (simp add: lit_def)
  then show ?thesis
    using clock_text_round_trip [of 21 5 "lit ''9.30 pm''" "hours 21 + minutes 30"] by simp
qed

end
