(* ===== verification/Declines.thy ===== *)
theory Declines
  imports Ledger
begin

text \<open>
  Decline notices: the durable candidates for posts that a member declined a run, and the binding of
  each to the message that was posted (\<open>notify/decline.rs\<close>, \<open>sqlite/decline_notices.rs\<close> and the check
  in \<open>kanade-store/src/rules.rs\<close>), and the commit that writes them beside the answer
  (\<open>commit_with_decline_notices\<close>).
\<close>

definition decline_notice_cooldown :: delta where
  "decline_notice_cooldown = hours 6"

definition max_pending_decline_notices :: nat where
  "max_pending_decline_notices = 100"

record decline_notice =
  dn_run_id :: str
  dn_user_id :: str
  dn_channel_id :: "str option"
  dn_reference_id :: "str option"
  dn_display_name :: "str option"
  dn_message_id :: "str option"
  dn_notified_at :: instant
  dn_retract_pending :: bool

type_synonym decline_table = "(str \<times> str, decline_notice) table"

definition decline_candidate ::
  "str \<Rightarrow> str \<Rightarrow> str option \<Rightarrow> str option \<Rightarrow> str \<Rightarrow> instant \<Rightarrow> decline_notice" where
  "decline_candidate run_id user_id channel reference name at =
     \<lparr>dn_run_id = run_id, dn_user_id = user_id, dn_channel_id = channel, dn_reference_id = reference,
      dn_display_name = Some name, dn_message_id = None, dn_notified_at = at, dn_retract_pending = False\<rparr>"

section \<open>Writing the rows\<close>

definition check_decline_candidate :: "decline_notice \<Rightarrow> store_failure + unit" where
  "check_decline_candidate c =
     (case dn_display_name c of
        None \<Rightarrow> Err ConstraintViolated
      | Some name \<Rightarrow> if length name > 128 then Err ConstraintViolated else Ok ())"

definition decline_upsert :: "decline_notice \<Rightarrow> decline_table \<Rightarrow> store_failure + decline_table" where
  "decline_upsert c ns =
     res_bind (check_decline_candidate c) (\<lambda>_.
     res_bind (col_instant (dn_notified_at c)) (\<lambda>at.
     let key = (dn_run_id c, dn_user_id c);
         row = c\<lparr>dn_message_id := None, dn_notified_at := at, dn_retract_pending := False\<rparr>
     in Ok (case Option.bind (t_get ns key) dn_message_id of
              Some _ \<Rightarrow> ns
            | None \<Rightarrow> t_insert key row ns)))"

fun decline_upserts :: "decline_notice list \<Rightarrow> decline_table \<Rightarrow> store_failure + decline_table" where
  "decline_upserts [] ns = Ok ns"
| "decline_upserts (c # cs) ns = res_bind (decline_upsert c ns) (decline_upserts cs)"

definition mark_retraction :: "str \<times> str \<Rightarrow> decline_table \<Rightarrow> decline_table" where
  "mark_retraction key ns = t_modify key (dn_retract_pending_update (\<lambda>_. True)) ns"

definition mark_retractions :: "(str \<times> str) list \<Rightarrow> decline_table \<Rightarrow> decline_table" where
  "mark_retractions keys ns = fold mark_retraction keys ns"

section \<open>Delivery\<close>

text \<open>\<open>update_one\<close>: whether a row was changed, with the table after it.\<close>

definition bind_decline_notice :: "str \<Rightarrow> str \<Rightarrow> str \<Rightarrow> str \<Rightarrow> decline_table \<Rightarrow> bool \<times> decline_table" where
  "bind_decline_notice run_id user_id channel_id message_id ns =
     (case t_get ns (run_id, user_id) of
        Some row \<Rightarrow>
          if dn_message_id row = None
          then (True, t_insert (run_id, user_id)
                 (row\<lparr>dn_channel_id := Some channel_id, dn_message_id := Some message_id\<rparr>) ns)
          else (False, ns)
      | None \<Rightarrow> (False, ns))"

definition mark_decline_retract_pending :: "str \<Rightarrow> str \<Rightarrow> decline_table \<Rightarrow> bool \<times> decline_table" where
  "mark_decline_retract_pending run_id user_id ns =
     (t_has ns (run_id, user_id), mark_retraction (run_id, user_id) ns)"

definition clear_decline_notice_message ::
  "str \<Rightarrow> str \<Rightarrow> str \<Rightarrow> decline_table \<Rightarrow> bool \<times> decline_table" where
  "clear_decline_notice_message run_id user_id message_id ns =
     (case t_get ns (run_id, user_id) of
        Some row \<Rightarrow>
          if dn_message_id row = Some message_id
          then (True, t_insert (run_id, user_id)
                 (row\<lparr>dn_message_id := None, dn_retract_pending := False\<rparr>) ns)
          else (False, ns)
      | None \<Rightarrow> (False, ns))"

definition decline_notice_on_cooldown :: "str \<Rightarrow> str \<Rightarrow> instant \<Rightarrow> decline_table \<Rightarrow> bool" where
  "decline_notice_on_cooldown run_id user_id now ns \<longleftrightarrow>
     (case t_get ns (run_id, user_id) of
        Some row \<Rightarrow> now - dn_notified_at row < decline_notice_cooldown
      | None \<Rightarrow> False)"

text \<open>Recovery work, in order.\<close>

definition decline_order :: "decline_notice \<Rightarrow> instant \<times> str \<times> str" where
  "decline_order row = (dn_notified_at row, dn_run_id row, dn_user_id row)"

definition pending_decline_notices :: "nat \<Rightarrow> decline_table \<Rightarrow> decline_notice list" where
  "pending_decline_notices limit ns =
     take (min limit max_pending_decline_notices)
       (sort_key decline_order
         (filter (\<lambda>row. dn_message_id row = None \<or> dn_retract_pending row) (t_values ns)))"

section \<open>The commit with its notices\<close>

text \<open>\<open>commit_on\<close> with the candidates and retractions an answer decides.\<close>

definition commit_with_decline_notices ::
  "codec \<Rightarrow> str \<Rightarrow> nat \<Rightarrow> change list \<Rightarrow> change_meta \<Rightarrow> decline_notice list \<Rightarrow> (str \<times> str) list
    \<Rightarrow> ledger \<times> decline_table \<Rightarrow> commit_failure + committed option \<times> ledger \<times> decline_table" where
  "commit_with_decline_notices cd ident expected changes meta candidates retractions s =
     (case s of (lg, ns) \<Rightarrow>
        res_bind (replayed lg meta) (\<lambda>earlier.
        case earlier of
          Some c \<Rightarrow> Ok (Some c, lg, ns)
        | None \<Rightarrow>
            res_bind (check_expect lg meta) (\<lambda>_.
            let revision = db_revision (lg_db lg) in
            if revision \<noteq> expected then Err (CfStore (RevisionConflict expected revision))
            else if changes = [] then Ok (None, lg, ns)
            else
              let keys = touched_keys changes in
              res_bind (res_map_err CfStore (store_write (collapse changes) (lg_db lg))) (\<lambda>db.
              res_bind (res_map_err CfStore (decline_upserts candidates ns)) (\<lambda>ns.
              res_bind (append_record cd ident (revision + 1) meta keys (lg_db lg) (lg\<lparr>lg_db := db\<rparr>)) (\<lambda>(c, lg').
              if references_ok db then Ok (Some c, lg', mark_retractions retractions ns)
              else Err (CfStore ConstraintViolated)))))))"

text \<open>On the schedule and its history it is the plain commit.\<close>

lemma commit_with_none:
  "commit_with_decline_notices cd ident expected changes meta [] [] (lg, ns) =
     res_bind (ledger_commit cd ident expected changes meta lg) (\<lambda>(out, lg'). Ok (out, lg', ns))"
  by (simp add: commit_with_decline_notices_def ledger_commit_def res_bind_def Let_def mark_retractions_def
      split: sum.splits option.splits prod.splits)

lemma commit_with_plain:
  assumes "commit_with_decline_notices cd ident expected changes meta cs rs (lg, ns) = Ok (out, lg', ns')"
  shows "ledger_commit cd ident expected changes meta lg = Ok (out, lg')"
  using assms
  by (auto simp: commit_with_decline_notices_def ledger_commit_def res_bind_Ok_iff Let_def
      split: option.splits if_splits prod.splits)

text \<open>The rows change only with a new record.\<close>

lemma commit_with_rows:
  assumes "commit_with_decline_notices cd ident expected changes meta cs rs (lg, ns) = Ok (out, lg', ns')"
  shows "lg' = lg \<and> ns' = ns \<or>
    (\<exists>c ns1. out = Some c \<and> \<not> ct_replayed c \<and> db_revision (lg_db lg) = expected \<and>
       decline_upserts cs ns = Ok ns1 \<and> ns' = mark_retractions rs ns1)"
  using assms
  by (auto simp: commit_with_decline_notices_def append_record_def res_bind_Ok_iff Let_def
      split: option.splits if_splits prod.splits)

section \<open>When a member was last announced\<close>

definition last_notified :: "str \<Rightarrow> str \<Rightarrow> decline_table \<Rightarrow> instant option" where
  "last_notified run_id user_id ns = map_option dn_notified_at (t_get ns (run_id, user_id))"

lemma delivery_keeps_notified:
  "last_notified r u (mark_retraction key ns) = last_notified r u ns"
  "last_notified r u (snd (bind_decline_notice run_id user_id channel message ns)) = last_notified r u ns"
  "last_notified r u (snd (mark_decline_retract_pending run_id user_id ns)) = last_notified r u ns"
  "last_notified r u (snd (clear_decline_notice_message run_id user_id message ns)) = last_notified r u ns"
  by (auto simp: last_notified_def mark_retraction_def bind_decline_notice_def mark_decline_retract_pending_def
      clear_decline_notice_message_def option.map_comp comp_def split: option.splits)

lemma marks_keep_notified: "last_notified r u (mark_retractions keys ns) = last_notified r u ns"
  by (induction keys arbitrary: ns) (simp_all add: mark_retractions_def delivery_keeps_notified)

lemma upsert_notified:
  assumes "decline_upsert c ns = Ok ns'"
  shows "last_notified r u ns' = last_notified r u ns \<or>
    (r, u) = (dn_run_id c, dn_user_id c) \<and> last_notified r u ns' = Some (dn_notified_at c div 1000 * 1000)"
  using assms
  by (auto simp: decline_upsert_def last_notified_def col_instant_def res_bind_Ok_iff Let_def
      split: option.splits if_splits)

lemma cooldown_over:
  "\<not> decline_notice_on_cooldown run_id user_id now ns \<Longrightarrow> last_notified run_id user_id ns = Some before \<Longrightarrow>
   before + decline_notice_cooldown \<le> now"
  by (auto simp: decline_notice_on_cooldown_def last_notified_def)

end
