(* ===== verification/Service.thy ===== *)
theory Service
  imports LedgerRead Op Declines
begin

text \<open>
  The single scheduler write path (\<open>scheduler/service.rs\<close>): load a scoped snapshot, plan on it and
  commit, again from the start when another writer came between, up to three times. The store is
  shared: what other writers do before each call, the ids it draws for records, and the calls that
  fail are the surroundings of a service, a parameter. An operation reads the clock and the run ends
  once, so they are values. The request digest (SHA-256 over \<open>Debug\<close> forms) is a function of the
  operation's name and arguments, a parameter too.
\<close>

section \<open>Errors\<close>

datatype history_refusal = UnknownChange nat | TamperedRecord nat | NothingToRevert

datatype scheduler_error =
    SeSchedule schedule_error
  | SeStore commit_failure
  | SeAlreadyApplied nat nat
  | SeHistory history_refusal
  | SeIdempotencyMismatch nat
  | SeStaleEdit "stale_field list"
  | SePrecondition precondition_error
  | SeForbidden str

definition commit_attempts :: nat where
  "commit_attempts = 3"

section \<open>What a request digest covers\<close>

datatype rollback_selection =
    RollSeqs "nat list"
  | RollWeek instant nat
  | RollActor actor instant

record rollback_request =
  rq_selection :: rollback_selection
  rq_mode :: revert_mode
  rq_preview :: bool

record rollback =
  rb_selection :: rollback_selection
  rb_scope :: revert_scope
  rb_mode :: revert_mode
  rb_preview :: bool

datatype digest_args =
    DgNewFixed new_fixed_run
  | DgNewRun new_run
  | DgScope scope
  | DgRunStatus str run_status
  | DgRsvp str str rsvp_state rsvp_source
  | DgReaction str str str bool
  | DgFixedPatch str fixed_run_patch "fixed_field list" scope
  | DgRetire str scope
  | DgEnsure str bool
  | DgAddReminder str str instant "instant option"
  | DgMarkSent str "str option"
  | DgTextAt str instant
  | DgUnit
  | DgStatusChange str status_change
  | DgSwapSlots str str "nat option"
  | DgSwapParty str "str list" "str list" bool
  | DgFixedEdit fixed_edit_request
  | DgText str
  | DgParty str "str list" "str list"
  | DgBosses str "str list"
  | DgSettle settle_press
  | DgAnswer str str "rsvp_state option"
  | DgExpect str expect
  | DgRollback rollback

section \<open>The service and its store\<close>

record stores =
  st_ledger :: ledger
  st_declines :: decline_table

record surroundings =
  su_codec :: codec
  su_digest :: "str \<Rightarrow> digest_args \<Rightarrow> str"
  su_lower :: "str \<Rightarrow> str"
  su_ident :: "nat \<Rightarrow> str"
  su_unproven :: "nat \<Rightarrow> str \<Rightarrow> bool"
  su_between :: "nat \<Rightarrow> stores \<Rightarrow> stores"
  su_down :: "nat \<Rightarrow> bool"

record service =
  sv_around :: surroundings
  sv_ids :: id_source
  sv_now :: instant
  sv_attendance :: attendance_policy
  sv_run_ends :: "run_ends option"

text \<open>The store as a call finds it, and how many calls were made.\<close>

record world =
  wd_stores :: stores
  wd_calls :: nat

type_synonym 'a served = "world \<Rightarrow> (scheduler_error + 'a) \<times> world"

definition store_call ::
  "surroundings \<Rightarrow> (nat \<Rightarrow> stores \<Rightarrow> commit_failure + 'a \<times> stores) \<Rightarrow> world \<Rightarrow> (commit_failure + 'a) \<times> world"
where
  "store_call su f w =
     (let n = wd_calls w; st = su_between su n (wd_stores w)
      in case (if su_down su n then Err CfBackend else f n st) of
           Inl e \<Rightarrow> (Err e, \<lparr>wd_stores = st, wd_calls = Suc n\<rparr>)
         | Inr (a, st') \<Rightarrow> (Ok a, \<lparr>wd_stores = st', wd_calls = Suc n\<rparr>))"

definition call_recorded ::
  "surroundings \<Rightarrow> actor \<Rightarrow> str \<Rightarrow> world \<Rightarrow> (commit_failure + (committed \<times> str option) option) \<times> world" where
  "call_recorded su who request_id =
     store_call su (\<lambda>_ st. Ok (recorded_request (st_ledger st) who request_id, st))"

definition call_load :: "surroundings \<Rightarrow> scope \<Rightarrow> world \<Rightarrow> (commit_failure + snapshot) \<times> world" where
  "call_load su scope =
     store_call su (\<lambda>n st. Ok (load_scope (su_unproven su n) scope (lg_db (st_ledger st)), st))"

definition call_commit_with ::
  "surroundings \<Rightarrow> nat \<Rightarrow> change list \<Rightarrow> change_meta \<Rightarrow> decline_notice list \<Rightarrow> (str \<times> str) list
    \<Rightarrow> world \<Rightarrow> (commit_failure + committed option) \<times> world" where
  "call_commit_with su revision changes meta candidates retractions =
     store_call su (\<lambda>n st.
       res_bind (commit_with_decline_notices (su_codec su) (su_ident su n) revision changes meta candidates
                   retractions (st_ledger st, st_declines st)) (\<lambda>(out, lg, ns).
       Ok (out, st\<lparr>st_ledger := lg, st_declines := ns\<rparr>)))"

definition call_commit ::
  "surroundings \<Rightarrow> nat \<Rightarrow> change list \<Rightarrow> change_meta \<Rightarrow> world \<Rightarrow> (commit_failure + committed option) \<times> world"
where
  "call_commit su revision changes meta = call_commit_with su revision changes meta [] []"

definition call_on_cooldown ::
  "surroundings \<Rightarrow> str \<Rightarrow> str \<Rightarrow> instant \<Rightarrow> world \<Rightarrow> (commit_failure + bool) \<times> world" where
  "call_on_cooldown su run_id user_id now =
     store_call su (\<lambda>_ st. Ok (decline_notice_on_cooldown run_id user_id now (st_declines st), st))"

section \<open>Operations in steps\<close>

definition sv_ret :: "'a \<Rightarrow> 'a served" where
  "sv_ret a = (\<lambda>w. (Ok a, w))"

definition sv_fail :: "scheduler_error \<Rightarrow> 'a served" where
  "sv_fail e = (\<lambda>w. (Err e, w))"

text \<open>\<open>match\<close> on the result of a call, \<open>?\<close> on it, and \<open>?\<close> on a value.\<close>

definition sv_match :: "(world \<Rightarrow> 'r \<times> world) \<Rightarrow> ('r \<Rightarrow> 'a served) \<Rightarrow> 'a served" where
  "sv_match m k = (\<lambda>w. case m w of (r, w') \<Rightarrow> k r w')"

definition sv_bind :: "'a served \<Rightarrow> ('a \<Rightarrow> 'b served) \<Rightarrow> 'b served" where
  "sv_bind m k = sv_match m (case_sum sv_fail k)"

definition sv_call :: "(world \<Rightarrow> (commit_failure + 'a) \<times> world) \<Rightarrow> ('a \<Rightarrow> 'b served) \<Rightarrow> 'b served" where
  "sv_call m k = sv_match m (case_sum (\<lambda>e. sv_fail (SeStore e)) k)"

definition sv_check :: "scheduler_error + 'a \<Rightarrow> ('a \<Rightarrow> 'b served) \<Rightarrow> 'b served" where
  "sv_check r k = (case r of Inl e \<Rightarrow> sv_fail e | Inr a \<Rightarrow> k a)"

section \<open>Checks\<close>

definition service_draft :: "service \<Rightarrow> snapshot \<Rightarrow> draft" where
  "service_draft sv base = with_run_ends (sv_run_ends sv) (with_attendance (sv_attendance sv) (draft_new base))"

definition check_policy :: "service \<Rightarrow> schedule_policy \<Rightarrow> schedule_error + unit" where
  "check_policy sv policy =
     (if sp_attendance policy = sv_attendance sv then Ok ()
      else Err (AttendanceMismatch (sv_attendance sv) (sp_attendance policy)))"

definition already_applied :: "committed \<Rightarrow> scheduler_error" where
  "already_applied c = SeAlreadyApplied (ct_seq c) (ct_revision c)"

fun store_failure_of :: "commit_failure \<Rightarrow> scheduler_error" where
  "store_failure_of (CfMismatch n) = SeIdempotencyMismatch n"
| "store_failure_of (CfStale stale) = SeStaleEdit stale"
| "store_failure_of (CfPrecondition e) = SePrecondition e"
| "store_failure_of e = SeStore e"

definition check_request :: "surroundings \<Rightarrow> change_meta \<Rightarrow> unit served" where
  "check_request su meta =
     (case og_request_id (cm_origin meta) of
        None \<Rightarrow> sv_ret ()
      | Some request_id \<Rightarrow>
          sv_call (call_recorded su (og_actor (cm_origin meta)) request_id) (\<lambda>found.
          case found of
            None \<Rightarrow> sv_ret ()
          | Some (c, digest) \<Rightarrow>
              if digest = cm_request_digest meta then sv_fail (already_applied c)
              else sv_fail (SeIdempotencyMismatch (ct_seq c))))"

text \<open>A plan refused under declared preconditions is explained by the stale field, if one is.\<close>

definition explain_refusal ::
  "surroundings \<Rightarrow> nat \<Rightarrow> change_meta \<Rightarrow> schedule_error \<Rightarrow> 'a served" where
  "explain_refusal su revision meta err =
     (if ex_fields (cm_expect meta) = [] then sv_fail (SeSchedule err)
      else
        sv_match (call_commit su revision [] meta) (\<lambda>r. sv_fail
          (case r of
             Inl (CfStale stale) \<Rightarrow> SeStaleEdit stale
           | Inl (CfPrecondition refusal) \<Rightarrow> SePrecondition refusal
           | _ \<Rightarrow> SeSchedule err)))"

definition check_no_op :: "surroundings \<Rightarrow> nat \<Rightarrow> change_meta \<Rightarrow> unit served" where
  "check_no_op su revision meta =
     (case ex_overrides (cm_expect meta) of
        ref # _ \<Rightarrow> sv_fail (SePrecondition (OverrideUnchanged (cr_seq ref)))
      | [] \<Rightarrow>
          if ex_fields (cm_expect meta) = [] then sv_ret ()
          else
            sv_match (call_commit su revision [] meta) (\<lambda>r.
              case r of
                Inl (CfStale stale) \<Rightarrow>
                  let gone = filter sf_target_deleted stale
                  in if gone = [] then sv_ret () else sv_fail (SeStaleEdit gone)
              | Inl (CfPrecondition refusal) \<Rightarrow> sv_fail (SePrecondition refusal)
              | _ \<Rightarrow> sv_ret ()))"

section \<open>Load, plan, commit\<close>

text \<open>One attempt up to its commit: \<open>unchanged\<close> is the outcome of a plan that changes nothing.\<close>

definition planned_round ::
  "service \<Rightarrow> change_meta \<Rightarrow> scope \<Rightarrow> 'a plan \<Rightarrow> ('a \<Rightarrow> id_source \<Rightarrow> 'v)
    \<Rightarrow> (nat \<Rightarrow> change list \<Rightarrow> 'a \<Rightarrow> id_source \<Rightarrow> 'v served) \<Rightarrow> id_source \<Rightarrow> 'v served" where
  "planned_round sv meta scope work unchanged write ids =
     sv_call (call_load (sv_around sv) scope) (\<lambda>snapshot.
     case work (service_draft sv snapshot, ids) of
       Inl err \<Rightarrow> explain_refusal (sv_around sv) (sn_revision snapshot) meta err
     | Inr (value, d, ids') \<Rightarrow>
         let changes = into_changes d in
         if changes = [] then
           sv_bind (check_no_op (sv_around sv) (sn_revision snapshot) meta) (\<lambda>_. sv_ret (unchanged value ids'))
         else write (sn_revision snapshot) changes value ids')"

text \<open>The \<open>match\<close> on a commit: \<open>retry\<close> gets the failures.\<close>

definition settle_commit ::
  "(world \<Rightarrow> (commit_failure + committed option) \<times> world) \<Rightarrow> (committed option \<Rightarrow> 'v)
    \<Rightarrow> (commit_failure \<Rightarrow> 'v served) \<Rightarrow> 'v served" where
  "settle_commit commit written retry =
     sv_match commit (\<lambda>r.
       case r of
         Inr (Some c) \<Rightarrow> if ct_replayed c then sv_fail (already_applied c) else sv_ret (written (Some c))
       | Inr None \<Rightarrow> sv_ret (written None)
       | Inl e \<Rightarrow> retry e)"

fun is_conflict :: "commit_failure \<Rightarrow> bool" where
  "is_conflict (CfStore (RevisionConflict _ _)) \<longleftrightarrow> True"
| "is_conflict _ \<longleftrightarrow> False"

definition store_failed :: "commit_failure \<Rightarrow> 'v served" where
  "store_failed e = sv_fail (store_failure_of e)"

text \<open>The loop of \<open>transact_as\<close>, with the attempts left after this one.\<close>

definition transact_write ::
  "service \<Rightarrow> change_meta \<Rightarrow> ('a \<Rightarrow> str list \<times> notice list) \<Rightarrow> (commit_failure \<Rightarrow> id_source \<Rightarrow> ('a \<times> id_source) served)
    \<Rightarrow> nat \<Rightarrow> change list \<Rightarrow> 'a \<Rightarrow> id_source \<Rightarrow> ('a \<times> id_source) served" where
  "transact_write sv meta notices retry revision changes value ids =
     settle_commit
       (call_commit (sv_around sv) revision changes
         (meta\<lparr>cm_at := sv_now sv, cm_notices := fst (notices value), cm_outbox := snd (notices value)\<rparr>))
       (\<lambda>_. (value, ids)) (\<lambda>e. retry e ids)"

primrec transact_loop ::
  "nat \<Rightarrow> service \<Rightarrow> change_meta \<Rightarrow> scope \<Rightarrow> 'a plan \<Rightarrow> ('a \<Rightarrow> str list \<times> notice list) \<Rightarrow> id_source
    \<Rightarrow> ('a \<times> id_source) served" where
  "transact_loop 0 sv meta scope work notices =
     planned_round sv meta scope work Pair (transact_write sv meta notices (\<lambda>e _. store_failed e))"
| "transact_loop (Suc spare) sv meta scope work notices =
     planned_round sv meta scope work Pair
       (transact_write sv meta notices (\<lambda>e ids.
          if is_conflict e then transact_loop spare sv meta scope work notices ids else store_failed e))"

definition transact_as ::
  "service \<Rightarrow> change_meta \<Rightarrow> scope \<Rightarrow> 'a plan \<Rightarrow> ('a \<Rightarrow> str list \<times> notice list) \<Rightarrow> ('a \<times> id_source) served" where
  "transact_as sv meta scope work notices =
     sv_bind (check_request (sv_around sv) meta) (\<lambda>_.
     transact_loop (commit_attempts - 1) sv meta scope work notices (sv_ids sv))"

section \<open>Digests and metadata\<close>

definition target_rank :: "blame_target \<Rightarrow> nat \<times> str" where
  "target_rank t = (case t of OnRun i \<Rightarrow> (0, i) | OnFixedRun i \<Rightarrow> (1, i))"

definition precondition_rank :: "precondition \<Rightarrow> (nat \<times> str) \<times> str \<times> nat" where
  "precondition_rank p =
     (target_rank (pc_target p), pc_field p, (case pc_seen p of None \<Rightarrow> 0 | Some n \<Rightarrow> Suc n))"

definition expect_canonical :: "expect \<Rightarrow> expect" where
  "expect_canonical ex =
     \<lparr>ex_fields = sort_key precondition_rank (ex_fields ex),
      ex_overrides = sort_key (\<lambda>r. (cr_seq r, cr_hash r)) (ex_overrides ex)\<rparr>"

definition expect_is_empty :: "expect \<Rightarrow> bool" where
  "expect_is_empty ex \<longleftrightarrow> ex_fields ex = [] \<and> ex_overrides ex = []"

definition expect_none :: expect where
  "expect_none = \<lparr>ex_fields = [], ex_overrides = []\<rparr>"

definition instants_scope :: "week_start list \<Rightarrow> scope" where
  "instants_scope weeks = ScopeWeeks (map ws_instant weeks)"

fun op_digest :: "(str \<Rightarrow> digest_args \<Rightarrow> str) \<Rightarrow> op \<Rightarrow> str" where
  "op_digest dg (AddFixedRun new) = dg (lit ''add_fixed_run'') (DgNewFixed new)"
| "op_digest dg (AddFixedRunMaterialised new _) = dg (lit ''add_fixed_run'') (DgNewFixed new)"
| "op_digest dg (CreateRun new) = dg (lit ''create_run'') (DgNewRun new)"
| "op_digest dg (MaterialiseWeek week _) = dg (lit ''materialise_week'') (DgScope (instants_scope [week]))"
| "op_digest dg (SetRunStatus run_id status) = dg (lit ''set_run_status'') (DgRunStatus run_id status)"
| "op_digest dg (SetRsvp run_id user_id state source) = dg (lit ''set_rsvp'') (DgRsvp run_id user_id state source)"
| "op_digest dg (ApplyReaction run_id user_id emoji added) =
     dg (lit ''apply_reaction'') (DgReaction run_id user_id emoji added)"
| "op_digest dg (EditFixedRun fixed_id patch changed weeks _) =
     dg (lit ''edit_fixed_run'') (DgFixedPatch fixed_id patch changed (instants_scope weeks))"
| "op_digest dg (RetireFixedRun fixed_id weeks _) =
     dg (lit ''retire_fixed_run'') (DgRetire fixed_id (instants_scope weeks))"
| "op_digest dg (EnsureReminders run_id rebuild _) = dg (lit ''ensure_reminders'') (DgEnsure run_id rebuild)"
| "op_digest dg (AddReminder run_id kind fire_at sent_at) =
     dg (lit ''add_reminder'') (DgAddReminder run_id kind fire_at sent_at)"
| "op_digest dg (MarkReminderSent reminder_id message_id) =
     dg (lit ''mark_reminder_sent'') (DgMarkSent reminder_id message_id)"
| "op_digest dg (RescheduleUnpostedReminder reminder_id fire_at) =
     dg (lit ''reschedule_unposted_reminder'') (DgTextAt reminder_id fire_at)"
| "op_digest dg (ReconcileDayOf _) = dg (lit ''reconcile_day_of'') DgUnit"
| "op_digest dg (MaterialiseWeeks _) = dg (lit ''materialise_weeks'') DgUnit"
| "op_digest dg (SetStatus run_id change _) = dg (lit ''set_status'') (DgStatusChange run_id change)"
| "op_digest dg (AmendRun run_id slot _) = dg (lit ''amend_run'') (DgTextAt run_id slot)"
| "op_digest dg (RescheduleRun run_id slot _) = dg (lit ''reschedule_run'') (DgTextAt run_id slot)"
| "op_digest dg (SwapRunSlots run_id with_id version _) =
     dg (lit ''swap_run_slots'') (DgSwapSlots run_id with_id version)"
| "op_digest dg (SwapParticipants run_id gone added via_portal _) =
     dg (lit ''swap_participants'') (DgSwapParty run_id gone added via_portal)"
| "op_digest dg (ApplyFixedEdit request _ _) = dg (lit ''apply_fixed_edit'') (DgFixedEdit request)"
| "op_digest dg (ResetToFixed run_id _) = dg (lit ''reset_to_fixed'') (DgText run_id)"
| "op_digest dg (FixedParticipants fixed_id added gone _ _) =
     dg (lit ''fixed_participants'') (DgParty fixed_id added gone)"
| "op_digest dg RecountAttendance = dg (lit ''recount_attendance'') DgUnit"
| "op_digest dg (SetRunBosses run_id bosses _) = dg (lit ''set_run_bosses'') (DgBosses run_id bosses)"
| "op_digest dg (RecountRun run_id) = dg (lit ''recount_run'') (DgText run_id)"
| "op_digest dg (ReviveRun run_id) = dg (lit ''revive_run'') (DgText run_id)"
| "op_digest dg (FinishRun run_id) = dg (lit ''finish_run'') (DgText run_id)"
| "op_digest dg (SettleRun settle _) = dg (lit ''settle_run'') (DgSettle settle)"

definition expecting_digest :: "(str \<Rightarrow> digest_args \<Rightarrow> str) \<Rightarrow> str \<Rightarrow> expect \<Rightarrow> str" where
  "expecting_digest dg request ex =
     (if expect_is_empty ex then request else dg (lit ''expect'') (DgExpect request (expect_canonical ex)))"

definition edit_digest :: "(str \<Rightarrow> digest_args \<Rightarrow> str) \<Rightarrow> op \<Rightarrow> expect \<Rightarrow> str" where
  "edit_digest dg a ex = expecting_digest dg (op_digest dg a) ex"

definition edit_meta :: "origin \<Rightarrow> expect \<Rightarrow> instant \<Rightarrow> str \<Rightarrow> change_meta" where
  "edit_meta who ex at request =
     \<lparr>cm_origin = who, cm_at = at, cm_notices = [], cm_refs = ex_overrides ex,
      cm_request_digest = map_option (\<lambda>_. request) (og_request_id who), cm_expect = ex, cm_outbox = []\<rparr>"

section \<open>Attributed operations\<close>

record attributed =
  aw_service :: service
  aw_origin :: origin
  aw_expect :: expect

definition as_origin :: "service \<Rightarrow> origin \<Rightarrow> attributed" where
  "as_origin sv who = \<lparr>aw_service = sv, aw_origin = who, aw_expect = expect_none\<rparr>"

definition expecting :: "attributed \<Rightarrow> expect \<Rightarrow> attributed" where
  "expecting aw ex = aw\<lparr>aw_expect := ex\<rparr>"

definition mark_via_portal :: "bool \<Rightarrow> 'a outcome \<Rightarrow> 'a outcome" where
  "mark_via_portal via oc = oc\<lparr>oc_notices := map (no_via_portal_update (\<lambda>_. via)) (oc_notices oc)\<rparr>"

definition on_surface :: "op \<Rightarrow> surface \<Rightarrow> op_result outcome \<Rightarrow> op_result outcome" where
  "on_surface a surface oc =
     (let discord = (surface = Discord) in
      if surface = Import then oc\<lparr>oc_notices := []\<rparr>
      else case a of
        ApplyFixedEdit _ _ _ \<Rightarrow> if discord then oc\<lparr>oc_notices := []\<rparr> else mark_via_portal (\<not> discord) oc
      | AmendRun _ _ _ \<Rightarrow> mark_via_portal (\<not> discord) oc
      | RescheduleRun _ _ _ \<Rightarrow> mark_via_portal (\<not> discord) oc
      | SwapRunSlots _ _ _ _ \<Rightarrow> mark_via_portal (\<not> discord) oc
      | FixedParticipants _ _ _ _ _ \<Rightarrow> mark_via_portal (\<not> discord) oc
      | AddFixedRun _ \<Rightarrow> mark_via_portal (\<not> discord) oc
      | AddFixedRunMaterialised _ _ \<Rightarrow> mark_via_portal (\<not> discord) oc
      | RetireFixedRun _ _ _ \<Rightarrow> mark_via_portal (\<not> discord) oc
      | _ \<Rightarrow> oc)"

definition op_kinds :: "bool \<Rightarrow> op_result outcome \<Rightarrow> str list \<times> notice list" where
  "op_kinds overriding oc =
     (map (\<lambda>n. effect_kind (no_change n)) (oc_notices oc) @ (if overriding then [edit_override] else []), oc_notices oc)"

text \<open>A guard is checked on each attempt's draft.\<close>

definition guarded_plan ::
  "surroundings \<Rightarrow> op \<Rightarrow> surface \<Rightarrow> (draft \<Rightarrow> instant \<Rightarrow> schedule_error + unit) \<Rightarrow> instant
    \<Rightarrow> op_result outcome plan" where
  "guarded_plan su a surface guard now =
     bnd (reads (\<lambda>d. guard d now)) (\<lambda>allowed. bnd (check allowed) (\<lambda>_.
     bnd (apply_op (su_lower su) a now) (\<lambda>oc. ret (on_surface a surface oc))))"

definition op_policy_ok :: "service \<Rightarrow> op \<Rightarrow> scheduler_error + unit" where
  "op_policy_ok sv a =
     (case op_schedule_policy a of
        None \<Rightarrow> Ok ()
      | Some policy \<Rightarrow> res_map_err SeSchedule (check_policy sv policy))"

definition apply_guarded ::
  "attributed \<Rightarrow> scope \<Rightarrow> op \<Rightarrow> (draft \<Rightarrow> instant \<Rightarrow> schedule_error + unit)
    \<Rightarrow> (op_result outcome \<times> id_source) served" where
  "apply_guarded aw scope a guard =
     (let sv = aw_service aw; su = sv_around sv; ex = aw_expect aw in
      sv_check (op_policy_ok sv a) (\<lambda>_.
      sv_check (res_map_err SePrecondition (expect_validate ex (og_actor (aw_origin aw)))) (\<lambda>_.
      transact_as sv (edit_meta (aw_origin aw) ex 0 (edit_digest (su_digest su) a ex)) scope
        (guarded_plan su a (og_surface (aw_origin aw)) guard (sv_now sv))
        (op_kinds (ex_overrides ex \<noteq> [])))))"

definition unguarded :: "draft \<Rightarrow> instant \<Rightarrow> schedule_error + unit" where
  "unguarded d now = Ok ()"

definition apply_as :: "attributed \<Rightarrow> scope \<Rightarrow> op \<Rightarrow> (op_result outcome \<times> id_source) served" where
  "apply_as aw scope a = apply_guarded aw scope a unguarded"

section \<open>The fixed \<open>PATCH\<close> of the API\<close>

definition fixed_patch_meta :: "attributed \<Rightarrow> str \<Rightarrow> change_meta" where
  "fixed_patch_meta aw identity =
     edit_meta (aw_origin aw) (aw_expect aw) 0
       (su_digest (sv_around (aw_service aw)) (lit ''fixed_patch.v1'') (DgText identity))"

definition verify_fixed_patch_replay :: "attributed \<Rightarrow> str \<Rightarrow> unit served" where
  "verify_fixed_patch_replay aw identity =
     check_request (sv_around (aw_service aw)) (fixed_patch_meta aw identity)"

text \<open>The request is checked once more after the transaction; an exact replay of it is a success.\<close>

definition after_fixed_patch :: "scheduler_error + 'a \<Rightarrow> scheduler_error + unit \<Rightarrow> scheduler_error + 'a" where
  "after_fixed_patch outcome checked =
     (case outcome of
        Inr a \<Rightarrow>
          (case checked of
             Inr _ \<Rightarrow> Ok a
           | Inl (SeAlreadyApplied _ _) \<Rightarrow> Ok a
           | Inl e \<Rightarrow> Err e)
      | Inl e \<Rightarrow> (case checked of Inl replay \<Rightarrow> Err replay | Inr _ \<Rightarrow> Err e))"

definition apply_fixed_patch ::
  "attributed \<Rightarrow> scope \<Rightarrow> op \<Rightarrow> str \<Rightarrow> (op_result outcome \<times> id_source) served" where
  "apply_fixed_patch aw scope a identity =
     (let sv = aw_service aw; su = sv_around sv; meta = fixed_patch_meta aw identity; ex = aw_expect aw in
      sv_bind (check_request su meta) (\<lambda>_.
      sv_check (op_policy_ok sv a) (\<lambda>_.
      sv_check (res_map_err SePrecondition (expect_validate ex (og_actor (aw_origin aw)))) (\<lambda>_.
      sv_match (transact_as sv meta scope
                 (guarded_plan su a (og_surface (aw_origin aw)) unguarded (sv_now sv))
                 (op_kinds (ex_overrides ex \<noteq> []))) (\<lambda>outcome.
      sv_match (check_request su meta) (\<lambda>checked.
      sv_check (after_fixed_patch outcome checked) sv_ret))))))"

end
