(* ===== verification/ServiceRuns.thy ===== *)
theory ServiceRuns
  imports Service LedgerHistory
begin

text \<open>
  What an operation does to a shared store. \<open>untouched\<close>: the store is what the other writers alone
  would have made of it. \<open>wrote\<close>: one commit of the operation on top of that. Every operation is one
  or the other, and a commit that was not refused found the rows its plan was made on.
\<close>

section \<open>Other writers\<close>

text \<open>What the others do from one call of the operation up to another.\<close>

definition others :: "surroundings \<Rightarrow> nat \<Rightarrow> nat \<Rightarrow> stores \<Rightarrow> stores" where
  "others su i j st = fold (su_between su) [i ..< j] st"

definition untouched :: "surroundings \<Rightarrow> world \<Rightarrow> world \<Rightarrow> bool" where
  "untouched su w w' \<longleftrightarrow>
     wd_calls w \<le> wd_calls w' \<and> wd_stores w' = others su (wd_calls w) (wd_calls w') (wd_stores w)"

text \<open>What can happen to a store: commits with their decline notices, checkpoints, and the delivery of the
  notices.\<close>

inductive store_step :: "codec \<Rightarrow> stores \<Rightarrow> stores \<Rightarrow> bool" for cd where
  writing:
    "commit_with_decline_notices cd ident expected changes meta cs rs (st_ledger st, st_declines st) = Ok (out, lg, ns) \<Longrightarrow>
     clocked changes \<Longrightarrow> meta_u64 meta \<Longrightarrow> store_step cd st \<lparr>st_ledger = lg, st_declines = ns\<rparr>"
| noting: "create_checkpoint new (st_ledger st) = Ok (made, lg) \<Longrightarrow> store_step cd st (st\<lparr>st_ledger := lg\<rparr>)"
| binding:
    "store_step cd st (st\<lparr>st_declines := snd (bind_decline_notice run_id user_id channel message (st_declines st))\<rparr>)"
| marking: "store_step cd st (st\<lparr>st_declines := snd (mark_decline_retract_pending run_id user_id (st_declines st))\<rparr>)"
| clearing:
    "store_step cd st (st\<lparr>st_declines := snd (clear_decline_notice_message run_id user_id message (st_declines st))\<rparr>)"

abbreviation store_steps :: "codec \<Rightarrow> stores \<Rightarrow> stores \<Rightarrow> bool" where
  "store_steps cd \<equiv> (store_step cd)\<^sup>*\<^sup>*"

lemma store_step_ledger: "store_step cd st st' \<Longrightarrow> ledger_steps cd (st_ledger st) (st_ledger st')"
proof (induction rule: store_step.induct)
  case (writing ident expected changes meta cs rs st out lg ns)
  then show ?case by (auto dest: commit_with_plain intro: ledger_step.committing)
next
  case (noting new st made lg)
  then show ?case by (auto intro: ledger_step.naming)
qed simp_all

lemma store_steps_ledger: "store_steps cd st st' \<Longrightarrow> ledger_steps cd (st_ledger st) (st_ledger st')"
  by (induction rule: rtranclp_induct) (auto dest: store_step_ledger)

definition well_behaved :: "surroundings \<Rightarrow> bool" where
  "well_behaved su \<longleftrightarrow> (\<forall>n st. store_steps (su_codec su) st (su_between su n st))"

lemma others_none [simp]: "others su i i st = st"
  by (simp add: others_def)

lemma others_one [simp]: "others su i (Suc i) st = su_between su i st"
  by (simp add: others_def)

lemma others_more: "i \<le> j \<Longrightarrow> j \<le> k \<Longrightarrow> others su j k (others su i j st) = others su i k st"
  unfolding others_def by (metis fold_append comp_apply upt_add_eq_append le_Suc_ex)

lemma others_steps: "well_behaved su \<Longrightarrow> store_steps (su_codec su) st (others su i j st)"
proof (induction j)
  case (Suc j)
  show ?case
  proof (cases "i \<le> j")
    case True
    then have "others su i (Suc j) st = su_between su j (others su i j st)" by (simp add: others_def)
    then show ?thesis using Suc by (metis well_behaved_def rtranclp_trans)
  qed (simp add: others_def)
qed (simp add: others_def)

lemma untouched_refl [simp]: "untouched su w w"
  by (simp add: untouched_def)

lemma untouched_trans [trans]: "untouched su w w1 \<Longrightarrow> untouched su w1 w2 \<Longrightarrow> untouched su w w2"
  by (simp add: untouched_def others_more)

lemma untouched_steps: "well_behaved su \<Longrightarrow> untouched su w w' \<Longrightarrow>
    store_steps (su_codec su) (wd_stores w) (wd_stores w')"
  by (simp add: untouched_def others_steps)

section \<open>Steps that write nothing\<close>

named_theorems harmless "steps of an operation that write nothing"

definition writes_nothing :: "surroundings \<Rightarrow> (world \<Rightarrow> 'r \<times> world) \<Rightarrow> bool" where
  "writes_nothing su m \<longleftrightarrow> (\<forall>w r w'. m w = (r, w') \<longrightarrow> untouched su w w')"

lemma writes_nothingD: "writes_nothing su m \<Longrightarrow> m w = (r, w') \<Longrightarrow> untouched su w w'"
  by (simp add: writes_nothing_def)

lemma harmless_ret [harmless]: "writes_nothing su (sv_ret a)"
  by (simp add: writes_nothing_def sv_ret_def)

lemma harmless_fail [harmless]: "writes_nothing su (sv_fail e)"
  by (simp add: writes_nothing_def sv_fail_def)

lemma harmless_store_failed [harmless]: "writes_nothing su (store_failed e)"
  by (simp add: store_failed_def harmless_fail)

lemma harmless_match [harmless]:
  assumes "writes_nothing su m" "\<And>r. writes_nothing su (k r)"
  shows "writes_nothing su (sv_match m k)"
  unfolding writes_nothing_def
proof (intro allI impI)
  fix w r w' assume "sv_match m k w = (r, w')"
  then obtain r1 w1 where "m w = (r1, w1)" "k r1 w1 = (r, w')"
    by (auto simp: sv_match_def split: prod.splits)
  then show "untouched su w w'" using assms untouched_trans unfolding writes_nothing_def by blast
qed

lemma harmless_case_sum [harmless]:
  "(\<And>e. writes_nothing su (f e)) \<Longrightarrow> (\<And>a. writes_nothing su (g a)) \<Longrightarrow> writes_nothing su (case_sum f g r)"
  by (cases r) simp_all

lemma harmless_bind [harmless]:
  "writes_nothing su m \<Longrightarrow> (\<And>a. writes_nothing su (k a)) \<Longrightarrow> writes_nothing su (sv_bind m k)"
  unfolding sv_bind_def by (intro harmless)

lemma harmless_call [harmless]:
  "writes_nothing su m \<Longrightarrow> (\<And>a. writes_nothing su (k a)) \<Longrightarrow> writes_nothing su (sv_call m k)"
  unfolding sv_call_def by (intro harmless)

lemma harmless_check [harmless]: "(\<And>a. writes_nothing su (k a)) \<Longrightarrow> writes_nothing su (sv_check r k)"
  unfolding sv_check_def by (intro harmless)

lemma store_call_cases:
  assumes "store_call su f w = (r, w')"
  obtains (failed) e where "r = Inl e" "untouched su w w'"
  | (made) a st where "r = Inr a" "f (wd_calls w) (su_between su (wd_calls w) (wd_stores w)) = Ok (a, st)"
      "w' = \<lparr>wd_stores = st, wd_calls = Suc (wd_calls w)\<rparr>"
proof -
  show thesis
    using assms failed made
    by (auto simp: store_call_def Let_def untouched_def split: if_splits sum.splits prod.splits)
qed

lemma harmless_read:
  assumes "\<And>n st a st'. f n st = Ok (a, st') \<Longrightarrow> st' = st"
  shows "writes_nothing su (store_call su f)"
  unfolding writes_nothing_def
proof (intro allI impI)
  fix w r w' assume "store_call su f w = (r, w')"
  then show "untouched su w w'"
    by (cases rule: store_call_cases) (auto dest: assms simp: untouched_def)
qed

lemma harmless_reads [harmless]: "writes_nothing su (call_recorded su who request_id)"
  "writes_nothing su (call_load su scope)" "writes_nothing su (call_on_cooldown su run_id user_id now)"
  unfolding call_recorded_def call_load_def call_on_cooldown_def by (auto intro: harmless_read)

text \<open>An empty commit checks and writes nothing.\<close>

lemma harmless_empty_commit [harmless]: "writes_nothing su (call_commit su revision [] meta)"
  unfolding call_commit_def call_commit_with_def
proof (rule harmless_read)
  fix n st a st'
  assume "res_bind (commit_with_decline_notices (su_codec su) (su_ident su n) revision [] meta [] []
      (st_ledger st, st_declines st)) (\<lambda>(out, lg, ns). Ok (out, st\<lparr>st_ledger := lg, st_declines := ns\<rparr>)) = Ok (a, st')"
  then obtain lg where c: "ledger_commit (su_codec su) (su_ident su n) revision [] meta (st_ledger st) = Ok (a, lg)"
    "st' = st\<lparr>st_ledger := lg, st_declines := st_declines st\<rparr>"
    by (auto simp: commit_with_none res_bind_Ok_iff)
  from c(1) show "st' = st" by (cases rule: ledger_commitE) (simp_all add: c(2))
qed

lemma harmless_check_request [harmless]: "writes_nothing su (check_request su meta)"
  unfolding check_request_def by (auto intro!: harmless split: option.splits)

lemma harmless_explain_refusal [harmless]: "writes_nothing su (explain_refusal su revision meta err)"
  unfolding explain_refusal_def by (auto intro!: harmless)

lemma harmless_check_no_op [harmless]: "writes_nothing su (check_no_op su revision meta)"
proof -
  have fields: "writes_nothing su
     (sv_match (call_commit su revision [] meta) (\<lambda>r.
        case r of
          Inl (CfStale stale) \<Rightarrow>
            let gone = filter sf_target_deleted stale
            in if gone = [] then sv_ret () else sv_fail (SeStaleEdit gone)
        | Inl (CfPrecondition refusal) \<Rightarrow> sv_fail (SePrecondition refusal)
        | _ \<Rightarrow> sv_ret ()))"
    by (rule harmless_match [OF harmless_empty_commit])
      (auto simp: Let_def intro!: harmless split: sum.splits commit_failure.splits)
  show ?thesis
    unfolding check_no_op_def using fields by (auto intro!: harmless split: list.splits)
qed

lemma sv_bind_cases:
  assumes "sv_bind m k w = (r, w')"
  obtains (failed) e where "m w = (Inl e, w')" "r = Inl e"
  | (went) a w1 where "m w = (Inr a, w1)" "k a w1 = (r, w')"
  using assms by (auto simp: sv_bind_def sv_match_def sv_fail_def split: prod.splits sum.splits)

lemma sv_check_cases:
  assumes "sv_check x k w = (r, w')"
  obtains (failed) e where "x = Inl e" "r = Inl e" "w' = w"
  | (went) a where "x = Inr a" "k a w = (r, w')"
  using assms by (auto simp: sv_check_def sv_fail_def split: sum.splits)

section \<open>Rounds\<close>

text \<open>The store as the next call finds it.\<close>

definition found :: "surroundings \<Rightarrow> world \<Rightarrow> stores" where
  "found su w = su_between su (wd_calls w) (wd_stores w)"

definition wrote ::
  "surroundings \<Rightarrow> nat \<Rightarrow> change list \<Rightarrow> change_meta \<Rightarrow> decline_notice list \<Rightarrow> (str \<times> str) list
    \<Rightarrow> world \<Rightarrow> world \<Rightarrow> bool" where
  "wrote su revision changes meta cs rs w w' \<longleftrightarrow>
     (\<exists>c lg ns.
        commit_with_decline_notices (su_codec su) (su_ident su (wd_calls w)) revision changes meta cs rs
          (st_ledger (found su w), st_declines (found su w)) = Ok (Some c, lg, ns) \<and> \<not> ct_replayed c \<and>
        w' = \<lparr>wd_stores = \<lparr>st_ledger = lg, st_declines = ns\<rparr>, wd_calls = Suc (wd_calls w)\<rparr>)"

text \<open>The plan made on the rows of a scope as a load finds them.\<close>

definition planned_at ::
  "service \<Rightarrow> scope \<Rightarrow> 'a plan \<Rightarrow> id_source \<Rightarrow> world \<Rightarrow> 'a \<Rightarrow> draft \<Rightarrow> id_source \<Rightarrow> bool" where
  "planned_at sv scope work ids w v d ids' \<longleftrightarrow>
     work (service_draft sv (load_scope (su_unproven (sv_around sv) (wd_calls w)) scope
       (lg_db (st_ledger (found (sv_around sv) w)))), ids) = Ok (v, d, ids')"

text \<open>The world directly after a load.\<close>

definition loaded_at :: "service \<Rightarrow> world \<Rightarrow> world" where
  "loaded_at sv w = \<lparr>wd_stores = found (sv_around sv) w, wd_calls = Suc (wd_calls w)\<rparr>"

lemma untouched_loaded: "untouched (sv_around sv) w (loaded_at sv w)"
  by (simp add: untouched_def loaded_at_def found_def)

lemma load_revision [simp]: "sn_revision (load_scope unproven scope db) = db_revision db"
  by (simp add: load_scope_def snapshot_sort_def Let_def)

text \<open>A commit of changes fails, is an earlier one again, or writes.\<close>

lemma call_commit_cases:
  assumes "call_commit_with su revision changes meta cs rs w = (r, w')" "changes \<noteq> []"
  obtains (failed) e where "r = Inl e" "untouched su w w'"
  | (earlier) c where "r = Inr (Some c)" "ct_replayed c" "untouched su w w'"
  | (written) c where "r = Inr (Some c)" "\<not> ct_replayed c" "wrote su revision changes meta cs rs w w'"
  using assms(1) [unfolded call_commit_with_def]
proof (cases rule: store_call_cases)
  case (made out st)
  let ?st = "found su w"
  obtain lg ns where m: "commit_with_decline_notices (su_codec su) (su_ident su (wd_calls w)) revision changes meta
      cs rs (st_ledger ?st, st_declines ?st) = Ok (out, lg, ns)" "st = \<lparr>st_ledger = lg, st_declines = ns\<rparr>"
    using made(2) by (auto simp: res_bind_Ok_iff found_def)
  have new: "out \<noteq> None"
    using commit_with_plain [OF m(1)] assms(2) by (auto simp: ledger_commit_def Let_def res_bind_Ok_iff split: option.splits if_splits)
  then obtain c where out: "out = Some c" by auto
  show thesis
  proof (cases "ct_replayed c")
    case True
    have "lg = st_ledger ?st \<and> ns = st_declines ?st"
      using commit_with_rows [OF m(1)] True out by auto
    then have "untouched su w w'" using m(2) by (simp add: untouched_def made(3) found_def)
    then show thesis using earlier True out made(1) by simp
  next
    case False
    then have "wrote su revision changes meta cs rs w w'"
      using m made(3) out by (auto simp: wrote_def)
    then show thesis using written False out made(1) by simp
  qed
qed (rule failed)

lemma settle_commit_cases:
  assumes "settle_commit (call_commit_with su revision changes meta cs rs) written retry w = (r, w')" "changes \<noteq> []"
  obtains (refused) e where "r = Inl e" "untouched su w w'"
  | (retried) e w1 where "retry e w1 = (r, w')" "untouched su w w1"
  | (written) c where "r = Ok (written (Some c))" "wrote su revision changes meta cs rs w w'"
proof -
  obtain r1 w1 where c: "call_commit_with su revision changes meta cs rs w = (r1, w1)"
    "(case r1 of
        Inr (Some c) \<Rightarrow> if ct_replayed c then sv_fail (already_applied c) else sv_ret (written (Some c))
      | Inr None \<Rightarrow> sv_ret (written None)
      | Inl e \<Rightarrow> retry e) w1 = (r, w')"
    using assms(1) by (auto simp: settle_commit_def sv_match_def split: prod.splits)
  from c(1) assms(2) show thesis
    by (cases rule: call_commit_cases) (use c(2) refused retried written in \<open>auto simp: sv_fail_def sv_ret_def\<close>)
qed

lemma planned_round_cases:
  assumes "planned_round sv meta scope work unchanged write ids w = (r, w')"
  obtains (refused) e where "r = Inl e" "untouched (sv_around sv) w w'"
  | (unchanged) v d ids' where "planned_at sv scope work ids w v d ids'" "into_changes d = []"
      "r = Ok (unchanged v ids')" "untouched (sv_around sv) (loaded_at sv w) w'"
  | (writing) v d ids' w1 where "planned_at sv scope work ids w v d ids'" "into_changes d \<noteq> []"
      "write (db_revision (lg_db (st_ledger (found (sv_around sv) w)))) (into_changes d) v ids' w1 = (r, w')"
      "wd_stores w1 = found (sv_around sv) w" "wd_calls w1 = Suc (wd_calls w)"
proof -
  let ?su = "sv_around sv"
  obtain r1 w1 where c: "call_load ?su scope w = (r1, w1)"
    "case_sum (\<lambda>e. sv_fail (SeStore e)) (\<lambda>snapshot.
       case work (service_draft sv snapshot, ids) of
         Inl err \<Rightarrow> explain_refusal ?su (sn_revision snapshot) meta err
       | Inr (v, d, ids') \<Rightarrow>
           let changes = into_changes d in
           if changes = [] then
             sv_bind (check_no_op ?su (sn_revision snapshot) meta) (\<lambda>_. sv_ret (unchanged v ids'))
           else write (sn_revision snapshot) changes v ids') r1 w1 = (r, w')"
    using assms by (auto simp: planned_round_def sv_call_def sv_match_def split: prod.splits)
  from c(1) [unfolded call_load_def] show thesis
  proof (cases rule: store_call_cases)
    case (failed e)
    then show thesis using refused c(2) by (auto simp: sv_fail_def)
  next
    case (made snapshot st)
    have st: "st = found ?su w" and snap: "snapshot = load_scope (su_unproven ?su (wd_calls w)) scope (lg_db (st_ledger st))"
      using made(2) by (auto simp: found_def)
    have u: "untouched ?su w w1" by (simp add: untouched_def made(3) st found_def)
    show thesis
    proof (cases "work (service_draft sv snapshot, ids)")
      case (Inl err)
      then have e: "explain_refusal ?su (sn_revision snapshot) meta err w1 = (r, w')" using c(2) made(1) by simp
      moreover have "\<exists>e. r = Inl e"
        using e by (auto simp: explain_refusal_def sv_fail_def sv_match_def split: if_splits prod.splits)
      ultimately show thesis
        using refused untouched_trans [OF u writes_nothingD [OF harmless_explain_refusal]] by blast
    next
      case (Inr out)
      then obtain v d ids' where p: "work (service_draft sv snapshot, ids) = Ok (v, d, ids')" by (cases out) auto
      have p2: "planned_at sv scope work ids w v d ids'" using p snap st by (simp add: planned_at_def)
      show thesis
      proof (cases "into_changes d = []")
        case True
        obtain r2 w2 where n: "check_no_op ?su (sn_revision snapshot) meta w1 = (r2, w2)"
          "(case r2 of Inl e \<Rightarrow> (Inl e, w2) | Inr _ \<Rightarrow> (Ok (unchanged v ids'), w2)) = (r, w')"
          using c(2) made(1) p True
          by (cases "check_no_op ?su (sn_revision snapshot) meta w1")
             (auto simp: sv_bind_def sv_match_def sv_fail_def sv_ret_def split: sum.splits)
        note u2 = writes_nothingD [OF harmless_check_no_op n(1)]
        have "w1 = loaded_at sv w" by (simp add: loaded_at_def made(3) st)
        then show thesis using refused unchanged [OF p2 True] untouched_trans [OF u u2] u2 n(2) by (cases r2) auto
      next
        case False
        then show thesis using writing [OF p2 False] c(2) made p st snap by simp
      qed
    qed
  qed
qed

section \<open>Transactions\<close>

text \<open>One attempt's plan and the one commit of it.\<close>

definition carried_out ::
  "service \<Rightarrow> scope \<Rightarrow> 'a plan \<Rightarrow> (nat \<Rightarrow> change list \<Rightarrow> 'a \<Rightarrow> world \<Rightarrow> world \<Rightarrow> bool)
    \<Rightarrow> world \<Rightarrow> 'a \<Rightarrow> id_source \<Rightarrow> world \<Rightarrow> bool" where
  "carried_out sv scope work written w v ids' w' \<longleftrightarrow>
     (\<exists>w1 ids0 d. untouched (sv_around sv) w w1 \<and> planned_at sv scope work ids0 w1 v d ids' \<and>
        (if into_changes d = [] then untouched (sv_around sv) (loaded_at sv w1) w'
         else
           written (db_revision (lg_db (st_ledger (found (sv_around sv) w1)))) (into_changes d) v (loaded_at sv w1) w'))"

lemma carried_out_later:
  "untouched (sv_around sv) w w1 \<Longrightarrow> carried_out sv scope work written w1 v ids' w' \<Longrightarrow>
   carried_out sv scope work written w v ids' w'"
  unfolding carried_out_def using untouched_trans by blast

definition committed_meta :: "service \<Rightarrow> change_meta \<Rightarrow> ('a \<Rightarrow> str list \<times> notice list) \<Rightarrow> 'a \<Rightarrow> change_meta" where
  "committed_meta sv meta notices v =
     meta\<lparr>cm_at := sv_now sv, cm_notices := fst (notices v), cm_outbox := snd (notices v)\<rparr>"

definition transact_wrote ::
  "service \<Rightarrow> change_meta \<Rightarrow> ('a \<Rightarrow> str list \<times> notice list) \<Rightarrow> nat \<Rightarrow> change list \<Rightarrow> 'a \<Rightarrow> world \<Rightarrow> world \<Rightarrow> bool" where
  "transact_wrote sv meta notices revision changes v w w' \<longleftrightarrow>
     wrote (sv_around sv) revision changes (committed_meta sv meta notices v) [] [] w w'"

text \<open>How an operation ends: refused and without an effect, or with the result of a plan carried out.\<close>

definition round_ends ::
  "service \<Rightarrow> scope \<Rightarrow> 'a plan \<Rightarrow> (nat \<Rightarrow> change list \<Rightarrow> 'a \<Rightarrow> world \<Rightarrow> world \<Rightarrow> bool) \<Rightarrow> ('a \<Rightarrow> id_source \<Rightarrow> 'v \<Rightarrow> bool)
    \<Rightarrow> world \<Rightarrow> scheduler_error + 'v \<Rightarrow> world \<Rightarrow> bool" where
  "round_ends sv scope work written R w r w' \<longleftrightarrow>
     (case r of
        Inl _ \<Rightarrow> untouched (sv_around sv) w w'
      | Inr res \<Rightarrow> \<exists>v ids'. carried_out sv scope work written w v ids' w' \<and> R v ids' res)"

lemma round_ends_later:
  "untouched (sv_around sv) w w1 \<Longrightarrow> round_ends sv scope work written R w1 r w' \<Longrightarrow>
   round_ends sv scope work written R w r w'"
  unfolding round_ends_def using untouched_trans carried_out_later by (cases r) fastforce+

lemma round_ends_refused:
  "r = Inl e \<Longrightarrow> untouched (sv_around sv) w w' \<Longrightarrow> round_ends sv scope work written R w r w'"
  by (simp add: round_ends_def)

lemma round_ends_failed: "store_failed e w = (r, w') \<Longrightarrow> round_ends sv scope work written R w r w'"
  by (auto simp: store_failed_def sv_fail_def round_ends_def)

text \<open>A round whose write either commits its plan or ends like some later round.\<close>

lemma round_effect:
  assumes "planned_round sv meta scope work unchanged write ids w = (r, w')"
    and nothing: "\<And>v ids'. R v ids' (unchanged v ids')"
    and writes: "\<And>revision changes v ids' w1. write revision changes v ids' w1 = (r, w') \<Longrightarrow> changes \<noteq> [] \<Longrightarrow>
      (\<exists>res. r = Ok res \<and> written revision changes v w1 w' \<and> R v ids' res) \<or> round_ends sv scope work written R w1 r w'"
  shows "round_ends sv scope work written R w r w'"
  using assms(1)
proof (cases rule: planned_round_cases)
  case (refused e)
  then show ?thesis by (rule round_ends_refused)
next
  case (unchanged v d ids')
  then have "carried_out sv scope work written w v ids' w'"
    unfolding carried_out_def by (auto intro!: exI [of _ w] exI [of _ ids] exI [of _ d])
  moreover have "R v ids' (unchanged v ids')" by (rule assms(2))
  ultimately show ?thesis unfolding round_ends_def unchanged(3) sum.case by blast
next
  case (writing v d ids' w1)
  let ?su = "sv_around sv"
  have u: "untouched ?su w w1" by (simp add: untouched_def writing(4,5) found_def)
  have w1: "w1 = loaded_at sv w" using writing(4,5) by (simp add: loaded_at_def)
  from writes [OF writing(3,2)] consider
      res where "r = Ok res" "written (db_revision (lg_db (st_ledger (found ?su w)))) (into_changes d) v w1 w'" "R v ids' res"
    | "round_ends sv scope work written R w1 r w'" by auto
  then show ?thesis
  proof cases
    case 1
    then have "carried_out sv scope work written w v ids' w'"
      using writing(1,2) w1 unfolding carried_out_def by (auto intro!: exI [of _ w] exI [of _ ids] exI [of _ d])
    then show ?thesis using 1 unfolding round_ends_def by auto
  qed (rule round_ends_later [OF u])
qed

text \<open>The same for a write that settles one commit.\<close>

lemma settle_effect:
  assumes "settle_commit (call_commit_with (sv_around sv) revision changes meta cs rs) result retry w = (r, w')"
    and "changes \<noteq> []" and retry: "\<And>e w1. retry e w1 = (r, w') \<Longrightarrow> round_ends sv scope work written R w1 r w'"
  shows "(\<exists>c. r = Ok (result (Some c)) \<and> wrote (sv_around sv) revision changes meta cs rs w w') \<or>
    round_ends sv scope work written R w r w'"
  using assms(1,2)
proof (cases rule: settle_commit_cases)
  case (refused e)
  then show ?thesis using round_ends_refused by blast
next
  case (retried e w1)
  then show ?thesis using round_ends_later [OF retried(2) retry [OF retried(1)]] by simp
qed auto

abbreviation transact_ends ::
  "service \<Rightarrow> change_meta \<Rightarrow> scope \<Rightarrow> 'a plan \<Rightarrow> ('a \<Rightarrow> str list \<times> notice list) \<Rightarrow> world
    \<Rightarrow> scheduler_error + 'a \<times> id_source \<Rightarrow> world \<Rightarrow> bool" where
  "transact_ends sv meta scope work notices \<equiv>
     round_ends sv scope work (transact_wrote sv meta notices) (\<lambda>v ids res. res = (v, ids))"

lemma transact_write_effect:
  assumes "transact_write sv meta notices retry revision changes v ids w = (r, w')" "changes \<noteq> []"
    and "\<And>e w1. retry e ids w1 = (r, w') \<Longrightarrow> transact_ends sv meta scope work notices w1 r w'"
  shows "(\<exists>res. r = Ok res \<and> transact_wrote sv meta notices revision changes v w w' \<and> res = (v, ids)) \<or>
    transact_ends sv meta scope work notices w r w'"
  using settle_effect [OF assms(1) [unfolded transact_write_def call_commit_def] assms(2), OF assms(3)]
  by (auto simp: transact_wrote_def committed_meta_def)

lemma transact_loop_effect:
  "transact_loop spare sv meta scope work notices ids w = (r, w') \<Longrightarrow> transact_ends sv meta scope work notices w r w'"
proof (induction spare arbitrary: ids w)
  case 0
  show ?case
    by (rule round_effect [OF 0 [unfolded transact_loop.simps]])
      (auto dest!: transact_write_effect intro: round_ends_failed)
next
  case (Suc spare)
  have retry: "transact_ends sv meta scope work notices w1 r w'"
    if "(if is_conflict e then transact_loop spare sv meta scope work notices ids' else store_failed e) w1 = (r, w')"
    for e ids' w1
    using that by (auto split: if_splits intro: Suc.IH round_ends_failed)
  show ?case
    by (rule round_effect [OF Suc.prems [unfolded transact_loop.simps]])
      (auto dest!: transact_write_effect intro: retry)
qed

lemma transact_effect:
  assumes "transact_as sv meta scope work notices w = (r, w')"
  shows "transact_ends sv meta scope work notices w r w'"
  using assms unfolding transact_as_def
proof (cases rule: sv_bind_cases)
  case (failed e)
  then show ?thesis using writes_nothingD [OF harmless_check_request failed(1)] round_ends_refused by blast
next
  case (went x w1)
  show ?thesis
    by (rule round_ends_later [OF writes_nothingD [OF harmless_check_request went(1)] transact_loop_effect [OF went(2)]])
qed

end
