(* ===== verification/ServiceOps.thy ===== *)
theory ServiceOps
  imports ServiceRuns
begin

text \<open>
  The methods of an attributed handle (\<open>scheduler/service.rs\<close>): the operation each applies, the rows
  it loads, its guard, and the value it takes out of the operation's result. A value is \<open>None\<close> where
  the source would panic (\<open>unreachable!\<close>).
\<close>

section \<open>Results\<close>

fun res_created :: "op_result \<Rightarrow> str option" where
  "res_created (OCreated i) = Some i"
| "res_created _ = None"

fun res_ids :: "op_result \<Rightarrow> str list option" where
  "res_ids (OIds is) = Some is"
| "res_ids _ = None"

fun res_count :: "op_result \<Rightarrow> nat option" where
  "res_count (OCount n) = Some n"
| "res_count _ = None"

fun res_changed :: "op_result \<Rightarrow> bool option" where
  "res_changed (OChanged b) = Some b"
| "res_changed _ = None"

fun res_reaction :: "op_result \<Rightarrow> reaction_result option" where
  "res_reaction (OReaction r) = Some r"
| "res_reaction _ = None"

fun res_reminder :: "op_result \<Rightarrow> str option option" where
  "res_reminder (OReminder i) = Some i"
| "res_reminder _ = None"

fun res_fixed :: "op_result \<Rightarrow> fixed_run option" where
  "res_fixed (OFixed row) = Some row"
| "res_fixed _ = None"

fun res_run_state :: "op_result \<Rightarrow> run_state option" where
  "res_run_state (ORun state) = Some state"
| "res_run_state _ = None"

fun res_runs :: "op_result \<Rightarrow> run_state list option" where
  "res_runs (ORuns states) = Some states"
| "res_runs _ = None"

fun res_party_delta :: "op_result \<Rightarrow> party_delta_result option" where
  "res_party_delta (OPartyDelta delta) = Some delta"
| "res_party_delta _ = None"

text \<open>The method's value without the notices, with them, and none.\<close>

definition taking ::
  "(op_result \<Rightarrow> 'a option) \<Rightarrow> (op_result outcome \<times> id_source) served \<Rightarrow> ('a option \<times> id_source) served" where
  "taking take' m = sv_bind m (\<lambda>(oc, ids). sv_ret (take' (oc_value oc), ids))"

definition announcing ::
  "(op_result \<Rightarrow> 'a option) \<Rightarrow> (op_result outcome \<times> id_source) served
    \<Rightarrow> ('a outcome option \<times> id_source) served" where
  "announcing take' m =
     sv_bind m (\<lambda>(oc, ids).
       sv_ret (map_option (\<lambda>v. \<lparr>oc_value = v, oc_notices = oc_notices oc\<rparr>) (take' (oc_value oc)), ids))"

definition discarding :: "(op_result outcome \<times> id_source) served \<Rightarrow> (unit \<times> id_source) served" where
  "discarding m = sv_bind m (\<lambda>(_, ids). sv_ret ((), ids))"

section \<open>Weeks\<close>

definition weeks_scope :: "aware list \<Rightarrow> schedule_error + scope" where
  "weeks_scope weeks = res_bind (res_map_err DateError (res_list utc_instant weeks)) (\<lambda>is. Ok (ScopeWeeks is))"

definition week_starts_of :: "aware list \<Rightarrow> reminder_policy \<Rightarrow> schedule_error + week_start list" where
  "week_starts_of weeks policy = res_map_err DateError (res_list (\<lambda>week. week_start_new week (rp_zone policy)) weeks)"

definition member_weeks :: "schedule_policy \<Rightarrow> instant \<Rightarrow> nat \<Rightarrow> schedule_error + instant list" where
  "member_weeks policy now n =
     res_bind (res_map_err DateError (materialised_weeks policy now)) (\<lambda>weeks.
     res_map_err DateError (res_list (\<lambda>week. utc_instant (AtZoned week)) (take n weeks)))"

definition planned_first :: "schedule_error + 'a \<Rightarrow> ('a \<Rightarrow> 'b served) \<Rightarrow> 'b served" where
  "planned_first r k = sv_check (res_map_err SeSchedule r) k"

section \<open>Weekly timings\<close>

definition service_add_fixed_run :: "attributed \<Rightarrow> new_fixed_run \<Rightarrow> (str option \<times> id_source) served" where
  "service_add_fixed_run aw new = taking res_created (apply_as aw (ScopeWeeks []) (AddFixedRun new))"

definition service_add_fixed_run_materialised ::
  "attributed \<Rightarrow> new_fixed_run \<Rightarrow> schedule_policy \<Rightarrow> (str option \<times> id_source) served" where
  "service_add_fixed_run_materialised aw new policy =
     taking res_created (apply_as aw ScopeAll (AddFixedRunMaterialised new policy))"

definition service_edit_fixed_run ::
  "attributed \<Rightarrow> str \<Rightarrow> fixed_run_patch \<Rightarrow> fixed_field list \<Rightarrow> aware list \<Rightarrow> reminder_policy
    \<Rightarrow> (nat option \<times> id_source) served" where
  "service_edit_fixed_run aw fixed_id patch changed weeks policy =
     planned_first (weeks_scope weeks) (\<lambda>scope.
     planned_first (week_starts_of weeks policy) (\<lambda>starts.
     taking res_count (apply_as aw scope (EditFixedRun fixed_id patch changed starts policy))))"

definition service_retire_fixed_run ::
  "attributed \<Rightarrow> str \<Rightarrow> aware list \<Rightarrow> reminder_policy \<Rightarrow> (nat option \<times> id_source) served" where
  "service_retire_fixed_run aw fixed_id weeks policy =
     planned_first (weeks_scope weeks) (\<lambda>scope.
     planned_first (week_starts_of weeks policy) (\<lambda>starts.
     taking res_count (apply_as aw scope (RetireFixedRun fixed_id starts policy))))"

definition service_apply_fixed_edit ::
  "attributed \<Rightarrow> fixed_edit_request \<Rightarrow> directory \<Rightarrow> schedule_policy \<Rightarrow> (fixed_run outcome option \<times> id_source) served"
where
  "service_apply_fixed_edit aw request dir policy =
     announcing res_fixed (apply_as aw ScopeAll (ApplyFixedEdit request dir policy))"

definition service_apply_fixed_patch_edit ::
  "attributed \<Rightarrow> fixed_edit_request \<Rightarrow> str \<Rightarrow> directory \<Rightarrow> schedule_policy
    \<Rightarrow> (fixed_run outcome option \<times> id_source) served" where
  "service_apply_fixed_patch_edit aw request identity dir policy =
     announcing res_fixed (apply_fixed_patch aw ScopeAll (ApplyFixedEdit request dir policy) identity)"

text \<open>An owner is pinned only if the pin holds on the committed timing.\<close>

definition owner_edit :: "str \<Rightarrow> owner_pin \<Rightarrow> fixed_edit_request" where
  "owner_edit fixed_id pin =
     \<lparr>er_fixed_id = fixed_id,
      er_edit = \<lparr>e_bosses = None, e_weekday = None, e_time = None, e_participants = None, e_channel_id = None,
                 e_note = None, e_owner_id = Some (owner_pin_owner pin)\<rparr>,
      er_choices = UpdateAll\<rparr>"

definition owner_guard :: "str \<Rightarrow> owner_pin \<Rightarrow> draft \<Rightarrow> instant \<Rightarrow> schedule_error + unit" where
  "owner_guard fixed_id pin d now =
     res_bind (ok_or (UnknownFixedRun fixed_id) (draft_fixed_run d fixed_id)) (\<lambda>fixed.
     res_map_err Ownership (owner_pin_check pin fixed))"

definition service_pin_fixed_owner ::
  "attributed \<Rightarrow> str \<Rightarrow> owner_pin \<Rightarrow> directory \<Rightarrow> schedule_policy \<Rightarrow> (fixed_run option \<times> id_source) served" where
  "service_pin_fixed_owner aw fixed_id pin dir policy =
     taking res_fixed
       (apply_guarded aw ScopeAll (ApplyFixedEdit (owner_edit fixed_id pin) dir policy) (owner_guard fixed_id pin))"

definition service_update_fixed ::
  "attributed \<Rightarrow> str \<Rightarrow> fixed_edit \<Rightarrow> directory \<Rightarrow> schedule_policy \<Rightarrow> (fixed_run outcome option \<times> id_source) served"
where
  "service_update_fixed aw fixed_id change dir policy =
     service_apply_fixed_edit aw \<lparr>er_fixed_id = fixed_id, er_edit = change, er_choices = UpdateAll\<rparr> dir policy"

definition service_change_fixed_party ::
  "attributed \<Rightarrow> str \<Rightarrow> str list \<Rightarrow> str list \<Rightarrow> directory \<Rightarrow> schedule_policy
    \<Rightarrow> (party_delta_result outcome option \<times> id_source) served" where
  "service_change_fixed_party aw fixed_id added gone dir policy =
     announcing res_party_delta (apply_as aw ScopeAll (FixedParticipants fixed_id added gone dir policy))"

section \<open>Runs\<close>

definition service_create_run :: "attributed \<Rightarrow> new_run \<Rightarrow> (str option \<times> id_source) served" where
  "service_create_run aw new = taking res_created (apply_as aw (ScopeWeeks [nr_week_start new]) (CreateRun new))"

definition service_materialise_week ::
  "attributed \<Rightarrow> aware \<Rightarrow> reminder_policy \<Rightarrow> (str list option \<times> id_source) served" where
  "service_materialise_week aw week policy =
     planned_first (weeks_scope [week]) (\<lambda>scope.
     planned_first (res_map_err DateError (week_start_new week (rp_zone policy))) (\<lambda>start.
     taking res_ids (apply_as aw scope (MaterialiseWeek start policy))))"

definition service_materialise_weeks :: "attributed \<Rightarrow> schedule_policy \<Rightarrow> (str list option \<times> id_source) served" where
  "service_materialise_weeks aw policy = taking res_ids (apply_as aw ScopeAll (MaterialiseWeeks policy))"

definition service_set_run_status :: "attributed \<Rightarrow> str \<Rightarrow> run_status \<Rightarrow> (unit \<times> id_source) served" where
  "service_set_run_status aw run_id status = discarding (apply_as aw (ScopeRun run_id) (SetRunStatus run_id status))"

definition service_set_rsvp ::
  "attributed \<Rightarrow> str \<Rightarrow> str \<Rightarrow> rsvp_state \<Rightarrow> rsvp_source \<Rightarrow> (unit \<times> id_source) served" where
  "service_set_rsvp aw run_id user_id state source =
     discarding (apply_as aw (ScopeRun run_id) (SetRsvp run_id user_id state source))"

definition service_apply_reaction ::
  "attributed \<Rightarrow> str \<Rightarrow> str \<Rightarrow> str \<Rightarrow> bool \<Rightarrow> (reaction_result option \<times> id_source) served" where
  "service_apply_reaction aw run_id user_id emoji added =
     taking res_reaction (apply_as aw (ScopeRun run_id) (ApplyReaction run_id user_id emoji added))"

definition service_finish_run :: "attributed \<Rightarrow> str \<Rightarrow> (bool option \<times> id_source) served" where
  "service_finish_run aw run_id = taking res_changed (apply_as aw (ScopeRun run_id) (FinishRun run_id))"

definition service_settle_run ::
  "attributed \<Rightarrow> settle_press \<Rightarrow> reminder_policy \<Rightarrow> (bool option \<times> id_source) served" where
  "service_settle_run aw settle policy =
     taking res_changed (apply_as aw (ScopeRun (se_run_id settle)) (SettleRun settle policy))"

definition service_set_status ::
  "attributed \<Rightarrow> str \<Rightarrow> status_change \<Rightarrow> reminder_policy \<Rightarrow> (run_state outcome option \<times> id_source) served" where
  "service_set_status aw run_id change policy =
     announcing res_run_state (apply_as aw (ScopeRun run_id) (SetStatus run_id change policy))"

definition service_amend_run ::
  "attributed \<Rightarrow> str \<Rightarrow> instant \<Rightarrow> schedule_policy \<Rightarrow> (run_state outcome option \<times> id_source) served" where
  "service_amend_run aw run_id slot policy =
     announcing res_run_state (apply_as aw ScopeAll (AmendRun run_id slot policy))"

definition service_reschedule_run ::
  "attributed \<Rightarrow> str \<Rightarrow> instant \<Rightarrow> schedule_policy \<Rightarrow> (run_state outcome option \<times> id_source) served" where
  "service_reschedule_run aw run_id slot policy =
     announcing res_run_state (apply_as aw ScopeAll (RescheduleRun run_id slot policy))"

text \<open>A member moves their own run: the refusals are read on the committed revision.\<close>

definition member_guard ::
  "str \<Rightarrow> str \<Rightarrow> instant option \<Rightarrow> nat \<Rightarrow> schedule_policy \<Rightarrow> draft \<Rightarrow> instant \<Rightarrow> schedule_error + unit" where
  "member_guard member run_id slot n policy d now =
     res_bind (require_run run_id d) (\<lambda>run.
     res_bind (member_weeks policy now n) (\<lambda>weeks.
     res_map_err MemberRun (member_run_check run member weeks slot (draft_ended d run now) now)))"

definition service_member_amend_run ::
  "attributed \<Rightarrow> str \<Rightarrow> str \<Rightarrow> instant \<Rightarrow> schedule_policy \<Rightarrow> (run_state outcome option \<times> id_source) served" where
  "service_member_amend_run aw member run_id slot policy =
     announcing res_run_state
       (apply_guarded aw ScopeAll (AmendRun run_id slot policy) (member_guard member run_id (Some slot) 1 policy))"

definition service_swap_run_slots_at_version ::
  "attributed \<Rightarrow> str \<Rightarrow> str \<Rightarrow> nat option \<Rightarrow> schedule_policy \<Rightarrow> (run_state list outcome option \<times> id_source) served"
where
  "service_swap_run_slots_at_version aw run_id with_id version policy =
     announcing res_runs (apply_as aw ScopeAll (SwapRunSlots run_id with_id version policy))"

definition service_swap_run_slots ::
  "attributed \<Rightarrow> str \<Rightarrow> str \<Rightarrow> schedule_policy \<Rightarrow> (run_state list outcome option \<times> id_source) served" where
  "service_swap_run_slots aw run_id with_id policy = service_swap_run_slots_at_version aw run_id with_id None policy"

definition service_swap_participants ::
  "attributed \<Rightarrow> str \<Rightarrow> str list \<Rightarrow> str list \<Rightarrow> bool \<Rightarrow> directory \<Rightarrow> (run_state outcome option \<times> id_source) served"
where
  "service_swap_participants aw run_id gone added via_portal dir =
     announcing res_run_state (apply_as aw (ScopeRun run_id) (SwapParticipants run_id gone added via_portal dir))"

definition service_reset_to_fixed ::
  "attributed \<Rightarrow> str \<Rightarrow> schedule_policy \<Rightarrow> (run_state outcome option \<times> id_source) served" where
  "service_reset_to_fixed aw run_id policy =
     announcing res_run_state (apply_as aw (ScopeRun run_id) (ResetToFixed run_id policy))"

definition service_recount_attendance :: "attributed \<Rightarrow> (str list option \<times> id_source) served" where
  "service_recount_attendance aw = taking res_ids (apply_as aw ScopeAll RecountAttendance)"

section \<open>Reminders\<close>

definition service_ensure_reminders ::
  "attributed \<Rightarrow> str \<Rightarrow> reminder_policy \<Rightarrow> bool \<Rightarrow> (str list option \<times> id_source) served" where
  "service_ensure_reminders aw run_id policy rebuild =
     taking res_ids (apply_as aw (ScopeRun run_id) (EnsureReminders run_id rebuild policy))"

definition service_add_reminder ::
  "attributed \<Rightarrow> str \<Rightarrow> str \<Rightarrow> instant \<Rightarrow> instant option \<Rightarrow> (str option option \<times> id_source) served" where
  "service_add_reminder aw run_id kind fire_at sent_at =
     taking res_reminder (apply_as aw (ScopeRun run_id) (AddReminder run_id kind fire_at sent_at))"

definition service_mark_reminder_sent :: "attributed \<Rightarrow> str \<Rightarrow> str option \<Rightarrow> (unit \<times> id_source) served" where
  "service_mark_reminder_sent aw reminder_id message_id =
     discarding (apply_as aw (ScopeReminder reminder_id) (MarkReminderSent reminder_id message_id))"

definition service_reschedule_unposted_reminder ::
  "attributed \<Rightarrow> str \<Rightarrow> instant \<Rightarrow> (bool option \<times> id_source) served" where
  "service_reschedule_unposted_reminder aw reminder_id fire_at =
     taking res_changed (apply_as aw (ScopeReminder reminder_id) (RescheduleUnpostedReminder reminder_id fire_at))"

section \<open>Reading\<close>

definition service_preview_fixed_edit ::
  "service \<Rightarrow> str \<Rightarrow> fixed_edit \<Rightarrow> schedule_policy \<Rightarrow> amended_run list served" where
  "service_preview_fixed_edit sv fixed_id change policy =
     planned_first (check_policy sv policy) (\<lambda>_.
     sv_call (call_load (sv_around sv) ScopeAll) (\<lambda>snapshot.
     planned_first (preview_fixed_edit (service_draft sv snapshot) fixed_id change policy (sv_now sv)) sv_ret))"

definition service_reminders :: "service \<Rightarrow> str \<Rightarrow> reminder list served" where
  "service_reminders sv run_id =
     sv_call (call_load (sv_around sv) (ScopeRun run_id)) (\<lambda>snapshot.
     sv_ret (draft_reminders (draft_new snapshot) run_id))"

section \<open>Answers\<close>

text \<open>Set or clear one answer and derive the run's status again: whether it changed, and the run before.\<close>

definition answer_plan ::
  "str \<Rightarrow> str \<Rightarrow> rsvp_state option \<Rightarrow> instant \<Rightarrow> (bool \<times> bool \<times> run) plan" where
  "answer_plan run_id user_id answer now =
     bnd (get_run run_id) (\<lambda>before.
     if \<not> contains (r_participants before) user_id then fail (NotOnRun [user_id])
     else
       seq (not_ended run_id now)
       (bnd (reads (\<lambda>d. t_get (draft_rsvps d run_id) user_id = Some No)) (\<lambda>was_no.
        seq (edit (case answer of
                     Some state \<Rightarrow> set_rsvp run_id user_id state Chat now
                   | None \<Rightarrow> clear_rsvp run_id user_id))
        (bnd (get_run run_id) (\<lambda>after.
         bnd (reads (\<lambda>d. d_status (derive_run_status d after (r_status after) now))) (\<lambda>status.
         seq (only_if (status \<noteq> r_status after) (edit (set_run_status run_id status)))
         (ret (status \<noteq> r_status after, was_no, after))))))))"

definition service_portal_answer ::
  "attributed \<Rightarrow> str \<Rightarrow> str \<Rightarrow> rsvp_state option \<Rightarrow> (bool \<times> id_source) served" where
  "service_portal_answer aw run_id user_id answer =
     (let sv = aw_service aw; dg = su_digest (sv_around sv); ex = aw_expect aw in
      sv_check (res_map_err SePrecondition (expect_validate ex (og_actor (aw_origin aw)))) (\<lambda>_.
      transact_as sv
        (edit_meta (aw_origin aw) ex 0
          (expecting_digest dg (dg (lit ''portal_answer'') (DgAnswer run_id user_id answer)) ex))
        (ScopeRun run_id)
        (bnd (answer_plan run_id user_id answer (sv_now sv)) (\<lambda>(changed, _, _). ret changed))
        (\<lambda>_. (if ex_overrides ex \<noteq> [] then [edit_override] else [], []))))"

record decline_context =
  dc_channel_id :: "str option"
  dc_reference_id :: "str option"
  dc_display_name :: str

record 'a decline_result =
  dl_value :: 'a
  dl_declined :: bool
  dl_retract :: bool

text \<open>A plan that also says whether it declines, whether it takes a decline back, and the run's channel.\<close>

type_synonym 'a decline_plan = "('a \<times> bool \<times> bool \<times> str option) plan"

definition decline_candidates ::
  "attributed \<Rightarrow> str \<Rightarrow> str \<Rightarrow> decline_context \<Rightarrow> bool \<Rightarrow> str option \<Rightarrow> (decline_notice list \<Rightarrow> 'v served) \<Rightarrow> 'v served"
where
  "decline_candidates aw run_id user_id ctx declined' home k =
     (let sv = aw_service aw; now = sv_now sv in
      if declined' \<and> og_surface (aw_origin aw) \<noteq> Import then
        sv_call (call_on_cooldown (sv_around sv) run_id user_id now) (\<lambda>cooling.
        k (if cooling then []
           else [decline_candidate run_id user_id (or_else (dc_channel_id ctx) home) (dc_reference_id ctx)
                   (dc_display_name ctx) now]))
      else k [])"

definition decline_write ::
  "attributed \<Rightarrow> change_meta \<Rightarrow> str \<Rightarrow> str \<Rightarrow> decline_context
    \<Rightarrow> (commit_failure \<Rightarrow> id_source \<Rightarrow> ('a decline_result \<times> id_source) served)
    \<Rightarrow> nat \<Rightarrow> change list \<Rightarrow> 'a \<times> bool \<times> bool \<times> str option \<Rightarrow> id_source \<Rightarrow> ('a decline_result \<times> id_source) served"
where
  "decline_write aw meta run_id user_id ctx retry revision changes planned ids =
     (case planned of (v, declined', retract, home) \<Rightarrow>
        decline_candidates aw run_id user_id ctx declined' home (\<lambda>candidates.
        settle_commit
          (call_commit_with (sv_around (aw_service aw)) revision changes meta candidates
            (if retract then [(run_id, user_id)] else []))
          (\<lambda>_. (\<lparr>dl_value = v, dl_declined = declined', dl_retract = retract\<rparr>, ids))
          (\<lambda>e. retry e ids)))"

definition undeclined :: "'a \<times> bool \<times> bool \<times> str option \<Rightarrow> id_source \<Rightarrow> 'a decline_result \<times> id_source" where
  "undeclined planned ids = (\<lparr>dl_value = fst planned, dl_declined = False, dl_retract = False\<rparr>, ids)"

primrec decline_loop ::
  "nat \<Rightarrow> attributed \<Rightarrow> change_meta \<Rightarrow> str \<Rightarrow> str \<Rightarrow> decline_context \<Rightarrow> 'a decline_plan \<Rightarrow> id_source
    \<Rightarrow> ('a decline_result \<times> id_source) served" where
  "decline_loop 0 aw meta run_id user_id ctx work =
     planned_round (aw_service aw) meta (ScopeRun run_id) work undeclined
       (decline_write aw meta run_id user_id ctx (\<lambda>e _. store_failed e))"
| "decline_loop (Suc spare) aw meta run_id user_id ctx work =
     planned_round (aw_service aw) meta (ScopeRun run_id) work undeclined
       (decline_write aw meta run_id user_id ctx (\<lambda>e ids.
          if is_conflict e then decline_loop spare aw meta run_id user_id ctx work ids else store_failed e))"

definition commit_rsvp_with_decline ::
  "attributed \<Rightarrow> str \<Rightarrow> str \<Rightarrow> decline_context \<Rightarrow> str \<Rightarrow> 'a decline_plan \<Rightarrow> ('a decline_result \<times> id_source) served"
where
  "commit_rsvp_with_decline aw run_id user_id ctx request work =
     (let sv = aw_service aw; su = sv_around sv; ex = aw_expect aw;
          meta = edit_meta (aw_origin aw) ex (sv_now sv) (expecting_digest (su_digest su) request ex)
      in
      sv_check (res_map_err SePrecondition (expect_validate ex (og_actor (aw_origin aw)))) (\<lambda>_.
      sv_bind (check_request su meta) (\<lambda>_.
      decline_loop (commit_attempts - 1) aw meta run_id user_id ctx work (sv_ids sv))))"

definition reaction_decline_plan :: "str \<Rightarrow> str \<Rightarrow> str \<Rightarrow> bool \<Rightarrow> instant \<Rightarrow> reaction_result decline_plan" where
  "reaction_decline_plan run_id user_id emoji added now =
     bnd (reads (\<lambda>d. t_get (draft_rsvps d run_id) user_id = Some No)) (\<lambda>was_no.
     bnd (apply_reaction run_id user_id emoji added now) (\<lambda>result.
     bnd (get_run run_id) (\<lambda>run.
     ret (result, declined result, rr_applied result \<and> was_no \<and> rr_state result \<noteq> Some No, r_channel_id run))))"

definition service_apply_reaction_with_decline ::
  "attributed \<Rightarrow> str \<Rightarrow> str \<Rightarrow> str \<Rightarrow> bool \<Rightarrow> decline_context
    \<Rightarrow> (reaction_result decline_result \<times> id_source) served" where
  "service_apply_reaction_with_decline aw run_id user_id emoji added ctx =
     commit_rsvp_with_decline aw run_id user_id ctx
       (su_digest (sv_around (aw_service aw)) (lit ''apply_reaction'') (DgReaction run_id user_id emoji added))
       (reaction_decline_plan run_id user_id emoji added (sv_now (aw_service aw)))"

definition answer_decline_plan ::
  "str \<Rightarrow> str \<Rightarrow> rsvp_state option \<Rightarrow> schedule_policy option \<Rightarrow> instant \<Rightarrow> bool decline_plan" where
  "answer_decline_plan run_id user_id answer member now =
     bnd (reads (\<lambda>d. case member of
                       Some policy \<Rightarrow> member_guard user_id run_id None 2 policy d now
                     | None \<Rightarrow> Ok ())) (\<lambda>allowed.
     bnd (check allowed) (\<lambda>_.
     bnd (answer_plan run_id user_id answer now) (\<lambda>(changed, was_no, after).
     ret (changed, answer = Some No, was_no \<and> answer \<noteq> Some No, r_channel_id after))))"

definition answer_with_decline ::
  "attributed \<Rightarrow> str \<Rightarrow> str \<Rightarrow> rsvp_state option \<Rightarrow> decline_context \<Rightarrow> schedule_policy option
    \<Rightarrow> (bool decline_result \<times> id_source) served" where
  "answer_with_decline aw run_id user_id answer ctx member =
     commit_rsvp_with_decline aw run_id user_id ctx
       (su_digest (sv_around (aw_service aw)) (lit ''portal_answer'') (DgAnswer run_id user_id answer))
       (answer_decline_plan run_id user_id answer member (sv_now (aw_service aw)))"

definition service_portal_answer_with_decline ::
  "attributed \<Rightarrow> str \<Rightarrow> str \<Rightarrow> rsvp_state option \<Rightarrow> decline_context \<Rightarrow> (bool decline_result \<times> id_source) served" where
  "service_portal_answer_with_decline aw run_id user_id answer ctx =
     answer_with_decline aw run_id user_id answer ctx None"

definition service_member_answer_with_decline ::
  "attributed \<Rightarrow> str \<Rightarrow> str \<Rightarrow> rsvp_state \<Rightarrow> decline_context \<Rightarrow> schedule_policy
    \<Rightarrow> (bool decline_result \<times> id_source) served" where
  "service_member_answer_with_decline aw run_id user_id answer ctx policy =
     answer_with_decline aw run_id user_id (Some answer) ctx (Some policy)"

end
