(* ===== verification/ServiceLaws.thy ===== *)
theory ServiceLaws
  imports ServiceOps
begin

text \<open>
  The laws of the service's operations: the revision of a store names its rows, so a commit that was
  not refused was planned on the rows it changed; and every operation gives a result of its kind.
\<close>

section \<open>The revision names the rows\<close>

lemma append_db: "append_record cd ident revision meta keys before lg = Ok (c, lg') \<Longrightarrow> lg_db lg' = lg_db lg"
  by (erule append_recordE) (auto simp: insert_record_def res_bind_Ok_iff split: if_splits)

lemma commit_revision:
  assumes "ledger_commit cd ident expected changes meta lg = Ok (out, lg')"
  shows "lg' = lg \<or>
    (\<exists>c. out = Some c \<and> db_revision (lg_db lg) = expected \<and> changes \<noteq> [] \<and>
       store_write (collapse changes) (lg_db lg) = Ok (lg_db lg') \<and> db_revision (lg_db lg') = db_revision (lg_db lg) + 1)"
  using assms
proof (cases rule: ledger_commitE)
  case (new db c)
  have "lg_db lg' = db" using append_db [OF new(6)] by simp
  moreover have "db_revision db = db_revision (lg_db lg) + 1" using new(5) by (rule store_writeE)
  ultimately show ?thesis using new by simp
qed simp_all

lemma commit_fresh:
  assumes "ledger_commit cd ident expected changes meta lg = Ok (Some c, lg')" "\<not> ct_replayed c"
  shows "db_revision (lg_db lg) = expected \<and> changes \<noteq> [] \<and>
    store_write (collapse changes) (lg_db lg) = Ok (lg_db lg') \<and> db_revision (lg_db lg') = db_revision (lg_db lg) + 1"
  using assms(1)
proof (cases rule: ledger_commitE)
  case (earlier c1)
  then have "ct_replayed c"
    by (auto simp: replayed_def recorded_request_def split: option.splits if_splits)
  then show ?thesis using assms(2) by simp
next
  case (new db c1)
  have "lg_db lg' = db" using append_db [OF new(6)] by simp
  moreover have "db_revision db = db_revision (lg_db lg) + 1" using new(5) by (rule store_writeE)
  ultimately show ?thesis using new by simp
qed simp

lemma step_revision:
  assumes "ledger_step cd lg lg'"
  shows "lg_db lg' = lg_db lg \<or> db_revision (lg_db lg) < db_revision (lg_db lg')"
  using assms
proof (cases rule: ledger_step.cases)
  case (committing ident expected changes meta out)
  then show ?thesis using commit_revision [OF committing(1)] by auto
next
  case (naming new made)
  then show ?thesis by (cases rule: create_checkpoint_cases) simp_all
qed

lemma steps_revision:
  "ledger_steps cd lg lg' \<Longrightarrow> lg_db lg' = lg_db lg \<or> db_revision (lg_db lg) < db_revision (lg_db lg')"
proof (induction rule: rtranclp_induct)
  case (step lg1 lg2)
  then show ?case using step_revision [OF step.hyps(2)] by auto
qed simp

text \<open>A commit of changes is refused on any other rows than those it was planned on.\<close>

lemma wrote_serial:
  assumes "well_behaved su" "wrote su (db_revision (lg_db (st_ledger st))) changes meta cs rs \<lparr>wd_stores = st, wd_calls = n\<rparr> w'"
    and "changes \<noteq> []"
  obtains lg c where "ledger_steps (su_codec su) (st_ledger st) lg" "lg_db lg = lg_db (st_ledger st)"
    "ledger_commit (su_codec su) (su_ident su n) (db_revision (lg_db lg)) changes meta lg = Ok (Some c, st_ledger (wd_stores w'))"
    "\<not> ct_replayed c" "store_write (collapse changes) (lg_db lg) = Ok (lg_db (st_ledger (wd_stores w')))"
proof -
  let ?w = "\<lparr>wd_stores = st, wd_calls = n\<rparr>" and ?lg = "st_ledger (su_between su n st)"
  obtain c lg' ns where c: "commit_with_decline_notices (su_codec su) (su_ident su n) (db_revision (lg_db (st_ledger st)))
      changes meta cs rs (?lg, st_declines (su_between su n st)) = Ok (Some c, lg', ns)" "\<not> ct_replayed c"
    "w' = \<lparr>wd_stores = \<lparr>st_ledger = lg', st_declines = ns\<rparr>, wd_calls = Suc n\<rparr>"
    using assms(2) by (auto simp: wrote_def found_def)
  note plain = commit_with_plain [OF c(1)]
  have steps: "ledger_steps (su_codec su) (st_ledger st) ?lg" using assms(1) by (simp add: well_behaved_def store_steps_ledger)
  have fresh: "db_revision (lg_db ?lg) = db_revision (lg_db (st_ledger st)) \<and>
      store_write (collapse changes) (lg_db ?lg) = Ok (lg_db lg')"
    using commit_fresh [OF plain c(2)] by simp
  then have same: "lg_db ?lg = lg_db (st_ledger st)" using steps_revision [OF steps] by auto
  show thesis by (rule that [OF steps same _ c(2)]) (use plain fresh same c(3) in simp_all)
qed

section \<open>Results of their kind\<close>

fun op_result_of :: "op \<Rightarrow> op_result \<Rightarrow> bool" where
  "op_result_of (AddFixedRun _) v \<longleftrightarrow> res_created v \<noteq> None"
| "op_result_of (AddFixedRunMaterialised _ _) v \<longleftrightarrow> res_created v \<noteq> None"
| "op_result_of (CreateRun _) v \<longleftrightarrow> res_created v \<noteq> None"
| "op_result_of (MaterialiseWeek _ _) v \<longleftrightarrow> res_ids v \<noteq> None"
| "op_result_of (SetRunStatus _ _) v \<longleftrightarrow> v = ODone"
| "op_result_of (SetRsvp _ _ _ _) v \<longleftrightarrow> v = ODone"
| "op_result_of (ApplyReaction _ _ _ _) v \<longleftrightarrow> res_reaction v \<noteq> None"
| "op_result_of (EditFixedRun _ _ _ _ _) v \<longleftrightarrow> res_count v \<noteq> None"
| "op_result_of (RetireFixedRun _ _ _) v \<longleftrightarrow> res_count v \<noteq> None"
| "op_result_of (EnsureReminders _ _ _) v \<longleftrightarrow> res_ids v \<noteq> None"
| "op_result_of (AddReminder _ _ _ _) v \<longleftrightarrow> res_reminder v \<noteq> None"
| "op_result_of (MarkReminderSent _ _) v \<longleftrightarrow> v = ODone"
| "op_result_of (RescheduleUnpostedReminder _ _) v \<longleftrightarrow> res_changed v \<noteq> None"
| "op_result_of (ReconcileDayOf _) v \<longleftrightarrow> res_count v \<noteq> None"
| "op_result_of (MaterialiseWeeks _) v \<longleftrightarrow> res_ids v \<noteq> None"
| "op_result_of (SetStatus _ _ _) v \<longleftrightarrow> res_run_state v \<noteq> None"
| "op_result_of (AmendRun _ _ _) v \<longleftrightarrow> res_run_state v \<noteq> None"
| "op_result_of (RescheduleRun _ _ _) v \<longleftrightarrow> res_run_state v \<noteq> None"
| "op_result_of (SwapRunSlots _ _ _ _) v \<longleftrightarrow> res_runs v \<noteq> None"
| "op_result_of (SwapParticipants _ _ _ _ _) v \<longleftrightarrow> res_run_state v \<noteq> None"
| "op_result_of (ApplyFixedEdit _ _ _) v \<longleftrightarrow> res_fixed v \<noteq> None"
| "op_result_of (ResetToFixed _ _) v \<longleftrightarrow> res_run_state v \<noteq> None"
| "op_result_of RecountAttendance v \<longleftrightarrow> res_ids v \<noteq> None"
| "op_result_of (FixedParticipants _ _ _ _ _) v \<longleftrightarrow> res_party_delta v \<noteq> None"
| "op_result_of (SetRunBosses _ _ _) v \<longleftrightarrow> v = ODone"
| "op_result_of (RecountRun _) v \<longleftrightarrow> res_changed v \<noteq> None"
| "op_result_of (ReviveRun _) v \<longleftrightarrow> res_changed v \<noteq> None"
| "op_result_of (FinishRun _) v \<longleftrightarrow> res_changed v \<noteq> None"
| "op_result_of (SettleRun _ _) v \<longleftrightarrow> res_changed v \<noteq> None"

lemma quietly_result: "quietly wrap m s = Ok (oc, s') \<Longrightarrow> \<exists>v. oc_value oc = wrap v"
  by (auto simp: quietly_def run_bnd_Ok_iff ret_def quiet_def)

lemma loudly_result: "loudly wrap m s = Ok (oc, s') \<Longrightarrow> \<exists>v. oc_value oc = wrap v"
  by (auto simp: loudly_def run_bnd_Ok_iff ret_def)

lemma add_fixed_result: "op_add_fixed_run new s = Ok (oc, s') \<Longrightarrow> res_created (oc_value oc) \<noteq> None"
  by (auto simp: op_add_fixed_run_def run_bnd_Ok_iff ret_def)

lemma apply_op_result: "apply_op lower a now s = Ok (oc, s') \<Longrightarrow> op_result_of a (oc_value oc)"
  by (cases a) (auto simp: run_bnd_Ok_iff ret_def op_retire_fixed_run_def
      dest!: quietly_result loudly_result add_fixed_result)

lemma on_surface_value [simp]: "oc_value (on_surface a surface oc) = oc_value oc"
  by (simp add: on_surface_def mark_via_portal_def Let_def split: op.splits)

lemma guarded_plan_Ok:
  assumes "guarded_plan su a surface guard now (d, ids) = Ok (oc, d', ids')"
  obtains oc0 where "guard d now = Ok ()" "apply_op (su_lower su) a now (d, ids) = Ok (oc0, d', ids')"
    "oc = on_surface a surface oc0"
  using assms unfolding guarded_plan_def run_bnd_reads run_bnd_check
  by (auto simp: run_bnd_Ok_iff ret_def split: sum.splits)

lemma apply_guarded_carried_out:
  assumes "apply_guarded aw scope a guard w = (Ok (oc, ids'), w')"
  obtains meta where "cm_origin meta = aw_origin aw" "cm_expect meta = aw_expect aw"
    "carried_out (aw_service aw) scope (guarded_plan (sv_around (aw_service aw)) a (og_surface (aw_origin aw)) guard
       (sv_now (aw_service aw)))
       (transact_wrote (aw_service aw) meta (op_kinds (ex_overrides (aw_expect aw) \<noteq> []))) w oc ids' w'"
proof -
  let ?sv = "aw_service aw"
  let ?meta = "edit_meta (aw_origin aw) (aw_expect aw) 0 (edit_digest (su_digest (sv_around ?sv)) a (aw_expect aw))"
  have "transact_as ?sv ?meta scope
      (guarded_plan (sv_around ?sv) a (og_surface (aw_origin aw)) guard (sv_now ?sv))
      (op_kinds (ex_overrides (aw_expect aw) \<noteq> [])) w = (Ok (oc, ids'), w')"
    using assms by (auto simp: apply_guarded_def Let_def elim!: sv_check_cases)
  from transact_effect [OF this] show thesis by (intro that [of ?meta]) (auto simp: edit_meta_def round_ends_def)
qed

lemma apply_guarded_refused:
  assumes "apply_guarded aw scope a guard w = (Err e, w')"
  shows "untouched (sv_around (aw_service aw)) w w'"
proof -
  let ?sv = "aw_service aw"
  have "w' = w \<or> transact_as ?sv (edit_meta (aw_origin aw) (aw_expect aw) 0
      (edit_digest (su_digest (sv_around ?sv)) a (aw_expect aw))) scope
      (guarded_plan (sv_around ?sv) a (og_surface (aw_origin aw)) guard (sv_now ?sv))
      (op_kinds (ex_overrides (aw_expect aw) \<noteq> [])) w = (Err e, w')"
    using assms by (auto simp: apply_guarded_def Let_def elim!: sv_check_cases)
  then show ?thesis using transact_effect by (fastforce simp: round_ends_def)
qed

lemma apply_guarded_result:
  assumes "apply_guarded aw scope a guard w = (Ok (oc, ids'), w')"
  shows "op_result_of a (oc_value oc)"
proof -
  from assms obtain meta where c: "carried_out (aw_service aw) scope (guarded_plan (sv_around (aw_service aw)) a (og_surface (aw_origin aw)) guard
       (sv_now (aw_service aw)))
       (transact_wrote (aw_service aw) meta (op_kinds (ex_overrides (aw_expect aw) \<noteq> []))) w oc ids' w'"
    by (rule apply_guarded_carried_out)
  then show ?thesis
    by (auto simp: carried_out_def planned_at_def elim!: guarded_plan_Ok dest: apply_op_result)
qed

lemma taking_Ok:
  assumes "taking t m w = (Ok (v, ids'), w')"
  obtains oc where "m w = (Ok (oc, ids'), w')" "v = t (oc_value oc)"
  using assms unfolding taking_def by (cases rule: sv_bind_cases) (auto simp: sv_ret_def)

lemma announcing_Ok:
  assumes "announcing t m w = (Ok (v, ids'), w')"
  obtains oc where "m w = (Ok (oc, ids'), w')" "v = map_option (\<lambda>v. \<lparr>oc_value = v, oc_notices = oc_notices oc\<rparr>) (t (oc_value oc))"
  using assms unfolding announcing_def by (cases rule: sv_bind_cases) (auto simp: sv_ret_def)

lemma taking_result:
  assumes "taking t (apply_guarded aw scope a guard) w = (Ok (v, ids'), w')" "\<And>x. op_result_of a x \<Longrightarrow> t x \<noteq> None"
  shows "v \<noteq> None"
  using assms(1) by (rule taking_Ok) (use apply_guarded_result assms(2) in blast)

lemma announcing_result:
  assumes "announcing t (apply_guarded aw scope a guard) w = (Ok (v, ids'), w')" "\<And>x. op_result_of a x \<Longrightarrow> t x \<noteq> None"
  shows "v \<noteq> None"
  using assms(1) by (rule announcing_Ok) (use apply_guarded_result assms(2) in auto)

lemma planned_first_Ok:
  "planned_first x k w = (Ok v, w') \<Longrightarrow> \<exists>a. x = Inr a \<and> k a w = (Ok v, w')"
  by (auto simp: planned_first_def sv_check_def sv_fail_def split: sum.splits)

text \<open>The fixed \<open>PATCH\<close> gives the value of its transaction.\<close>

lemma fixed_patch_result:
  assumes "apply_fixed_patch aw scope a identity w = (Ok (oc, ids'), w')"
  shows "op_result_of a (oc_value oc)"
proof -
  let ?sv = "aw_service aw" and ?meta = "fixed_patch_meta aw identity"
  obtain w1 w2 where t: "transact_as ?sv ?meta scope
      (guarded_plan (sv_around ?sv) a (og_surface (aw_origin aw)) unguarded (sv_now ?sv))
      (op_kinds (ex_overrides (aw_expect aw) \<noteq> [])) w1 = (Ok (oc, ids'), w2)"
    using assms unfolding apply_fixed_patch_def Let_def
    by (auto simp: sv_match_def sv_ret_def after_fixed_patch_def elim!: sv_bind_cases sv_check_cases
        split: prod.splits sum.splits scheduler_error.splits)
  from transact_effect [OF t] show ?thesis
    by (auto simp: round_ends_def carried_out_def planned_at_def elim!: guarded_plan_Ok dest: apply_op_result)
qed

end
