(* ===== verification/ServiceDeclines.thy ===== *)
theory ServiceDeclines
  imports ServiceLaws
begin

text \<open>
  Answers with their decline notices (\<open>commit_rsvp_with_decline\<close>): how the loop ends, and when a member
  is announced again. The cooldown is read in a call of its own; that it still holds at the commit
  follows from the revision check, since only commits set the time of a notice.
\<close>

definition declining_candidate ::
  "attributed \<Rightarrow> str \<Rightarrow> str \<Rightarrow> decline_context \<Rightarrow> str option \<Rightarrow> decline_notice" where
  "declining_candidate aw run_id user_id ctx home =
     decline_candidate run_id user_id (or_else (dc_channel_id ctx) home) (dc_reference_id ctx) (dc_display_name ctx)
       (sv_now (aw_service aw))"

definition decline_wrote ::
  "attributed \<Rightarrow> change_meta \<Rightarrow> str \<Rightarrow> str \<Rightarrow> decline_context \<Rightarrow> nat \<Rightarrow> change list \<Rightarrow> 'a \<times> bool \<times> bool \<times> str option
    \<Rightarrow> world \<Rightarrow> world \<Rightarrow> bool" where
  "decline_wrote aw meta run_id user_id ctx revision changes planned w w' \<longleftrightarrow>
     (case planned of (v, declined', retract, home) \<Rightarrow>
        let su = sv_around (aw_service aw); marks = (if retract then [(run_id, user_id)] else []) in
        (\<exists>w1. untouched su w w1 \<and> wrote su revision changes meta [] marks w1 w') \<or>
        declined' \<and> og_surface (aw_origin aw) \<noteq> Import \<and>
        \<not> decline_notice_on_cooldown run_id user_id (sv_now (aw_service aw)) (st_declines (found su w)) \<and>
        wrote su revision changes meta [declining_candidate aw run_id user_id ctx home] marks
          \<lparr>wd_stores = found su w, wd_calls = Suc (wd_calls w)\<rparr> w')"

definition decline_res :: "'a \<times> bool \<times> bool \<times> str option \<Rightarrow> id_source \<Rightarrow> 'a decline_result \<times> id_source \<Rightarrow> bool" where
  "decline_res planned ids res \<longleftrightarrow>
     dl_value (fst res) = fst planned \<and> snd res = ids \<and>
     (dl_declined (fst res) \<longrightarrow> fst (snd planned)) \<and> (dl_retract (fst res) \<longrightarrow> fst (snd (snd planned)))"

abbreviation decline_ends ::
  "attributed \<Rightarrow> change_meta \<Rightarrow> str \<Rightarrow> str \<Rightarrow> decline_context \<Rightarrow> 'a decline_plan \<Rightarrow> world
    \<Rightarrow> scheduler_error + 'a decline_result \<times> id_source \<Rightarrow> world \<Rightarrow> bool" where
  "decline_ends aw meta run_id user_id ctx work \<equiv>
     round_ends (aw_service aw) (ScopeRun run_id) work (decline_wrote aw meta run_id user_id ctx) decline_res"

lemma sv_call_cases:
  assumes "sv_call m k w = (r, w')"
  obtains (failed) e where "m w = (Inl e, w')" "r = Inl (SeStore e)"
  | (went) a w1 where "m w = (Inr a, w1)" "k a w1 = (r, w')"
  using assms by (auto simp: sv_call_def sv_match_def sv_fail_def split: prod.splits sum.splits)

lemma decline_write_effect:
  assumes "decline_write aw meta run_id user_id ctx retry revision changes planned ids w = (r, w')" "changes \<noteq> []"
    and retry: "\<And>e w1. retry e ids w1 = (r, w') \<Longrightarrow> decline_ends aw meta run_id user_id ctx work w1 r w'"
  shows "(\<exists>res. r = Ok res \<and> decline_wrote aw meta run_id user_id ctx revision changes planned w w' \<and> decline_res planned ids res) \<or>
    decline_ends aw meta run_id user_id ctx work w r w'"
proof -
  obtain v declined' retract home where p: "planned = (v, declined', retract, home)" by (cases planned)
  let ?su = "sv_around (aw_service aw)" and ?res = "(\<lparr>dl_value = v, dl_declined = declined', dl_retract = retract\<rparr>, ids)"
    and ?marks = "if retract then [(run_id, user_id)] else []"
  have res: "decline_res planned ids ?res" by (simp add: decline_res_def p)
  have settle: "(r = Ok ?res \<and> wrote ?su revision changes meta cs ?marks w1 w') \<or>
      decline_ends aw meta run_id user_id ctx work w1 r w'"
    if "settle_commit (call_commit_with ?su revision changes meta cs ?marks) (\<lambda>_. ?res) (\<lambda>e. retry e ids) w1 = (r, w')"
    for cs w1
    using settle_effect [OF that assms(2) retry] by auto
  show ?thesis
  proof (cases "declined' \<and> og_surface (aw_origin aw) \<noteq> Import")
    case False
    have "settle_commit (call_commit_with ?su revision changes meta [] ?marks) (\<lambda>_. ?res) (\<lambda>e. retry e ids) w = (r, w')"
      using assms(1) unfolding decline_write_def decline_candidates_def p prod.case Let_def if_not_P [OF False] .
    from settle [OF this] show ?thesis using res by (auto simp: decline_wrote_def p Let_def)
  next
    case True
    have "sv_call (call_on_cooldown ?su run_id user_id (sv_now (aw_service aw))) (\<lambda>cooling.
        settle_commit (call_commit_with ?su revision changes meta
          (if cooling then [] else [declining_candidate aw run_id user_id ctx home]) ?marks) (\<lambda>_. ?res) (\<lambda>e. retry e ids)) w = (r, w')"
      using assms(1) unfolding decline_write_def decline_candidates_def p prod.case Let_def if_P [OF True] declining_candidate_def .
    then show ?thesis
    proof (cases rule: sv_call_cases)
      case (failed e)
      show ?thesis
        by (rule disjI2, rule round_ends_refused [OF failed(2) writes_nothingD [OF harmless_reads(3) failed(1)]])
    next
      case (went cooling w1)
      note u = writes_nothingD [OF harmless_reads(3) went(1)]
      have w1: "cooling = decline_notice_on_cooldown run_id user_id (sv_now (aw_service aw)) (st_declines (found ?su w))"
        "w1 = \<lparr>wd_stores = found ?su w, wd_calls = Suc (wd_calls w)\<rparr>"
        using went(1) by (auto simp: call_on_cooldown_def found_def elim!: store_call_cases)
      from settle [OF went(2)] show ?thesis
      proof
        assume "decline_ends aw meta run_id user_id ctx work w1 r w'"
        then show ?thesis by (intro disjI2 round_ends_later [OF u])
      next
        assume "r = Ok ?res \<and> wrote ?su revision changes meta
          (if cooling then [] else [declining_candidate aw run_id user_id ctx home]) ?marks w1 w'"
        then have "decline_wrote aw meta run_id user_id ctx revision changes planned w w'"
          using True u w1 by (auto simp: decline_wrote_def p Let_def split: if_splits)
        then show ?thesis using res \<open>r = Ok ?res \<and> _\<close> by blast
      qed
    qed
  qed
qed

lemma undeclined_res: "decline_res planned ids (undeclined planned ids)"
  by (simp add: decline_res_def undeclined_def)

lemma decline_loop_effect:
  "decline_loop spare aw meta run_id user_id ctx work ids w = (r, w') \<Longrightarrow>
   decline_ends aw meta run_id user_id ctx work w r w'"
proof (induction spare arbitrary: ids w)
  case 0
  show ?case
    by (rule round_effect [where R = decline_res, OF 0 [unfolded decline_loop.simps]], rule undeclined_res)
      (rule decline_write_effect, assumption, assumption, rule round_ends_failed)
next
  case (Suc spare)
  have retry: "decline_ends aw meta run_id user_id ctx work w1 r w'"
    if "(if is_conflict e then decline_loop spare aw meta run_id user_id ctx work ids' else store_failed e) w1 = (r, w')"
    for e ids' w1
    using that by (auto split: if_splits intro: Suc.IH round_ends_failed)
  show ?case
    by (rule round_effect [where R = decline_res, OF Suc.prems [unfolded decline_loop.simps]], rule undeclined_res)
      (rule decline_write_effect, assumption, assumption, rule retry)
qed

lemma commit_rsvp_effect:
  assumes "commit_rsvp_with_decline aw run_id user_id ctx request work w = (r, w')"
  obtains meta where "decline_ends aw meta run_id user_id ctx work w r w'" "cm_origin meta = aw_origin aw" "cm_notices meta = []"
    "cm_refs meta = ex_overrides (aw_expect aw)"
proof -
  let ?sv = "aw_service aw"
  let ?meta = "edit_meta (aw_origin aw) (aw_expect aw) (sv_now ?sv)
    (expecting_digest (su_digest (sv_around ?sv)) request (aw_expect aw))"
  have "decline_ends aw ?meta run_id user_id ctx work w r w'"
    using assms unfolding commit_rsvp_with_decline_def Let_def
  proof (cases rule: sv_check_cases)
    case (failed e)
    then show ?thesis using round_ends_refused by (metis untouched_refl)
  next
    case (went x)
    from went(2) show ?thesis
    proof (cases rule: sv_bind_cases)
      case (failed e)
      show ?thesis by (rule round_ends_refused [OF failed(2) writes_nothingD [OF harmless_check_request failed(1)]])
    next
      case (went x w1)
      show ?thesis
        by (rule round_ends_later [OF writes_nothingD [OF harmless_check_request went(1)] decline_loop_effect [OF went(2)]])
    qed
  qed
  then show thesis by (rule that) (simp_all add: edit_meta_def)
qed

section \<open>The cooldown at the commit\<close>

lemma store_step_notified:
  assumes "store_step cd st st'"
  shows "last_notified r u (st_declines st') = last_notified r u (st_declines st) \<or>
    db_revision (lg_db (st_ledger st)) < db_revision (lg_db (st_ledger st'))"
  using assms
proof (cases rule: store_step.cases)
  case (writing ident expected changes meta cs rs out lg ns)
  from commit_with_rows [OF writing(2)] show ?thesis
  proof
    assume "\<exists>c ns1. out = Some c \<and> \<not> ct_replayed c \<and> db_revision (lg_db (st_ledger st)) = expected \<and>
        decline_upserts cs (st_declines st) = Ok ns1 \<and> ns = mark_retractions rs ns1"
    then obtain c where c: "out = Some c" "\<not> ct_replayed c" by blast
    have "ledger_commit cd ident expected changes meta (st_ledger st) = Ok (Some c, lg)"
      using commit_with_plain [OF writing(2)] c(1) by simp
    then show ?thesis using commit_fresh [OF _ c(2)] writing(1) by simp
  qed (simp add: writing(1))
qed (simp_all add: delivery_keeps_notified)

lemma store_steps_notified:
  assumes "store_steps cd st st'"
  shows "last_notified r u (st_declines st') = last_notified r u (st_declines st) \<or>
    db_revision (lg_db (st_ledger st)) < db_revision (lg_db (st_ledger st'))"
  using assms
proof (induction rule: rtranclp_induct)
  case (step st1 st2)
  have "lg_db (st_ledger st2) = lg_db (st_ledger st1) \<or> db_revision (lg_db (st_ledger st1)) < db_revision (lg_db (st_ledger st2))"
    using steps_revision [OF store_step_ledger [OF step.hyps(2)]] .
  moreover have "lg_db (st_ledger st1) = lg_db (st_ledger st) \<or> db_revision (lg_db (st_ledger st)) < db_revision (lg_db (st_ledger st1))"
    using steps_revision [OF store_steps_ledger [OF step.hyps(1)]] .
  ultimately show ?case using store_step_notified [OF step.hyps(2), of r u] step.IH by (auto dest: less_trans)
qed simp

lemma upserts_notified:
  assumes "decline_upserts cs ns = Ok ns'" "cs = [] \<or> cs = [c]"
  shows "last_notified r u ns' = last_notified r u ns \<or>
    cs = [c] \<and> (r, u) = (dn_run_id c, dn_user_id c) \<and> last_notified r u ns' = Some (dn_notified_at c div 1000 * 1000)"
  using assms upsert_notified [of c ns ns' r u] by (auto simp: res_bind_Ok_iff)

text \<open>Between two states of a store an operation set the time of a notice for itself only, and not again
  within the cooldown.\<close>

definition announced_at_most ::
  "attributed \<Rightarrow> str \<Rightarrow> str \<Rightarrow> stores \<Rightarrow> stores \<Rightarrow> bool" where
  "announced_at_most aw run_id user_id st st' \<longleftrightarrow>
     (\<forall>r u. last_notified r u (st_declines st') = last_notified r u (st_declines st) \<or>
        r = run_id \<and> u = user_id \<and> og_surface (aw_origin aw) \<noteq> Import \<and>
        last_notified r u (st_declines st') = Some (sv_now (aw_service aw) div 1000 * 1000) \<and>
        (\<forall>before. last_notified r u (st_declines st) = Some before \<longrightarrow>
           before + decline_notice_cooldown \<le> sv_now (aw_service aw)))"

lemma wrote_announced:
  assumes "wrote su revision changes meta cs rs w w'" "cs = [] \<or> cs = [c]"
  obtains ns where "decline_upserts cs (st_declines (found su w)) = Ok ns"
    "st_declines (wd_stores w') = mark_retractions rs ns" "db_revision (lg_db (st_ledger (found su w))) = revision"
proof -
  obtain c' lg ns where c: "commit_with_decline_notices (su_codec su) (su_ident su (wd_calls w)) revision changes meta cs rs
      (st_ledger (found su w), st_declines (found su w)) = Ok (Some c', lg, ns)" "\<not> ct_replayed c'"
    "st_declines (wd_stores w') = ns"
    using assms(1) by (auto simp: wrote_def)
  have fresh: "ledger_commit (su_codec su) (su_ident su (wd_calls w)) revision changes meta (st_ledger (found su w)) = Ok (Some c', lg)"
    using commit_with_plain [OF c(1)] .
  have "lg \<noteq> st_ledger (found su w)"
    using commit_fresh [OF fresh c(2)] by auto
  then show thesis using commit_with_rows [OF c(1)] commit_fresh [OF fresh c(2)] c(3) that by auto
qed

lemma decline_wrote_announced:
  assumes "well_behaved (sv_around (aw_service aw))"
    and "decline_wrote aw meta run_id user_id ctx (db_revision (lg_db (st_ledger (wd_stores w)))) changes planned w w'"
  obtains st where "store_steps (su_codec (sv_around (aw_service aw))) (wd_stores w) st"
    "announced_at_most aw run_id user_id st (wd_stores w')"
proof -
  let ?su = "sv_around (aw_service aw)" and ?now = "sv_now (aw_service aw)"
  have found: "store_steps (su_codec ?su) (wd_stores w1) (found ?su w1)" for w1
    using assms(1) by (simp add: well_behaved_def found_def)
  obtain v declined' retract home where p: "planned = (v, declined', retract, home)" by (cases planned)
  let ?marks = "if retract then [(run_id, user_id)] else []" and ?c = "declining_candidate aw run_id user_id ctx home"
    and ?rev = "db_revision (lg_db (st_ledger (wd_stores w)))" and ?w1 = "\<lparr>wd_stores = found ?su w, wd_calls = Suc (wd_calls w)\<rparr>"
  consider w1 where "untouched ?su w w1" "wrote ?su ?rev changes meta [] ?marks w1 w'"
    | "og_surface (aw_origin aw) \<noteq> Import" "\<not> decline_notice_on_cooldown run_id user_id ?now (st_declines (found ?su w))"
      "wrote ?su ?rev changes meta [?c] ?marks ?w1 w'"
    using assms(2) unfolding decline_wrote_def p Let_def by auto
  then show thesis
  proof cases
    case 1
    have "announced_at_most aw run_id user_id (found ?su w1) (wd_stores w')"
      using 1(2) by (rule wrote_announced [of _ _ _ _ _ _ _ _ undefined])
        (auto simp: announced_at_most_def marks_keep_notified)
    then show thesis
      using that rtranclp_trans [OF untouched_steps [OF assms(1) 1(1)] found] by blast
  next
    case 2
    obtain ns where ns: "decline_upserts [?c] (st_declines (found ?su ?w1)) = Ok ns"
      "st_declines (wd_stores w') = mark_retractions ?marks ns" "db_revision (lg_db (st_ledger (found ?su ?w1))) = ?rev"
      using 2(3) by (rule wrote_announced) auto
    have steps: "store_steps (su_codec ?su) (wd_stores w) (found ?su w)" "store_steps (su_codec ?su) (found ?su w) (found ?su ?w1)"
      using found [of w] found [of ?w1] by simp_all
    have "lg_db (st_ledger (found ?su w)) = lg_db (st_ledger (wd_stores w)) \<or> ?rev < db_revision (lg_db (st_ledger (found ?su w)))"
      using steps_revision [OF store_steps_ledger [OF steps(1)]] .
    then have same: "last_notified r u (st_declines (found ?su ?w1)) = last_notified r u (st_declines (found ?su w))" for r u
      using store_steps_notified [OF steps(2), of r u] ns(3) by auto
    have "announced_at_most aw run_id user_id (found ?su ?w1) (wd_stores w')"
      unfolding announced_at_most_def ns(2) marks_keep_notified
    proof (intro allI)
      fix r u
      have c: "dn_run_id ?c = run_id" "dn_user_id ?c = user_id" "dn_notified_at ?c = ?now"
        by (simp_all add: declining_candidate_def decline_candidate_def)
      from upserts_notified [OF ns(1) disjI2 [OF refl], of r u]
      show "last_notified r u ns = last_notified r u (st_declines (found ?su ?w1)) \<or>
        r = run_id \<and> u = user_id \<and> og_surface (aw_origin aw) \<noteq> Import \<and>
        last_notified r u ns = Some (?now div 1000 * 1000) \<and>
        (\<forall>before. last_notified r u (st_declines (found ?su ?w1)) = Some before \<longrightarrow> before + decline_notice_cooldown \<le> ?now)"
        using cooldown_over [OF 2(2)] 2(1) unfolding c same by blast
    qed
    then show thesis using that rtranclp_trans [OF steps] by blast
  qed
qed

lemma announced_same: "announced_at_most aw run_id user_id st st"
  by (simp add: announced_at_most_def)

end
