(* ===== verification/ServiceSamples.thy ===== *)
theory ServiceSamples
  imports ServiceDeclines LedgerProperties
begin

text \<open>
  Services at work, for the examples: one that adds a weekly timing while another writer adds one
  between its load and its commit, and one that records a member's decline.
\<close>

section \<open>A service beside another writer\<close>

text \<open>While the service adds a weekly timing, another writer adds one between its load and its commit.\<close>

definition sample_new :: new_fixed_run where
  "sample_new =
     \<lparr>nf_owner_id = lit ''11'', nf_channel_id = None, nf_bosses = [lit ''HStar''], nf_weekday = Tue, nf_time = hours 12,
      nf_participants = [lit ''11''], nf_note = None, nf_owner_pinned = False\<rparr>"

definition sample_around :: "ledger \<Rightarrow> ledger \<Rightarrow> surroundings" where
  "sample_around lg0 lg1 =
     \<lparr>su_codec = unary_codec, su_digest = (\<lambda>kind _. kind), su_lower = (\<lambda>s. s), su_ident = (\<lambda>_. lit ''c2''),
      su_unproven = (\<lambda>_ _. False),
      su_between = (\<lambda>n st. if n = 1 \<and> st_ledger st = lg0 then st\<lparr>st_ledger := lg1\<rparr> else st), su_down = (\<lambda>_. False)\<rparr>"

definition sample_service :: "surroundings \<Rightarrow> service" where
  "sample_service su =
     \<lparr>sv_around = su, sv_ids = \<lparr>id_supply = (\<lambda>n. if n = 0 then lit ''f2'' else lit ''f3''), id_drawn = 0\<rparr>, sv_now = 0,
      sv_attendance = attendance_v5, sv_run_ends = None\<rparr>"

definition sample_attributed :: "surroundings \<Rightarrow> attributed" where
  "sample_attributed su = as_origin (sample_service su) (origin_new (ActSystem (lit ''test'')) Import)"

lemma ledger_step_store: "ledger_step cd (st_ledger st) lg \<Longrightarrow> store_steps cd st (st\<lparr>st_ledger := lg\<rparr>)"
proof (erule ledger_stepE)
  fix ident expected changes meta out
  assume "ledger_commit cd ident expected changes meta (st_ledger st) = Ok (out, lg)" "clocked changes" "meta_u64 meta"
  then have "store_step cd st \<lparr>st_ledger = lg, st_declines = st_declines st\<rparr>"
    by (intro store_step.writing [of cd ident expected changes meta "[]" "[]"]) (simp_all add: commit_with_none)
  then show ?thesis by (cases st) auto
qed (auto intro: store_step.noting)

lemma sample_well_behaved: "ledger_step unary_codec lg0 lg1 \<Longrightarrow> well_behaved (sample_around lg0 lg1)"
  using ledger_step_store by (auto simp: well_behaved_def sample_around_def)

definition sample_added :: "str \<Rightarrow> fixed_run" where
  "sample_added rid =
     \<lparr>f_id = rid, f_owner_id = lit ''11'', f_channel_id = None, f_bosses = [lit ''HStar''], f_weekday = Tue, f_time = hours 12,
      f_participants = [lit ''11''], f_note = None, f_attendance_default = OptIn, f_standing = [], f_owner_pinned = False\<rparr>"

definition sample_two :: database where
  "sample_two = empty_db\<lparr>db_revision := 2, db_fixed := [(lit ''f1'', sample_fixed\<lparr>f_note := None\<rparr>), (lit ''f3'', sample_added (lit ''f3''))]\<rparr>"

lemma add_plan:
  "guarded_plan su (AddFixedRun new) Import unguarded now (d, ids) =
     Ok (\<lparr>oc_value = OCreated (id_supply ids (id_drawn ids)), oc_notices = []\<rparr>,
       insert_fixed_run (id_supply ids (id_drawn ids)) new d, ids\<lparr>id_drawn := Suc (id_drawn ids)\<rparr>)"
  by (simp add: guarded_plan_def run_simps unguarded_def op_add_fixed_run_def add_fixed_run_def new_id_def bnd_def seq_def
      require_fixed_def draft_fixed_run_def insert_fixed_run_def on_surface_def ok_or_def)

lemma sample_changes:
  "into_changes (insert_fixed_run (lit ''f2'') sample_new (service_draft (sample_service su) (load_scope (\<lambda>_. False) (ScopeWeeks []) empty_db)))
     = [PutFixedRun (sample_added (lit ''f2''))]"
  "into_changes (insert_fixed_run (lit ''f3'') sample_new (service_draft (sample_service su) (load_scope (\<lambda>_. False) (ScopeWeeks []) (sample_db 1 None))))
     = [PutFixedRun (sample_added (lit ''f3''))]"
proof -
  have "into_changes (insert_fixed_run (lit ''f2'') sample_new (with_run_ends None (with_attendance attendance_v5
      (draft_new (load_scope (\<lambda>_. False) (ScopeWeeks []) empty_db))))) = [PutFixedRun (sample_added (lit ''f2''))]"
    "into_changes (insert_fixed_run (lit ''f3'') sample_new (with_run_ends None (with_attendance attendance_v5
      (draft_new (load_scope (\<lambda>_. False) (ScopeWeeks []) (sample_db 1 None)))))) = [PutFixedRun (sample_added (lit ''f3''))]"
    by code_simp+
  then show "into_changes (insert_fixed_run (lit ''f2'') sample_new (service_draft (sample_service su) (load_scope (\<lambda>_. False) (ScopeWeeks []) empty_db)))
     = [PutFixedRun (sample_added (lit ''f2''))]"
    "into_changes (insert_fixed_run (lit ''f3'') sample_new (service_draft (sample_service su) (load_scope (\<lambda>_. False) (ScopeWeeks []) (sample_db 1 None))))
     = [PutFixedRun (sample_added (lit ''f3''))]"
    by (simp_all add: service_draft_def sample_service_def)
qed

lemma sample_writes_two:
  "store_write (collapse [PutFixedRun (sample_added (lit ''f3''))]) (sample_db 1 None) = Ok sample_two"
  "references_ok sample_two" "clocked [PutFixedRun (sample_added rid)]"
proof -
  show "store_write (collapse [PutFixedRun (sample_added (lit ''f3''))]) (sample_db 1 None) = Ok sample_two" by code_simp
  show "references_ok sample_two" by code_simp
  show "clocked [PutFixedRun (sample_added rid)]" by (simp add: clocked_def sample_added_def is_clock_def hours_def)
qed

abbreviation sample_world :: "ledger \<Rightarrow> nat \<Rightarrow> world" where
  "sample_world lg n \<equiv> \<lparr>wd_stores = \<lparr>st_ledger = lg, st_declines = []\<rparr>, wd_calls = n\<rparr>"

lemma sample_run:
  assumes "sample_stores lg0 lg1 lg2 lg3"
  obtains oc ids' lg' where
    "apply_guarded (sample_attributed (sample_around lg0 lg1)) (ScopeWeeks []) (AddFixedRun sample_new) unguarded (sample_world lg0 0) =
       (Ok (oc, ids'), sample_world lg' 4)"
    "oc = \<lparr>oc_value = OCreated (lit ''f3''), oc_notices = []\<rparr>" "lg_db lg' = sample_two"
proof -
  let ?su = "sample_around lg0 lg1" and ?sv = "sample_service (sample_around lg0 lg1)"
  let ?meta = "edit_meta (origin_new (ActSystem (lit ''test'')) Import) expect_none 0 (lit ''add_fixed_run'')"
  have s: "reached unary_codec empty_db lg0" "ledger_step unary_codec lg0 lg1" "lg_db lg0 = empty_db" "lg_db lg1 = sample_db 1 None"
    "lit ''c2'' \<notin> lr_id ` set (t_values (lg_log lg1))" "length (lg_log lg1) = 2"
    using assms by (auto simp: sample_stores_def)
  obtain hist ss where h: "holds unary_codec lg1 hist ss"
    using reached_holds [OF reached_steps [OF s(1)]] s(2) empty_db_sound(1) by (metis r_into_rtranclp)
  have "length hist = 2"
    using h s(6) by (auto simp: holds_def logged_def dest: list_all2_lengthD)
  have new: "replayed lg1 ?meta = Ok None" "check_expect lg1 ?meta = Ok ()"
    by (simp_all add: replayed_def check_expect_def edit_meta_def origin_new_def expect_none_def validate_fields_def
        check_override_actor_def)
  obtain lg' where c: "ledger_commit unary_codec (lit ''c2'') 1 [PutFixedRun (sample_added (lit ''f3''))] ?meta lg1 =
      Ok (Some \<lparr>ct_seq = length hist, ct_revision = 1 + 1, ct_replayed = False\<rparr>, lg')"
    using commit_written [OF h codec_ok_unary new _ _ sample_writes_two(1) [folded s(4)] sample_writes_two(2,3), of 1 "lit ''c2''"]
      s(4,5) \<open>length hist = 2\<close> unary_no_second [OF h] year_1970
    by (auto simp: edit_meta_def expect_none_def meta_u64_def i64_limit_def sample_db_def)
  have "lg_db lg' = sample_two"
    using commit_fresh [OF c] sample_writes_two(1) s(4) by simp
  moreover have conflict: "ledger_commit unary_codec (lit ''c2'') 0 [PutFixedRun (sample_added (lit ''f2''))] ?meta lg1 =
      Err (CfStore (RevisionConflict 0 1))"
    using new s(4) by (simp add: ledger_commit_def sample_db_def)
  have "apply_guarded (sample_attributed ?su) (ScopeWeeks []) (AddFixedRun sample_new) unguarded (sample_world lg0 0) =
       (Ok (\<lparr>oc_value = OCreated (lit ''f3''), oc_notices = []\<rparr>,
          (sv_ids ?sv)\<lparr>id_drawn := 2\<rparr>), sample_world lg' 4)"
  proof -
    have around: "sv_around ?sv = ?su" by (simp add: sample_service_def)
    have load: "call_load ?su (ScopeWeeks []) (sample_world lg n) =
        (Ok (load_scope (\<lambda>_. False) (ScopeWeeks []) (lg_db lg)), sample_world lg (Suc n))" if "n \<noteq> 1" for lg n
      using that by (simp add: call_load_def store_call_def sample_around_def)
    have commits: "call_commit ?su 0 [PutFixedRun (sample_added (lit ''f2''))] ?meta (sample_world lg0 1) =
        (Err (CfStore (RevisionConflict 0 1)), sample_world lg1 2)"
      "call_commit ?su 1 [PutFixedRun (sample_added (lit ''f3''))] ?meta (sample_world lg1 3) =
        (Ok (Some \<lparr>ct_seq = length hist, ct_revision = 1 + 1, ct_replayed = False\<rparr>), sample_world lg' 4)"
      using conflict c
      by (simp_all add: call_commit_def call_commit_with_def store_call_def sample_around_def commit_with_none numeral_2_eq_2)
    have meta: "edit_meta (aw_origin (sample_attributed ?su)) (aw_expect (sample_attributed ?su)) 0
        (edit_digest (su_digest ?su) (AddFixedRun sample_new) (aw_expect (sample_attributed ?su))) = ?meta"
      by (simp add: sample_attributed_def as_origin_def edit_meta_def origin_new_def)
    have start: "apply_guarded (sample_attributed ?su) (ScopeWeeks []) (AddFixedRun sample_new) unguarded (sample_world lg0 0) =
        transact_loop 2 ?sv ?meta (ScopeWeeks []) (guarded_plan ?su (AddFixedRun sample_new) Import unguarded 0)
          (op_kinds False) (sv_ids ?sv) (sample_world lg0 0)"
      unfolding apply_guarded_def Let_def transact_as_def
      using meta
      by (simp add: sample_attributed_def as_origin_def origin_new_def expect_none_def op_policy_ok_def expect_validate_def
          validate_fields_def check_override_actor_def sv_check_def sample_service_def edit_meta_def
          check_request_def sv_bind_def sv_match_def sv_ret_def commit_attempts_def numeral_2_eq_2)
    have round: "transact_loop (Suc k) ?sv ?meta (ScopeWeeks []) (guarded_plan ?su (AddFixedRun sample_new) Import unguarded 0)
          (op_kinds False) ids (sample_world lg n) =
        transact_write ?sv ?meta (op_kinds False) (\<lambda>e ids. if is_conflict e
            then transact_loop k ?sv ?meta (ScopeWeeks []) (guarded_plan ?su (AddFixedRun sample_new) Import unguarded 0)
              (op_kinds False) ids else store_failed e)
          (db_revision (lg_db lg)) [PutFixedRun (sample_added (id_supply ids (id_drawn ids)))]
          \<lparr>oc_value = OCreated (id_supply ids (id_drawn ids)), oc_notices = []\<rparr> (ids\<lparr>id_drawn := Suc (id_drawn ids)\<rparr>)
          (sample_world lg (Suc n))"
      if "n \<noteq> 1" "into_changes (insert_fixed_run (id_supply ids (id_drawn ids)) sample_new
          (service_draft ?sv (load_scope (\<lambda>_. False) (ScopeWeeks []) (lg_db lg)))) =
        [PutFixedRun (sample_added (id_supply ids (id_drawn ids)))]" for k ids lg n
      using that load [OF that(1), of lg]
      by (simp add: planned_round_def sv_call_def sv_match_def add_plan around)
    have writing: "transact_write ?sv ?meta (op_kinds False) retry revision changes \<lparr>oc_value = v, oc_notices = []\<rparr> ids w =
        settle_commit (call_commit ?su revision changes ?meta) (\<lambda>_. (\<lparr>oc_value = v, oc_notices = []\<rparr>, ids)) (\<lambda>e. retry e ids) w"
      for retry revision changes v ids w
      by (simp add: transact_write_def op_kinds_def around edit_meta_def sample_service_def)
    have rev: "db_revision empty_db = 0" "db_revision (sample_db n x) = n" for n x
      by (simp_all add: empty_db_def sample_db_def)
    let ?ids = "\<lambda>n. \<lparr>id_supply = (\<lambda>n. if n = 0 then lit ''f2'' else lit ''f3''), id_drawn = n\<rparr>"
    have ids: "sv_ids ?sv = ?ids 0" by (simp add: sample_service_def)
    show ?thesis
      using round [of 0 "?ids 0" lg0 1] round [of 2 "?ids 1" lg1 0] sample_changes s(3,4) commits
      unfolding start ids
      by (simp add: writing settle_commit_def sv_match_def sv_ret_def rev numeral_2_eq_2 numeral_3_eq_3 del: transact_loop.simps)
  qed
  ultimately show thesis using that by blast
qed

section \<open>A declined run\<close>

text \<open>A member of a run with no answers declines it; no other writer comes between.\<close>

definition quiet_around :: surroundings where
  "quiet_around =
     \<lparr>su_codec = unary_codec, su_digest = (\<lambda>kind _. kind), su_lower = (\<lambda>s. s), su_ident = (\<lambda>_. lit ''c1''),
      su_unproven = (\<lambda>_ _. False), su_between = (\<lambda>_ st. st), su_down = (\<lambda>_. False)\<rparr>"

lemma quiet_well_behaved: "well_behaved quiet_around"
  by (simp add: well_behaved_def quiet_around_def)

definition member_attributed :: attributed where
  "member_attributed = as_origin (sample_service quiet_around) (origin_new (ActMember (lit ''11'')) Discord)"

definition one_run_db :: database where
  "one_run_db = empty_db\<lparr>db_revision := 1, db_runs := [(lit ''r1'', sample_run)]\<rparr>"

definition declined_changes :: "change list" where
  "declined_changes =
     [PutRun (sample_run\<lparr>r_status := AtRisk\<rparr>),
      PutRsvp \<lparr>a_run_id = lit ''r1'', a_user_id = lit ''11'', a_state = No, a_source = Chat, a_at = 0\<rparr>]"

definition declined_db :: database where
  "declined_db =
     \<lparr>db_revision = 2, db_fixed = [], db_runs = [(lit ''r1'', sample_run\<lparr>r_status := AtRisk\<rparr>)], db_reminders = [],
      db_rsvps = [((lit ''r1'', lit ''11''),
        \<lparr>a_run_id = lit ''r1'', a_user_id = lit ''11'', a_state = No, a_source = Chat, a_at = 0\<rparr>)]\<rparr>"

definition declined_row :: decline_notice where
  "declined_row = decline_candidate (lit ''r1'') (lit ''11'') (Some (lit ''9'')) None (lit ''Ann'') 0"

definition ann_context :: decline_context where
  "ann_context = \<lparr>dc_channel_id = Some (lit ''9''), dc_reference_id = None, dc_display_name = lit ''Ann''\<rparr>"

definition decline_of_r1 :: "instant \<Rightarrow> bool decline_plan" where
  "decline_of_r1 now = answer_decline_plan (lit ''r1'') (lit ''11'') (Some No) None now"

lemma one_run_sound: "db_ok one_run_db" "db_storable one_run_db" "db_revision one_run_db < i64_limit"
proof -
  have "run_storable sample_run"
  proof -
    have "python_year (r_week_start sample_run)" "python_year (r_datetime sample_run)" by code_simp+
    then show ?thesis by (simp add: run_storable_def instant_storable_def sample_run_def hours_def)
  qed
  then have "value_storable v" if "db_row one_run_db k = Some v" for k v
    using that by (cases k) (auto simp: one_run_db_def empty_db_def t_get_def split: if_splits)
  then show "db_storable one_run_db" by (simp add: db_storable_def)
  show "db_ok one_run_db"
    by (simp add: db_ok_def one_run_db_def empty_db_def tbl.keyed_by_def t_get_def t_ok_def)
      (simp add: sample_run_def)
  show "db_revision one_run_db < i64_limit" by (simp add: one_run_db_def i64_limit_def)
qed

lemma declined_writes:
  "store_write (collapse declined_changes) one_run_db = Ok declined_db" "references_ok declined_db"
  by code_simp+

lemma declined_clocked: "clocked declined_changes"
  by (simp add: clocked_def declined_changes_def)

lemma declined_plan:
  obtains d ids' where "decline_of_r1 0 (service_draft (sample_service quiet_around)
      (load_scope (\<lambda>_. False) (ScopeRun (lit ''r1'')) one_run_db), ids) = Ok ((True, True, False, None), d, ids')"
    "into_changes d = declined_changes"
proof -
  have "is_ok_and (\<lambda>(v, d, _). v = (True, True, False, None) \<and> into_changes d = declined_changes)
      (decline_of_r1 0 (with_run_ends None (with_attendance attendance_v5
        (draft_new (load_scope (\<lambda>_. False) (ScopeRun (lit ''r1'')) one_run_db))), ids))"
    by code_simp
  then show thesis
    using that by (auto simp: is_ok_and_def service_draft_def sample_service_def split: sum.splits)
qed

lemma declined_upsert: "decline_upserts [declined_row] [] = Ok [((lit ''r1'', lit ''11''), declined_row)]"
  by code_simp

lemma commit_with_also:
  assumes "ledger_commit cd ident expected changes meta lg = Ok (Some c, lg')" "\<not> ct_replayed c"
    and "decline_upserts cs ns = Ok ns'"
  shows "commit_with_decline_notices cd ident expected changes meta cs rs (lg, ns) =
    Ok (Some c, lg', mark_retractions rs ns')"
  using assms(1)
proof (cases rule: ledger_commitE)
  case (earlier c')
  have "replayed lg meta = Ok (Some c') \<Longrightarrow> ct_replayed c'"
    by (auto simp: replayed_def recorded_request_def split: option.splits if_splits prod.splits)
  then show ?thesis using earlier assms(2) by simp
next
  case (new db c')
  then show ?thesis
    using assms(3) by (simp add: commit_with_decline_notices_def res_bind_def Let_def)
qed simp

lemma sample_decline:
  obtains lg0 lg' ids' where "reached unary_codec one_run_db lg0"
    "commit_rsvp_with_decline member_attributed (lit ''r1'') (lit ''11'') ann_context request (decline_of_r1 0) (sample_world lg0 0) =
       (Ok (\<lparr>dl_value = True, dl_declined = True, dl_retract = False\<rparr>, ids'),
        \<lparr>wd_stores = \<lparr>st_ledger = lg', st_declines = [((lit ''r1'', lit ''11''), declined_row)]\<rparr>, wd_calls = 3\<rparr>)"
proof -
  let ?su = quiet_around and ?sv = "sample_service quiet_around"
  let ?meta = "edit_meta (origin_new (ActMember (lit ''11'')) Discord) expect_none 0 request"
  obtain lg0 where lg0: "ensure_genesis unary_codec (unrecorded one_run_db) = Ok lg0"
    using ensure_genesis_holds(1) [OF one_run_sound(3)] by blast
  obtain g b where g: "record_genesis unary_codec (db_revision one_run_db) = Ok g"
    "holds unary_codec lg0 [(g, b)] [db_row one_run_db]" "lg_db lg0 = one_run_db"
    using ensure_genesis_holds(2) [OF one_run_sound(3) lg0 one_run_sound(1,2)] by blast
  have reached: "reached unary_codec one_run_db lg0" using lg0 by (auto simp: reached_def)
  have "logged (lg_log lg0) [(g, b)]" using g(2) by (simp only: holds_def)
  then obtain dg where log0: "lg_log lg0 = [(ch_seq g, log_row_of g b dg)]" by (auto simp: logged_def list_all2_Cons2)
  have gid: "ch_id g = lit ''genesis''" using g(1) by (auto elim!: genesis_parts)
  have new: "replayed lg0 ?meta = Ok None" "check_expect lg0 ?meta = Ok ()"
    by (simp_all add: replayed_def check_expect_def edit_meta_def origin_new_def expect_none_def validate_fields_def
        check_override_actor_def)
  obtain lg' where c: "ledger_commit unary_codec (lit ''c1'') 1 declined_changes ?meta lg0 =
      Ok (Some \<lparr>ct_seq = length [(g, b)], ct_revision = 1 + 1, ct_replayed = False\<rparr>, lg')"
    using commit_written [OF g(2) codec_ok_unary new _ _ declined_writes(1) [folded g(3)] declined_writes(2) declined_clocked,
        of 1 "lit ''c1''"] g(3) log0 gid unary_no_second [OF g(2)] year_1970
    by (auto simp: edit_meta_def expect_none_def meta_u64_def i64_limit_def one_run_db_def declined_changes_def t_values_def
        log_row_of_def)
  let ?ns = "[((lit ''r1'', lit ''11''), declined_row)]"
  have "commit_with_decline_notices unary_codec (lit ''c1'') 1 declined_changes ?meta [declined_row] [] (lg0, []) =
      Ok (Some \<lparr>ct_seq = length [(g, b)], ct_revision = 1 + 1, ct_replayed = False\<rparr>, lg', mark_retractions [] ?ns)"
    by (rule commit_with_also [OF c _ declined_upsert]) simp
  then have commit: "call_commit_with ?su 1 declined_changes ?meta [declined_row] [] (sample_world lg0 (Suc (Suc 0))) =
      (Ok (Some \<lparr>ct_seq = 1, ct_revision = 1 + 1, ct_replayed = False\<rparr>),
       \<lparr>wd_stores = \<lparr>st_ledger = lg', st_declines = ?ns\<rparr>, wd_calls = 3\<rparr>)"
    by (simp add: call_commit_with_def store_call_def quiet_around_def mark_retractions_def)
  obtain d ids' where p: "decline_of_r1 0 (service_draft ?sv (load_scope (\<lambda>_. False) (ScopeRun (lit ''r1'')) one_run_db), sv_ids ?sv) =
      Ok ((True, True, False, None), d, ids')" "into_changes d = declined_changes"
    by (rule declined_plan)
  have around: "sv_around ?sv = ?su" "sv_now ?sv = 0" "aw_service member_attributed = ?sv"
    "aw_origin member_attributed = origin_new (ActMember (lit ''11'')) Discord" "aw_expect member_attributed = expect_none"
    by (simp_all add: sample_service_def member_attributed_def as_origin_def)
  have load: "call_load ?su (ScopeRun (lit ''r1'')) (sample_world lg0 0) =
      (Ok (load_scope (\<lambda>_. False) (ScopeRun (lit ''r1'')) one_run_db), sample_world lg0 1)"
    using g(3) by (simp add: call_load_def store_call_def quiet_around_def)
  have cooldown: "call_on_cooldown ?su (lit ''r1'') (lit ''11'') 0 (sample_world lg0 1) = (Ok False, sample_world lg0 (Suc (Suc 0)))"
    by (simp add: call_on_cooldown_def store_call_def quiet_around_def decline_notice_on_cooldown_def)
  have rev: "db_revision one_run_db = Suc 0"
    by (simp add: one_run_db_def)
  have loop: "commit_rsvp_with_decline member_attributed (lit ''r1'') (lit ''11'') ann_context request (decline_of_r1 0) (sample_world lg0 0) =
      decline_loop 2 member_attributed ?meta (lit ''r1'') (lit ''11'') ann_context (decline_of_r1 0) (sv_ids ?sv) (sample_world lg0 0)"
    unfolding commit_rsvp_with_decline_def Let_def around
    by (simp add: expect_none_def expect_validate_def validate_fields_def check_override_actor_def sv_check_def
        expecting_digest_def expect_is_empty_def edit_meta_def check_request_def sv_bind_def sv_match_def sv_ret_def
        commit_attempts_def origin_new_def numeral_2_eq_2)
  have candidate: "decline_candidate (lit ''r1'') (lit ''11'') (or_else (dc_channel_id ann_context) None)
      (dc_reference_id ann_context) (dc_display_name ann_context) 0 = declined_row"
    by (simp add: ann_context_def declined_row_def or_else_def)
  have surface: "og_surface (origin_new (ActMember (lit ''11'')) Discord) \<noteq> Import" by (simp add: origin_new_def)
  have changed: "declined_changes \<noteq> []" by (simp add: declined_changes_def)
  have "commit_rsvp_with_decline member_attributed (lit ''r1'') (lit ''11'') ann_context request (decline_of_r1 0) (sample_world lg0 0) =
      (Ok (\<lparr>dl_value = True, dl_declined = True, dl_retract = False\<rparr>, ids'),
        \<lparr>wd_stores = \<lparr>st_ledger = lg', st_declines = ?ns\<rparr>, wd_calls = 3\<rparr>)"
    unfolding loop numeral_2_eq_2
    using changed surface
    by (simp add: planned_round_def sv_call_def sv_match_def load p around rev decline_write_def decline_candidates_def
        cooldown [unfolded One_nat_def] candidate settle_commit_def commit [unfolded One_nat_def] sv_ret_def Let_def)
  then show thesis using that reached by blast
qed

end
