(* ===== verification/ServiceProperties.thy ===== *)
theory ServiceProperties
  imports ServiceSamples
begin

text \<open>
  What the service guarantees whatever other writers do between its calls: an operation that
  succeeds acted on exactly the rows it was planned on, one that is refused left no trace, a
  method's value is always of its kind, and a member's decline is announced at most once in the
  cooldown.
\<close>

section \<open>Properties\<close>

text \<open>C1. Operations are serializable: whatever other writers commit between its calls, an operation that
  succeeds was planned, its guard checked, on exactly the rows stored directly before its one
  commit, and leaves exactly those rows with the plan's changes written - or it changed nothing.\<close>

theorem operations_are_serial:
  assumes "well_behaved (sv_around (aw_service aw))"
    and "apply_guarded aw scope a guard w = (Ok (oc, ids'), w')"
  shows "\<exists>lg unproven ids0 oc0 d. let sv = aw_service aw; su = sv_around sv;
        before = service_draft sv (load_scope unproven scope (lg_db lg)); lg' = st_ledger (wd_stores w') in
      ledger_steps (su_codec su) (st_ledger (wd_stores w)) lg \<and>
      guard before (sv_now sv) = Ok () \<and> apply_op (su_lower su) a (sv_now sv) (before, ids0) = Ok (oc0, d, ids') \<and>
      oc = on_surface a (og_surface (aw_origin aw)) oc0 \<and>
      (if into_changes d = [] then ledger_steps (su_codec su) lg lg'
       else store_write (collapse (into_changes d)) (lg_db lg) = Ok (lg_db lg') \<and>
         (\<exists>ident meta c. cm_origin meta = aw_origin aw \<and> \<not> ct_replayed c \<and>
            ledger_commit (su_codec su) ident (db_revision (lg_db lg)) (into_changes d) meta lg = Ok (Some c, lg')))"
proof -
  let ?sv = "aw_service aw" and ?su = "sv_around (aw_service aw)"
  obtain meta where m: "cm_origin meta = aw_origin aw"
    "carried_out ?sv scope (guarded_plan ?su a (og_surface (aw_origin aw)) guard (sv_now ?sv))
       (transact_wrote ?sv meta (op_kinds (ex_overrides (aw_expect aw) \<noteq> []))) w oc ids' w'"
    using assms(2) by (rule apply_guarded_carried_out)
  obtain w1 ids0 d where c: "untouched ?su w w1"
    "planned_at ?sv scope (guarded_plan ?su a (og_surface (aw_origin aw)) guard (sv_now ?sv)) ids0 w1 oc d ids'"
    "if into_changes d = [] then untouched ?su (loaded_at ?sv w1) w'
     else transact_wrote ?sv meta (op_kinds (ex_overrides (aw_expect aw) \<noteq> [])) (db_revision (lg_db (st_ledger (found ?su w1))))
       (into_changes d) oc (loaded_at ?sv w1) w'"
    using m(2) unfolding carried_out_def by blast
  obtain oc0 where p: "guard (service_draft ?sv (load_scope (su_unproven ?su (wd_calls w1)) scope (lg_db (st_ledger (found ?su w1))))) (sv_now ?sv) = Ok ()"
    "apply_op (su_lower ?su) a (sv_now ?sv)
       (service_draft ?sv (load_scope (su_unproven ?su (wd_calls w1)) scope (lg_db (st_ledger (found ?su w1)))), ids0) = Ok (oc0, d, ids')"
    "oc = on_surface a (og_surface (aw_origin aw)) oc0"
    using c(2) unfolding planned_at_def by (rule guarded_plan_Ok)
  have steps: "ledger_steps (su_codec ?su) (st_ledger (wd_stores w)) (st_ledger (found ?su w1))"
    using rtranclp_trans [OF untouched_steps [OF assms(1) c(1)], of "found ?su w1"] assms(1) store_steps_ledger
    by (simp add: found_def well_behaved_def)
  show ?thesis
  proof (cases "into_changes d = []")
    case True
    have "ledger_steps (su_codec ?su) (st_ledger (found ?su w1)) (st_ledger (wd_stores w'))"
      using store_steps_ledger [OF untouched_steps [OF assms(1)], of "loaded_at ?sv w1" w'] c(3) True by (simp add: loaded_at_def)
    then show ?thesis using steps p True unfolding Let_def by (metis (no_types))
  next
    case False
    let ?meta = "committed_meta ?sv meta (op_kinds (ex_overrides (aw_expect aw) \<noteq> [])) oc"
    have "wrote ?su (db_revision (lg_db (st_ledger (found ?su w1)))) (into_changes d) ?meta [] []
        \<lparr>wd_stores = found ?su w1, wd_calls = Suc (wd_calls w1)\<rparr> w'"
      using c(3) False by (simp add: transact_wrote_def loaded_at_def)
    then obtain lg c' where l: "ledger_steps (su_codec ?su) (st_ledger (found ?su w1)) lg" "lg_db lg = lg_db (st_ledger (found ?su w1))"
      "ledger_commit (su_codec ?su) (su_ident ?su (Suc (wd_calls w1))) (db_revision (lg_db lg)) (into_changes d) ?meta lg =
        Ok (Some c', st_ledger (wd_stores w'))"
      "\<not> ct_replayed c'" "store_write (collapse (into_changes d)) (lg_db lg) = Ok (lg_db (st_ledger (wd_stores w')))"
      using wrote_serial [OF assms(1) _ False] by blast
    have "cm_origin ?meta = aw_origin aw" using m(1) by (simp add: committed_meta_def)
    then show ?thesis
      using rtranclp_trans [OF steps l(1)] p l False unfolding Let_def by (metis (no_types))
  qed
qed


text \<open>C12. A member's decline of a run is announced at most once in six hours: an answer sets the time of a
  notice only for its own run and member, never for an import, and only when the last one is at
  least the cooldown ago - at the commit itself, whatever other answers came between reading the
  cooldown and committing.\<close>

theorem declines_announced_once:
  fixes work :: "'a decline_plan"
  assumes "well_behaved (sv_around (aw_service aw))"
    and "commit_rsvp_with_decline aw run_id user_id ctx request work w = (r, w')"
  shows "\<exists>st st'. store_steps (su_codec (sv_around (aw_service aw))) (wd_stores w) st \<and>
    store_steps (su_codec (sv_around (aw_service aw))) st' (wd_stores w') \<and> announced_at_most aw run_id user_id st st'"
proof -
  let ?su = "sv_around (aw_service aw)"
  obtain meta where ends: "decline_ends aw meta run_id user_id ctx work w r w'"
    using assms(2) by (rule commit_rsvp_effect)
  have quiet: ?thesis if "untouched ?su w w'"
    using untouched_steps [OF assms(1) that] announced_same by blast
  show ?thesis
  proof (cases r)
    case (Inl e)
    then show ?thesis using ends quiet by (simp add: round_ends_def)
  next
    case (Inr res)
    then obtain w1 and v :: "'a \<times> bool \<times> bool \<times> str option" and d where c: "untouched ?su w w1"
      "if into_changes d = [] then untouched ?su (loaded_at (aw_service aw) w1) w'
       else decline_wrote aw meta run_id user_id ctx (db_revision (lg_db (st_ledger (found ?su w1)))) (into_changes d) v
         (loaded_at (aw_service aw) w1) w'"
      using ends unfolding round_ends_def carried_out_def Inr sum.case by blast
    have u: "untouched ?su w (loaded_at (aw_service aw) w1)"
      by (rule untouched_trans [OF c(1) untouched_loaded])
    show ?thesis
    proof (cases "into_changes d = []")
      case True
      then show ?thesis using quiet untouched_trans [OF u] c(2) by simp
    next
      case False
      then obtain st where "store_steps (su_codec ?su) (found ?su w1) st" "announced_at_most aw run_id user_id st (wd_stores w')"
        using decline_wrote_announced [OF assms(1), of meta run_id user_id ctx "loaded_at (aw_service aw) w1" "into_changes d" v w'] c(2)
        by (auto simp: loaded_at_def)
      then show ?thesis
        using rtranclp_trans [OF untouched_steps [OF assms(1) u]] by (auto simp: loaded_at_def)
    qed
  qed
qed

text \<open>C27. No method of the service panics: the value an operation gives is always of the kind its method
  takes out of it, so no \<open>unreachable!\<close> is reached.\<close>

theorem methods_never_panic:
  shows "(service_add_fixed_run aw new w = (Ok (i, ids), w') \<longrightarrow> i \<noteq> None) \<and>
    (service_add_fixed_run_materialised aw new policy w = (Ok (i, ids), w') \<longrightarrow> i \<noteq> None) \<and>
    (service_create_run aw run w = (Ok (i, ids), w') \<longrightarrow> i \<noteq> None) \<and>
    (service_edit_fixed_run aw fid patch changed' weeks rpolicy w = (Ok (n, ids), w') \<longrightarrow> n \<noteq> None) \<and>
    (service_retire_fixed_run aw fid weeks rpolicy w = (Ok (n, ids), w') \<longrightarrow> n \<noteq> None) \<and>
    (service_apply_fixed_edit aw req dir policy w = (Ok (fx, ids), w') \<longrightarrow> fx \<noteq> None) \<and>
    (service_apply_fixed_patch_edit aw req identity dir policy w = (Ok (fx, ids), w') \<longrightarrow> fx \<noteq> None) \<and>
    (service_pin_fixed_owner aw fid pin dir policy w = (Ok (fr, ids), w') \<longrightarrow> fr \<noteq> None) \<and>
    (service_change_fixed_party aw fid added gone' dir policy w = (Ok (pd, ids), w') \<longrightarrow> pd \<noteq> None) \<and>
    (service_materialise_weeks aw policy w = (Ok (is, ids), w') \<longrightarrow> is \<noteq> None) \<and>
    (service_recount_attendance aw w = (Ok (is, ids), w') \<longrightarrow> is \<noteq> None) \<and>
    (service_ensure_reminders aw rid rpolicy b w = (Ok (is, ids), w') \<longrightarrow> is \<noteq> None) \<and>
    (service_apply_reaction aw rid user emoji b w = (Ok (rr, ids), w') \<longrightarrow> rr \<noteq> None) \<and>
    (service_add_reminder aw rid kind fire sent w = (Ok (rm, ids), w') \<longrightarrow> rm \<noteq> None) \<and>
    (service_finish_run aw rid w = (Ok (ch, ids), w') \<longrightarrow> ch \<noteq> None) \<and>
    (service_settle_run aw press rpolicy w = (Ok (ch, ids), w') \<longrightarrow> ch \<noteq> None) \<and>
    (service_reschedule_unposted_reminder aw rid fire w = (Ok (ch, ids), w') \<longrightarrow> ch \<noteq> None) \<and>
    (service_set_status aw rid change rpolicy w = (Ok (rs, ids), w') \<longrightarrow> rs \<noteq> None) \<and>
    (service_amend_run aw rid slot policy w = (Ok (rs, ids), w') \<longrightarrow> rs \<noteq> None) \<and>
    (service_member_amend_run aw user rid slot policy w = (Ok (rs, ids), w') \<longrightarrow> rs \<noteq> None) \<and>
    (service_reschedule_run aw rid slot policy w = (Ok (rs, ids), w') \<longrightarrow> rs \<noteq> None) \<and>
    (service_swap_participants aw rid gone' added b dir w = (Ok (rs, ids), w') \<longrightarrow> rs \<noteq> None) \<and>
    (service_reset_to_fixed aw rid policy w = (Ok (rs, ids), w') \<longrightarrow> rs \<noteq> None) \<and>
    (service_swap_run_slots_at_version aw rid with_id version policy w = (Ok (rss, ids), w') \<longrightarrow> rss \<noteq> None)"
  unfolding service_add_fixed_run_def service_add_fixed_run_materialised_def service_create_run_def
    service_edit_fixed_run_def service_retire_fixed_run_def service_apply_fixed_edit_def
    service_apply_fixed_patch_edit_def service_pin_fixed_owner_def
    service_change_fixed_party_def service_materialise_weeks_def service_recount_attendance_def
    service_ensure_reminders_def service_apply_reaction_def service_add_reminder_def service_finish_run_def
    service_settle_run_def service_reschedule_unposted_reminder_def service_set_status_def service_amend_run_def
    service_member_amend_run_def service_reschedule_run_def service_swap_participants_def service_reset_to_fixed_def
    service_swap_run_slots_at_version_def apply_as_def
  by (intro conjI impI; (drule planned_first_Ok, elim exE conjE)?; (drule planned_first_Ok, elim exE conjE)?;
      (erule announcing_Ok, drule fixed_patch_result, force)?;
      (erule taking_result | erule announcing_result); simp)

section \<open>Witnesses\<close>

theorem operations_are_serial_witness:
  "\<exists>lg0 lg1 lg unproven oc ids0 ids' oc0 d w'.
     apply_guarded (sample_attributed (sample_around lg0 lg1)) (ScopeWeeks []) (AddFixedRun sample_new) unguarded (sample_world lg0 0) =
       (Ok (oc, ids'), w') \<and> lg_db (st_ledger (wd_stores w')) = sample_two \<and> ledger_steps unary_codec lg0 lg \<and>
     apply_op (\<lambda>s. s) (AddFixedRun sample_new) 0
       (service_draft (sample_service (sample_around lg0 lg1)) (load_scope unproven (ScopeWeeks []) (lg_db lg)), ids0) = Ok (oc0, d, ids')"
proof -
  obtain lg0 lg1 lg2 lg3 where s: "sample_stores lg0 lg1 lg2 lg3" using sample_history by blast
  then have "ledger_step unary_codec lg0 lg1" by (simp add: sample_stores_def)
  note fine = sample_well_behaved [OF this]
  obtain oc ids' lg' where r:
    "apply_guarded (sample_attributed (sample_around lg0 lg1)) (ScopeWeeks []) (AddFixedRun sample_new) unguarded (sample_world lg0 0) =
       (Ok (oc, ids'), sample_world lg' 4)" "lg_db lg' = sample_two"
    using s by (rule sample_run)
  have aw: "aw_service (sample_attributed (sample_around lg0 lg1)) = sample_service (sample_around lg0 lg1)"
    "sv_around (sample_service (sample_around lg0 lg1)) = sample_around lg0 lg1" "su_codec (sample_around lg0 lg1) = unary_codec"
    "su_lower (sample_around lg0 lg1) = (\<lambda>s. s)" "sv_now (sample_service (sample_around lg0 lg1)) = 0"
    by (simp_all add: sample_attributed_def as_origin_def sample_service_def sample_around_def)
  show ?thesis using operations_are_serial [OF _ r(1), unfolded aw Let_def world.select_convs stores.select_convs] fine r by force
qed


theorem declines_announced_once_witness:
  "\<exists>lg r w' st st'. commit_rsvp_with_decline member_attributed (lit ''r1'') (lit ''11'') ann_context (lit ''q'') (decline_of_r1 0) (sample_world lg 0) = (r, w') \<and>
     st_declines (wd_stores w') = [((lit ''r1'', lit ''11''), declined_row)] \<and>
     store_steps unary_codec \<lparr>st_ledger = lg, st_declines = []\<rparr> st \<and> store_steps unary_codec st' (wd_stores w') \<and>
     announced_at_most member_attributed (lit ''r1'') (lit ''11'') st st'"
proof -
  obtain lg lg' ids' where r:
    "commit_rsvp_with_decline member_attributed (lit ''r1'') (lit ''11'') ann_context (lit ''q'') (decline_of_r1 0) (sample_world lg 0) =
       (Ok (\<lparr>dl_value = True, dl_declined = True, dl_retract = False\<rparr>, ids'),
        \<lparr>wd_stores = \<lparr>st_ledger = lg', st_declines = [((lit ''r1'', lit ''11''), declined_row)]\<rparr>, wd_calls = 3\<rparr>)"
    using sample_decline [of "lit ''q''"] by blast
  have aw: "sv_around (aw_service member_attributed) = quiet_around" "su_codec quiet_around = unary_codec"
    by (simp_all add: member_attributed_def as_origin_def sample_service_def quiet_around_def)
  show ?thesis
    using declines_announced_once [OF _ r] quiet_well_behaved r unfolding aw by (metis stores.select_convs world.select_convs(1))
qed

theorem methods_never_panic_witness:
  "\<exists>lg0 lg1 i ids w'. service_add_fixed_run (sample_attributed (sample_around lg0 lg1)) sample_new (sample_world lg0 0) = (Ok (i, ids), w') \<and>
     i \<noteq> None"
proof -
  obtain lg0 lg1 lg2 lg3 where s: "sample_stores lg0 lg1 lg2 lg3" using sample_history by blast
  obtain oc ids' lg' where
    "apply_guarded (sample_attributed (sample_around lg0 lg1)) (ScopeWeeks []) (AddFixedRun sample_new) unguarded (sample_world lg0 0) =
       (Ok (oc, ids'), sample_world lg' 4)"
    using s by (rule sample_run)
  then have "service_add_fixed_run (sample_attributed (sample_around lg0 lg1)) sample_new (sample_world lg0 0) =
      (Ok (res_created (oc_value oc), ids'), sample_world lg' 4)"
    by (simp add: service_add_fixed_run_def apply_as_def taking_def sv_bind_def sv_match_def sv_ret_def)
  then show ?thesis using methods_never_panic [THEN conjunct1, rule_format] by metis
qed

end
