(* ===== verification/Rollbacks.thy ===== *)
theory Rollbacks
  imports ServiceOps
begin

text \<open>
  Rolling back (\<open>scheduler/service.rs\<close>): recorded changes are selected by position, by boss week or by
  actor, each is loaded again with its stored bytes checked, and they are reverted as one new change,
  or only planned. Reading the history follows a cursor page by page while other writers append, so
  the loop is a partial function; that it ends is shown in \<open>RollbackRuns\<close>.
\<close>

section \<open>Calls\<close>

definition call_list :: "surroundings \<Rightarrow> change_query \<Rightarrow> world \<Rightarrow> (commit_failure + change_page) \<times> world" where
  "call_list su q =
     store_call su (\<lambda>_ st. res_bind (list_in (su_codec su) (st_ledger st) q) (\<lambda>page. Ok (page, st)))"

definition call_checked :: "surroundings \<Rightarrow> nat \<Rightarrow> world \<Rightarrow> (commit_failure + checked_change) \<times> world" where
  "call_checked su n = store_call su (\<lambda>_ st. Ok (checked_in (su_codec su) (st_ledger st) n, st))"

text \<open>The reminders that unresolved delivery attempts hold, by the call that reads them.\<close>

definition call_held :: "surroundings \<Rightarrow> (nat \<Rightarrow> str list) \<Rightarrow> world \<Rightarrow> (commit_failure + str list) \<times> world" where
  "call_held su held = store_call su (\<lambda>n st. Ok (held n, st))"

section \<open>Reading the history\<close>

text \<open>A step that may not return.\<close>

type_synonym 'a tried = "world \<Rightarrow> ((scheduler_error + 'a) \<times> world) option"

definition tr_bind :: "'a tried \<Rightarrow> ('a \<Rightarrow> 'b tried) \<Rightarrow> 'b tried" where
  "tr_bind m k =
     (\<lambda>w. Option.bind (m w) (\<lambda>(r, w'). case r of Inl e \<Rightarrow> Some (Err e, w') | Inr a \<Rightarrow> k a w'))"

definition tr_served :: "'a served \<Rightarrow> 'a tried" where
  "tr_served m = (\<lambda>w. Some (m w))"

partial_function (option) history_loop ::
  "surroundings \<Rightarrow> change_query \<Rightarrow> change_record list \<Rightarrow> change_record list tried" where
  "history_loop su q records w =
     (case call_list su q w of
        (r, w') \<Rightarrow>
          (case r of
             Inl e \<Rightarrow> Some (Err (SeStore e), w')
           | Inr page \<Rightarrow>
               (case cp_next_cursor page of
                  Some cursor \<Rightarrow> history_loop su (q\<lparr>cq_cursor := Some cursor\<rparr>) (records @ cp_records page) w'
                | None \<Rightarrow> Some (Ok (records @ cp_records page), w'))))"

definition service_history :: "surroundings \<Rightarrow> change_filter \<Rightarrow> change_record list tried" where
  "service_history su f = history_loop su (change_query_new f) []"

section \<open>Selecting\<close>

primrec load_selected :: "surroundings \<Rightarrow> nat list \<Rightarrow> change_record list served" where
  "load_selected su [] = sv_ret []"
| "load_selected su (n # ns) =
     sv_call (call_checked su n) (\<lambda>found.
     case found of
       IntactChange r \<Rightarrow>
         if ch_seq r > 0 then sv_bind (load_selected su ns) (\<lambda>rs. sv_ret (r # rs))
         else sv_fail (SeHistory (UnknownChange n))
     | MissingChange \<Rightarrow> sv_fail (SeHistory (UnknownChange n))
     | TamperedChange _ \<Rightarrow> sv_fail (SeHistory (TamperedRecord n)))"

fun selected_seqs :: "surroundings \<Rightarrow> rollback_selection \<Rightarrow> nat list tried" where
  "selected_seqs su (RollSeqs seqs) = tr_served (sv_ret (remdups_adj (sort seqs)))"
| "selected_seqs su (RollWeek week revision) =
     tr_bind (service_history su (FilterWeek week)) (\<lambda>records.
     tr_served (sv_ret (remdups_adj (sort (map ch_seq (changes_for_week records week revision))))))"
| "selected_seqs su (RollActor who since) =
     tr_bind (service_history su (FilterActor who)) (\<lambda>records.
     tr_served (sv_ret (remdups_adj (sort (map ch_seq (changes_by_actor records who since))))))"

text \<open>The selected records, newest first.\<close>

definition rollback_select :: "surroundings \<Rightarrow> rollback_selection \<Rightarrow> change_record list tried" where
  "rollback_select su selection =
     tr_bind (selected_seqs su selection) (\<lambda>seqs.
     tr_served (if seqs = [] then sv_fail (SeHistory NothingToRevert) else load_selected su (rev seqs)))"

section \<open>Rolling back\<close>

definition rollback_new :: "rollback_request \<Rightarrow> rollback" where
  "rollback_new request =
     \<lparr>rb_selection = rq_selection request,
      rb_scope = (case rq_selection request of RollWeek week _ \<Rightarrow> InWeek week | _ \<Rightarrow> Whole),
      rb_mode = rq_mode request, rb_preview = rq_preview request\<rparr>"

definition rollback_meta :: "service \<Rightarrow> str \<Rightarrow> str option \<Rightarrow> rollback_request \<Rightarrow> change_meta" where
  "rollback_meta sv admin request_id request =
     (let (admin', request_id') = (if rq_preview request then (lit ''preview'', None) else (admin, request_id)) in
      \<lparr>cm_origin = \<lparr>og_actor = ActAdmin admin', og_surface = Rollback, og_request_id = request_id'\<rparr>,
       cm_at = sv_now sv, cm_notices = [], cm_refs = [],
       cm_request_digest =
         map_option (\<lambda>_. su_digest (sv_around sv) (lit ''rollback'') (DgRollback (rollback_new request))) request_id',
       cm_expect = expect_none, cm_outbox = []\<rparr>)"

text \<open>What one attempt makes of the outcome of the revert: \<open>retry\<close> gets the failures of the commit.\<close>

definition rollback_commit ::
  "service \<Rightarrow> change_meta \<Rightarrow> bool \<Rightarrow> (commit_failure \<Rightarrow> id_source \<Rightarrow> (revert_outcome \<times> id_source) tried)
    \<Rightarrow> change_record list \<Rightarrow> nat \<Rightarrow> draft \<Rightarrow> draft \<Rightarrow> revert_outcome \<Rightarrow> id_source
    \<Rightarrow> (revert_outcome \<times> id_source) tried" where
  "rollback_commit sv meta preview retry records revision base after outcome ids =
     (case outcome of
        Reverted seqs cancelled overridden skipped notices _ seq' \<Rightarrow>
          let changes = into_changes after; rows = changed_rows base after changes in
          if changes = [] then tr_served (sv_ret (RevertUnchanged seqs skipped, ids))
          else if preview then
            tr_served (sv_ret (Reverted seqs cancelled overridden skipped notices rows seq', ids))
          else (\<lambda>w.
            case call_commit (sv_around sv) revision changes
                   (meta\<lparr>cm_notices := map (\<lambda>n. effect_kind (no_change n)) notices, cm_outbox := notices,
                         cm_refs := map record_reference records\<rparr>) w of
              (r, w') \<Rightarrow>
                (case r of
                   Inr (Some c) \<Rightarrow>
                     if ct_replayed c then Some (Err (already_applied c), w')
                     else Some (Ok (Reverted seqs cancelled overridden skipped notices rows (Some (ct_seq c)), ids), w')
                 | Inr None \<Rightarrow> Some (Ok (Reverted seqs cancelled overridden skipped notices rows None, ids), w')
                 | Inl e \<Rightarrow> retry e ids w'))
      | _ \<Rightarrow> tr_served (sv_ret (outcome, ids)))"

text \<open>Records, hashes and held reminders are read again on every attempt.\<close>

definition rollback_attempt ::
  "service \<Rightarrow> change_meta \<Rightarrow> rollback \<Rightarrow> reminder_policy \<Rightarrow> (nat \<Rightarrow> str list)
    \<Rightarrow> (commit_failure \<Rightarrow> id_source \<Rightarrow> (revert_outcome \<times> id_source) tried) \<Rightarrow> id_source
    \<Rightarrow> (revert_outcome \<times> id_source) tried" where
  "rollback_attempt sv meta rb policy held retry ids =
     tr_bind (rollback_select (sv_around sv) (rb_selection rb)) (\<lambda>records.
     tr_bind (tr_served (sv_call (call_held (sv_around sv) held) sv_ret)) (\<lambda>kept.
     tr_bind (tr_served (sv_call (call_load (sv_around sv) ScopeAll) sv_ret)) (\<lambda>snapshot.
     let base = draft_new snapshot in
     case apply_revert records (rb_scope rb) (rb_mode rb) policy kept (sv_now sv) (base, ids) of
       Inl e \<Rightarrow> tr_served (sv_fail (SeSchedule e))
     | Inr (outcome, after, ids') \<Rightarrow>
         rollback_commit sv meta (rb_preview rb) retry records (sn_revision snapshot) base after outcome ids')))"

primrec rollback_loop ::
  "nat \<Rightarrow> service \<Rightarrow> change_meta \<Rightarrow> rollback \<Rightarrow> reminder_policy \<Rightarrow> (nat \<Rightarrow> str list) \<Rightarrow> id_source
    \<Rightarrow> (revert_outcome \<times> id_source) tried" where
  "rollback_loop 0 sv meta rb policy held =
     rollback_attempt sv meta rb policy held (\<lambda>e _. tr_served (store_failed e))"
| "rollback_loop (Suc spare) sv meta rb policy held =
     rollback_attempt sv meta rb policy held (\<lambda>e ids.
       if is_conflict e then rollback_loop spare sv meta rb policy held ids else tr_served (store_failed e))"

definition service_rollback ::
  "service \<Rightarrow> str \<Rightarrow> str option \<Rightarrow> rollback_request \<Rightarrow> reminder_policy \<Rightarrow> (nat \<Rightarrow> str list)
    \<Rightarrow> (revert_outcome \<times> id_source) tried" where
  "service_rollback sv admin request_id request policy held =
     (let meta = rollback_meta sv admin request_id request in
      tr_bind (tr_served (if rq_preview request then sv_ret () else check_request (sv_around sv) meta)) (\<lambda>_.
      rollback_loop (commit_attempts - 1) sv meta (rollback_new request) policy held (sv_ids sv)))"

end
