(* ===== verification/RollbackRuns.thy ===== *)
theory RollbackRuns
  imports Rollbacks ServiceLaws
begin

text \<open>
  Reading the history while it grows: every page is a piece of the records that match, the cursor
  moves forward, and positions are bounded, so the loop ends with all of them.
\<close>

section \<open>Which records a filter selects\<close>

fun matches :: "change_filter \<Rightarrow> change_record \<Rightarrow> bool" where
  "matches FilterAll r \<longleftrightarrow> True"
| "matches (FilterWeek w) r \<longleftrightarrow> w div 1000 * 1000 \<in> set (ch_weeks r)"
| "matches (FilterActor who) r \<longleftrightarrow> og_actor (ch_origin r) = who"
| "matches (FilterActorInWeek who w) r \<longleftrightarrow> og_actor (ch_origin r) = who \<and> w div 1000 * 1000 \<in> set (ch_weeks r)"
| "matches (FilterRun i) r \<longleftrightarrow> (\<exists>f. (OnRun i, f) \<in> changed_fields r)"
| "matches (FilterRevisions a b) r \<longleftrightarrow> a \<le> ch_revision r \<and> ch_revision r \<le> b"

lemma actor_columns: "actor_kind a = actor_kind b \<and> actor_id a = actor_id b \<longleftrightarrow> a = b"
  by (cases a; cases b) (simp_all add: lit_inject)

lemma clause_matches:
  assumes h: "holds cd lg hist ss" and clause: "filter_clause lg f = Ok clause" and r: "(r, body) \<in> set hist"
  shows "clause (ch_seq r, log_row_of r body digest) \<longleftrightarrow> matches f r"
proof -
  have m: "r \<in> set (map fst hist)" using r by force
  have inj: "a = b" if "a \<in> set (map fst hist)" "b \<in> set (map fst hist)" "ch_seq a = ch_seq b" for a b
    using seq_inj [OF h] that by simp
  have "lg_weeks lg = indexed (\<lambda>r. set (ch_weeks r)) ch_seq (map fst hist)"
    "lg_fields lg = indexed changed_fields ch_seq (map fst hist)"
    using h by (simp_all only: holds_def)
  then have at: "fst ` Set.filter (\<lambda>e. snd e = ch_seq r) (lg_weeks lg) = set (ch_weeks r)"
    "fst ` Set.filter (\<lambda>e. snd e = ch_seq r) (lg_fields lg) = changed_fields r"
    by (simp_all only: indexed_at [OF inj m])
  have weeks: "(w, ch_seq r) \<in> lg_weeks lg \<longleftrightarrow> w \<in> set (ch_weeks r)" for w
    unfolding at(1) [symmetric] by force
  have fields: "(k, ch_seq r) \<in> lg_fields lg \<longleftrightarrow> k \<in> changed_fields r" for k
    unfolding at(2) [symmetric] by force
  have actors: "actor_clause who (ch_seq r, log_row_of r body digest) \<longleftrightarrow> og_actor (ch_origin r) = who" for who
    using actor_columns [of "og_actor (ch_origin r)" who] by (simp add: actor_clause_def log_row_of_def)
  have run: "run_clause lg i (ch_seq r, log_row_of r body digest) \<longleftrightarrow> (\<exists>f. (OnRun i, f) \<in> changed_fields r)" for i
    unfolding fields [symmetric] by (force simp: run_clause_def)
  have week: "week_clause lg w = Ok c \<Longrightarrow> c (ch_seq r, log_row_of r body digest) \<longleftrightarrow> w div 1000 * 1000 \<in> set (ch_weeks r)" for w c
    using weeks by (auto simp: week_clause_def res_bind_Ok_iff res_map_err_Ok_iff col_instant_def split: if_splits)
  show ?thesis
    using clause actors run week
    by (cases f) (auto simp: filter_clause_def res_bind_Ok_iff log_row_of_def split: if_splits)
qed

section \<open>Pages\<close>

lemma list_all2_filter:
  assumes "list_all2 R xs ys" "\<And>x y. R x y \<Longrightarrow> y \<in> set ys \<Longrightarrow> P x \<longleftrightarrow> Q y"
  shows "list_all2 R (filter P xs) (filter Q ys)"
  using assms by (induction rule: list_all2_induct) auto

lemma decode_logged:
  assumes "codec_ok cd" "logged rows hist" "\<forall>(r, body) \<in> set hist. record_storable r \<and> record_canonical cd r = Ok body"
  shows "decode_rows cd rows = Ok (map fst hist)"
  using assms(2,3) unfolding logged_def
proof (induction rule: list_all2_induct)
  case (Cons e rows h hist)
  obtain r body digest where "h = (r, body)" "e = (ch_seq r, log_row_of r body digest)"
    using Cons.hyps by (cases e; cases h) auto
  then show ?case using Cons.IH Cons.prems stored_row_logged [OF assms(1), of r body None] by simp
qed simp

text \<open>The records that match after the first \<open>m\<close>.\<close>

definition matching :: "change_filter \<Rightarrow> nat \<Rightarrow> (change_record \<times> str) list \<Rightarrow> change_record list" where
  "matching f m hist = filter (matches f) (map fst (drop m hist))"

lemma seqs_of: "holds cd lg hist ss \<Longrightarrow> map (ch_seq \<circ> fst) hist = [0 ..< length hist]"
  using linked_seqs [of cd 0 genesis_prev_hash hist] by (simp add: holds_def)

lemma later_records:
  assumes "holds cd lg hist ss"
  shows "filter (\<lambda>(r, _). matches f r \<and> m \<le> ch_seq r) hist = filter (\<lambda>(r, _). matches f r) (drop m hist)"
proof -
  have at: "ch_seq (fst (hist ! i)) = i" if "i < length hist" for i
    using arg_cong [OF seqs_of [OF assms], of "\<lambda>xs. xs ! i"] that by simp
  have "\<not> m \<le> ch_seq (fst e)" if "e \<in> set (take m hist)" for e
    using that at by (auto simp: in_set_conv_nth)
  moreover have "m \<le> ch_seq (fst e)" if "e \<in> set (drop m hist)" for e
    using that at by (auto simp: in_set_conv_nth)
  ultimately have "filter (\<lambda>(r, _). matches f r \<and> m \<le> ch_seq r) (take m hist) = []"
    "filter (\<lambda>(r, _). matches f r \<and> m \<le> ch_seq r) (drop m hist) = filter (\<lambda>(r, _). matches f r) (drop m hist)"
    by (auto simp: filter_empty_conv intro!: filter_cong)
  then show ?thesis
    using filter_append [of "\<lambda>(r, _). matches f r \<and> m \<le> ch_seq r" "take m hist" "drop m hist"] by simp
qed

definition starts_at :: "change_query \<Rightarrow> nat \<Rightarrow> bool" where
  "starts_at q m \<longleftrightarrow> cq_newest_first q = False \<and> cq_limit q = max_page \<and>
     (case cq_cursor q of None \<Rightarrow> m = 0 | Some c \<Rightarrow> m = Suc c \<and> c < i64_limit)"

lemma list_in_page:
  assumes codec: "codec_ok cd" and h: "holds cd lg hist ss" and q: "starts_at q m"
  obtains (refused) e where "filter_clause lg (cq_filter q) = Err e" "list_in cd lg q = Err e"
  | (listed) "list_in cd lg q = Ok (page_from_matches (take (max_page + 1) (matching (cq_filter q) m hist)) q)"
proof (cases "filter_clause lg (cq_filter q)")
  case (Inl e)
  then show thesis using refused [of e] by (simp add: list_in_def)
next
  case (Inr clause)
  let ?past = "\<lambda>(n, _::log_row). case cq_cursor q of None \<Rightarrow> True
      | Some cursor \<Rightarrow> if cq_newest_first q then n < min cursor (i64_limit - 1) else n > min cursor (i64_limit - 1)"
  let ?found = "filter (\<lambda>(r, _). matches (cq_filter q) r) (drop m hist)"
  have log: "logged (lg_log lg) hist" using h by (simp only: holds_def)
  have size: "page_size q = max_page" using q by (simp add: page_size_def starts_at_def max_page_def)
  have past: "?past (n, row) \<longleftrightarrow> m \<le> n" for n row
    using q by (auto simp: starts_at_def split: option.splits)
  have "logged (filter (\<lambda>e. clause e \<and> ?past e) (lg_log lg)) (filter (\<lambda>(r, _). matches (cq_filter q) r \<and> m \<le> ch_seq r) hist)"
    unfolding logged_def
  proof (rule list_all2_filter)
    fix x y assume "(case x of (n, row) \<Rightarrow> \<lambda>(r, body). n = ch_seq r \<and> (\<exists>digest. row = log_row_of r body digest)) y" "y \<in> set hist"
    then obtain r body digest where "y = (r, body)" "x = (ch_seq r, log_row_of r body digest)" "(r, body) \<in> set hist"
      by (cases x; cases y) auto
    then show "(clause x \<and> ?past x) \<longleftrightarrow> (case y of (r, _) \<Rightarrow> matches (cq_filter q) r \<and> m \<le> ch_seq r)"
      using clause_matches [OF h Inr] past by simp
  qed (use log in \<open>simp add: logged_def\<close>)
  then have "logged (take (max_page + 1) (filter (\<lambda>e. clause e \<and> ?past e) (lg_log lg))) (take (max_page + 1) ?found)"
    unfolding later_records [OF h] by (simp add: logged_def list_all2_takeI)
  moreover have "\<forall>(r, body) \<in> set (take (max_page + 1) ?found). record_storable r \<and> record_canonical cd r = Ok body"
    using holds_in(1,4) [OF h] by (auto dest!: in_set_takeD in_set_dropD)
  ultimately have "decode_rows cd (take (max_page + 1) (filter (\<lambda>e. clause e \<and> ?past e) (lg_log lg))) =
      Ok (map fst (take (max_page + 1) ?found))"
    by (rule decode_logged [OF codec])
  moreover have "map fst (take (max_page + 1) ?found) = take (max_page + 1) (matching (cq_filter q) m hist)"
    by (simp add: matching_def take_map filter_map comp_def case_prod_unfold)
  ultimately have "list_in cd lg q = Ok (page_from_matches (take (max_page + 1) (matching (cq_filter q) m hist)) q)"
    using Inr q by (simp add: list_in_def size starts_at_def)
  then show thesis by (rule listed)
qed

text \<open>The first \<open>k\<close> that match end at one of the records.\<close>

lemma take_filter_prefix:
  assumes "0 < k" "k \<le> length (filter P xs)"
  shows "\<exists>j < length xs. take k (filter P xs) = filter P (take (Suc j) xs) \<and> last (take k (filter P xs)) = xs ! j"
  using assms
proof (induction xs arbitrary: k)
  case (Cons x xs)
  consider "P x" "k = 1" | l where "P x" "k = Suc l" "0 < l" | "\<not> P x"
    using Cons.prems(1) by (metis One_nat_def gr0_implies_Suc neq0_conv)
  then show ?case
  proof cases
    case 1
    then show ?thesis by (intro exI [of _ 0]) simp
  next
    case 2
    then obtain j where "j < length xs" "take l (filter P xs) = filter P (take (Suc j) xs)" "last (take l (filter P xs)) = xs ! j"
      using Cons.IH [of l] Cons.prems(2) by auto
    moreover have "take l (filter P xs) \<noteq> []" using 2 Cons.prems(2) by (auto simp: take_eq_Nil)
    ultimately show ?thesis using 2 by (intro exI [of _ "Suc j"]) auto
  next
    case 3
    then obtain j where "j < length xs" "take k (filter P xs) = filter P (take (Suc j) xs)" "last (take k (filter P xs)) = xs ! j"
      using Cons.IH [of k] Cons.prems by auto
    then show ?thesis using 3 by (intro exI [of _ "Suc j"]) auto
  qed
qed simp

lemma next_page:
  assumes h: "holds cd lg hist ss" and "max_page < length (matching f m hist)"
  obtains s where "m \<le> s" "s < length hist" "s < i64_limit"
    "ch_seq (last (take max_page (matching f m hist))) = s"
    "filter (matches f) (map fst (take m hist)) @ take max_page (matching f m hist) =
       filter (matches f) (map fst (take (Suc s) hist))"
proof -
  have "0 < max_page" by (simp add: max_page_def)
  with assms(2) obtain j where j: "j < length (map fst (drop m hist))"
    "take max_page (matching f m hist) = filter (matches f) (take (Suc j) (map fst (drop m hist)))"
    "last (take max_page (matching f m hist)) = map fst (drop m hist) ! j"
    unfolding matching_def using take_filter_prefix [of max_page "matches f" "map fst (drop m hist)"] by auto
  have at: "ch_seq (fst (hist ! i)) = i" if "i < length hist" for i
    using arg_cong [OF seqs_of [OF h], of "\<lambda>xs. xs ! i"] that by simp
  have in_range: "m + j < length hist" using j(1) by simp
  have "fst (hist ! (m + j)) \<in> fst ` set hist" using in_range by simp
  then have "ch_seq (fst (hist ! (m + j))) < i64_limit" using h unfolding holds_def by blast
  then have "m + j < i64_limit" by (simp add: at [OF in_range])
  moreover have "ch_seq (last (take max_page (matching f m hist))) = m + j"
    using j(1,3) in_range by (simp add: at)
  moreover have "filter (matches f) (map fst (take m hist)) @ take max_page (matching f m hist) =
      filter (matches f) (map fst (take (Suc (m + j)) hist))"
    unfolding j(2) by (metis add_Suc_right filter_append map_append take_add take_map)
  ultimately show thesis using that [of "m + j"] in_range by simp
qed

section \<open>The loop ends\<close>

text \<open>Whether a filter can be asked of a store at all: its week and revisions fit their columns.\<close>

fun askable :: "change_filter \<Rightarrow> bool" where
  "askable (FilterWeek w) \<longleftrightarrow> \<not> isl (col_instant w)"
| "askable (FilterActorInWeek who w) \<longleftrightarrow> \<not> isl (col_instant w)"
| "askable (FilterRevisions a b) \<longleftrightarrow> a < i64_limit \<and> b < i64_limit"
| "askable _ \<longleftrightarrow> True"

lemma askable_refused: "filter_clause lg f = Err e \<Longrightarrow> \<not> askable f"
  by (cases f) (auto simp: filter_clause_def week_clause_def res_bind_def res_map_err_def split: sum.splits if_splits)

lemma call_list_cases:
  assumes "well_behaved su" "codec_ok (su_codec su)"
    and h: "holds (su_codec su) (st_ledger (wd_stores w)) hist ss" "checkpoints_ok (st_ledger (wd_stores w))" "starts_at q m"
  obtains (failed) e w' where "call_list su q w = (Err e, w')" "untouched su w w'"
      "su_down su (wd_calls w) \<or> \<not> askable (cq_filter q)"
  | (page) more ss' where
      "call_list su q w = (Ok (page_from_matches (take (max_page + 1) (matching (cq_filter q) m (hist @ more))) q),
         \<lparr>wd_stores = found su w, wd_calls = Suc (wd_calls w)\<rparr>)"
      "holds (su_codec su) (st_ledger (found su w)) (hist @ more) (ss @ ss')" "checkpoints_ok (st_ledger (found su w))"
proof -
  have steps: "ledger_steps (su_codec su) (st_ledger (wd_stores w)) (st_ledger (found su w))"
    using assms(1) store_steps_ledger by (simp add: found_def well_behaved_def)
  obtain more ss' where h': "holds (su_codec su) (st_ledger (found su w)) (hist @ more) (ss @ ss')"
    "checkpoints_ok (st_ledger (found su w))"
    using steps_hold [OF steps h(1,2)] by blast
  have untouched: "untouched su w \<lparr>wd_stores = found su w, wd_calls = Suc (wd_calls w)\<rparr>"
    by (simp add: untouched_def found_def)
  show thesis
  proof (cases "su_down su (wd_calls w)")
    case True
    then show thesis
      using failed [of CfBackend, OF _ untouched] True by (simp add: call_list_def store_call_def found_def Let_def)
  next
    case False
    show thesis
      using assms(2) h'(1) h(3)
    proof (cases rule: list_in_page)
      case refused: (refused e)
      show thesis
        using False failed [of e, OF _ untouched] askable_refused [OF refused(1)] refused(2) by (simp add: call_list_def store_call_def found_def res_bind_def Let_def)
    next
      case listed
      then show thesis
        using False page [OF _ h'] by (simp add: call_list_def store_call_def found_def res_bind_def Let_def)
    qed
  qed
qed

lemma history_loop_ends:
  assumes "well_behaved su" "codec_ok (su_codec su)"
    and "holds (su_codec su) (st_ledger (wd_stores w)) hist ss" "checkpoints_ok (st_ledger (wd_stores w))"
    and "starts_at q m" "m \<le> length hist" "records = filter (matches (cq_filter q)) (map fst (take m hist))"
  shows "\<exists>r w'. history_loop su q records w = Some (r, w') \<and> untouched su w w' \<and>
    (\<forall>rs. r = Ok rs \<longrightarrow> (\<exists>hist' ss'. holds (su_codec su) (st_ledger (wd_stores w')) hist' ss' \<and>
       rs = filter (matches (cq_filter q)) (map fst hist'))) \<and>
    (\<forall>e. r = Err e \<longrightarrow> (\<exists>n \<ge> wd_calls w. su_down su n) \<or> \<not> askable (cq_filter q))"
  using assms(3-7)
proof (induction "i64_limit - m" arbitrary: m q records w hist ss rule: less_induct)
  case less
  let ?f = "cq_filter q" and ?w1 = "\<lparr>wd_stores = found su w, wd_calls = Suc (wd_calls w)\<rparr>"
  have u: "untouched su w ?w1" by (simp add: untouched_def found_def)
  show ?case
    using assms(1,2) less.prems(1-3)
  proof (cases rule: call_list_cases)
    case (failed e w')
    then show ?thesis by (subst history_loop.simps) auto
  next
    case (page more ss')
    let ?hist = "hist @ more" and ?found = "matching ?f m (hist @ more)"
    have records: "records = filter (matches ?f) (map fst (take m ?hist))" using less.prems(4,5) by simp
    have q: "page_size q = max_page" using less.prems(3) by (simp add: page_size_def starts_at_def max_page_def)
    show ?thesis
    proof (cases "max_page < length ?found")
      case True
      obtain s where s: "m \<le> s" "s < length ?hist" "s < i64_limit" "ch_seq (last (take max_page ?found)) = s"
        "filter (matches ?f) (map fst (take m ?hist)) @ take max_page ?found = filter (matches ?f) (map fst (take (Suc s) ?hist))"
        using page(2) True by (rule next_page)
      have "page_from_matches (take (max_page + 1) ?found) q = \<lparr>cp_records = take max_page ?found, cp_next_cursor = Some s\<rparr>"
        using True s(4) by (auto simp: page_from_matches_def q Let_def max_page_def)
      then have loop: "history_loop su q records w =
          history_loop su (q\<lparr>cq_cursor := Some s\<rparr>) (filter (matches ?f) (map fst (take (Suc s) ?hist))) ?w1"
        using page(1) s(5) by (subst history_loop.simps) (simp add: records)
      have "\<exists>r w'. history_loop su (q\<lparr>cq_cursor := Some s\<rparr>) (filter (matches ?f) (map fst (take (Suc s) ?hist))) ?w1 = Some (r, w') \<and>
          untouched su ?w1 w' \<and> (\<forall>rs. r = Ok rs \<longrightarrow> (\<exists>hist' ss'. holds (su_codec su) (st_ledger (wd_stores w')) hist' ss' \<and>
            rs = filter (matches (cq_filter (q\<lparr>cq_cursor := Some s\<rparr>))) (map fst hist'))) \<and>
          (\<forall>e. r = Err e \<longrightarrow> (\<exists>n \<ge> wd_calls ?w1. su_down su n) \<or> \<not> askable (cq_filter (q\<lparr>cq_cursor := Some s\<rparr>)))"
      proof (rule less.hyps)
        show "i64_limit - Suc s < i64_limit - m" using s(1,3) by simp
        show "holds (su_codec su) (st_ledger (wd_stores ?w1)) ?hist (ss @ ss')" "checkpoints_ok (st_ledger (wd_stores ?w1))"
          using page(2,3) by simp_all
        show "starts_at (q\<lparr>cq_cursor := Some s\<rparr>) (Suc s)" using less.prems(3) s(3) by (simp add: starts_at_def)
        show "Suc s \<le> length ?hist" using s(2) by simp
      qed simp
      then obtain r w' where r: "history_loop su q records w = Some (r, w')" "untouched su ?w1 w'"
        "\<forall>rs. r = Ok rs \<longrightarrow> (\<exists>hist' ss'. holds (su_codec su) (st_ledger (wd_stores w')) hist' ss' \<and>
            rs = filter (matches ?f) (map fst hist'))"
        "\<forall>e. r = Err e \<longrightarrow> (\<exists>n \<ge> Suc (wd_calls w). su_down su n) \<or> \<not> askable ?f"
        using loop by auto
      show ?thesis
      proof (intro exI conjI)
        show "\<forall>e. r = Err e \<longrightarrow> (\<exists>n \<ge> wd_calls w. su_down su n) \<or> \<not> askable ?f" using r(4) Suc_leD by blast
      qed (use r untouched_trans [OF u] in blast)+
    next
      case False
      then have "page_from_matches (take (max_page + 1) ?found) q = \<lparr>cp_records = ?found, cp_next_cursor = None\<rparr>"
        by (simp add: page_from_matches_def q Let_def)
      then have "history_loop su q records w = Some (Ok (records @ ?found), ?w1)"
        using page(1) by (subst history_loop.simps) simp
      moreover have "records @ ?found = filter (matches ?f) (map fst ?hist)"
        unfolding records matching_def by (metis append_take_drop_id filter_append map_append)
      ultimately show ?thesis using u page(2) by (intro exI [of _ "Ok (records @ ?found)"] exI [of _ ?w1]) auto
    qed
  qed
qed

section \<open>What a rollback does to the store\<close>

lemma tr_bind_cases:
  assumes "tr_bind m k w = Some (r, w')"
  obtains (failed) e where "m w = Some (Inl e, w')" "r = Inl e"
  | (went) a w1 where "m w = Some (Inr a, w1)" "k a w1 = Some (r, w')"
proof -
  obtain r1 w1 where m: "m w = Some (r1, w1)" "(case r1 of Inl e \<Rightarrow> Some (Err e, w1) | Inr a \<Rightarrow> k a w1) = Some (r, w')"
    using assms by (auto simp: tr_bind_def bind_eq_Some_conv)
  show thesis
  proof (cases r1)
    case (Inl e)
    then show thesis using m failed [of e] by simp
  next
    case (Inr a)
    then show thesis using m went [of a w1] by simp
  qed
qed

lemma tr_served_Some: "tr_served m w = Some (r, w') \<longleftrightarrow> m w = (r, w')"
  by (simp add: tr_served_def)

definition only_reads :: "surroundings \<Rightarrow> 'a tried \<Rightarrow> bool" where
  "only_reads su m \<longleftrightarrow> (\<forall>w r w'. m w = Some (r, w') \<longrightarrow> untouched su w w')"

lemma only_readsD: "only_reads su m \<Longrightarrow> m w = Some (r, w') \<Longrightarrow> untouched su w w'"
  by (auto simp: only_reads_def)

lemma only_reads_bind:
  assumes "only_reads su m" "\<And>a. only_reads su (k a)"
  shows "only_reads su (tr_bind m k)"
  unfolding only_reads_def
proof (intro allI impI)
  fix w r w' assume "tr_bind m k w = Some (r, w')"
  then show "untouched su w w'"
  proof (cases rule: tr_bind_cases)
    case (failed e)
    then show ?thesis using only_readsD [OF assms(1)] by blast
  next
    case (went a w1)
    show ?thesis by (rule untouched_trans [OF only_readsD [OF assms(1) went(1)] only_readsD [OF assms(2) went(2)]])
  qed
qed

lemma only_reads_served: "writes_nothing su m \<Longrightarrow> only_reads su (tr_served m)"
  by (auto simp: only_reads_def tr_served_Some intro: writes_nothingD)

lemma call_list_reads: "call_list su q w = (r, w') \<Longrightarrow> untouched su w w'"
  unfolding call_list_def
  by (erule store_call_cases) (auto simp: untouched_def res_bind_Ok_iff)

lemma history_loop_reads:
  assumes "history_loop su q records w = Some y"
  shows "untouched su w (snd y)"
  using assms
proof (rule history_loop.raw_induct [where P = "\<lambda>su q records w y. untouched su w (snd y)", rotated])
  fix loop su q records w y
  assume later: "\<And>su q records w y. loop su q records w = Some y \<Longrightarrow> untouched su w (snd y)"
    and step: "(case call_list su q w of (r, w') \<Rightarrow>
        case r of
          Inl e \<Rightarrow> Some (Err (SeStore e), w')
        | Inr page \<Rightarrow>
            case cp_next_cursor page of
              Some cursor \<Rightarrow> loop su (q\<lparr>cq_cursor := Some cursor\<rparr>) (records @ cp_records page) w'
            | None \<Rightarrow> Some (Ok (records @ cp_records page), w')) = Some y"
  obtain r w1 where c: "call_list su q w = (r, w1)" by (cases "call_list su q w")
  note u = call_list_reads [OF c]
  show "untouched su w (snd y)"
  proof (cases r)
    case (Inl e)
    then have "y = (Err (SeStore e), w1)" using step c by simp
    then show ?thesis using u by simp
  next
    case (Inr page)
    show ?thesis
    proof (cases "cp_next_cursor page")
      case None
      then have "snd y = w1" using step c Inr by auto
      then show ?thesis using u by simp
    next
      case (Some cursor)
      then have "loop su (q\<lparr>cq_cursor := Some cursor\<rparr>) (records @ cp_records page) w1 = Some y"
        using step c Inr by simp
      from later [OF this] show ?thesis by (rule untouched_trans [OF u])
    qed
  qed
qed

lemma only_reads_history: "only_reads su (service_history su f)"
  using history_loop_reads by (fastforce simp: only_reads_def service_history_def)

lemma harmless_checked [harmless]: "writes_nothing su (call_checked su n)" "writes_nothing su (call_held su held)"
  unfolding call_checked_def call_held_def by (auto intro: harmless_read)

lemma harmless_load_selected [harmless]: "writes_nothing su (load_selected su ns)"
  by (induction ns) (auto intro!: harmless split: checked_change.splits)

lemma only_reads_seqs: "only_reads su (selected_seqs su selection)"
  by (cases selection) (auto intro!: only_reads_bind only_reads_history only_reads_served harmless)

lemma only_reads_select: "only_reads su (rollback_select su selection)"
  unfolding rollback_select_def by (auto intro!: only_reads_bind only_reads_seqs only_reads_served harmless)

text \<open>Records that were all intact in the store at some time up to a state of it.\<close>

definition seen_intact :: "surroundings \<Rightarrow> ledger \<Rightarrow> ledger \<Rightarrow> change_record \<Rightarrow> bool" where
  "seen_intact su lg lg' r \<longleftrightarrow>
     (\<exists>lg1. ledger_steps (su_codec su) lg lg1 \<and> ledger_steps (su_codec su) lg1 lg' \<and> ch_seq r > 0 \<and>
        checked_in (su_codec su) lg1 (ch_seq r) = IntactChange r)"

lemma untouched_ledger: "well_behaved su \<Longrightarrow> untouched su w w' \<Longrightarrow>
    ledger_steps (su_codec su) (st_ledger (wd_stores w)) (st_ledger (wd_stores w'))"
  by (intro store_steps_ledger untouched_steps)

lemma seen_intact_later: "seen_intact su lg lg1 r \<Longrightarrow> ledger_steps (su_codec su) lg1 lg2 \<Longrightarrow> seen_intact su lg lg2 r"
  unfolding seen_intact_def by (meson rtranclp_trans)

lemma seen_intact_earlier: "ledger_steps (su_codec su) lg lg1 \<Longrightarrow> seen_intact su lg1 lg2 r \<Longrightarrow> seen_intact su lg lg2 r"
  unfolding seen_intact_def by (meson rtranclp_trans)

lemma checked_in_seq: "checked_in cd lg n = IntactChange r \<Longrightarrow> ch_seq r = n"
  by (auto simp: checked_in_def stored_row_def split: if_splits option.splits sum.splits prod.splits)

lemma load_selected_intact:
  assumes fine: "well_behaved su"
  shows "load_selected su ns w = (Ok rs, w') \<Longrightarrow>
    map ch_seq rs = ns \<and> (\<forall>r \<in> set rs. seen_intact su (st_ledger (wd_stores w)) (st_ledger (wd_stores w')) r)"
proof (induction ns arbitrary: w rs)
  case Nil
  then show ?case by (simp add: sv_ret_def)
next
  case (Cons n ns)
  obtain found w1 where c: "call_checked su n w = (found, w1)" by (cases "call_checked su n w")
  obtain f where f: "found = Inr f"
    using Cons.prems c by (cases found) (auto simp: sv_call_def sv_match_def sv_fail_def)
  obtain st where st: "f = checked_in (su_codec su) (st_ledger st) n" "w1 = \<lparr>wd_stores = st, wd_calls = Suc (wd_calls w)\<rparr>"
    "store_steps (su_codec su) (wd_stores w) st"
    using c [unfolded call_checked_def] f fine by (cases rule: store_call_cases) (auto simp: well_behaved_def)
  obtain r rs' where r: "f = IntactChange r" "ch_seq r > 0" "load_selected su ns w1 = (Ok rs', w')" "rs = r # rs'"
    using Cons.prems c f
    by (auto simp: sv_call_def sv_match_def sv_fail_def sv_bind_def sv_ret_def split: checked_change.splits if_splits prod.splits sum.splits)
  have steps: "ledger_steps (su_codec su) (st_ledger (wd_stores w)) (st_ledger st)"
    using st(3) by (rule store_steps_ledger)
  have later: "ledger_steps (su_codec su) (st_ledger st) (st_ledger (wd_stores w'))"
    using untouched_ledger [OF fine writes_nothingD [OF harmless_load_selected r(3)]] st(2) by simp
  have seq: "ch_seq r = n" using st(1) r(1) checked_in_seq by metis
  have "seen_intact su (st_ledger (wd_stores w)) (st_ledger (wd_stores w')) r"
    unfolding seen_intact_def using steps later r(1,2) st(1) seq by auto
  moreover have "\<forall>r \<in> set rs'. seen_intact su (st_ledger (wd_stores w)) (st_ledger (wd_stores w')) r"
    using Cons.IH [OF r(3)] seen_intact_earlier [OF steps] st(2) by auto
  ultimately show ?case using Cons.IH [OF r(3)] seq r(4) by simp
qed

text \<open>The records a selection names, newest first, every one intact when it was read.\<close>

lemma select_records:
  assumes fine: "well_behaved su" and "rollback_select su selection w = Some (Ok records, w')"
  shows "sorted_wrt (>) (map ch_seq records) \<and>
    (\<forall>seqs. selection = RollSeqs seqs \<longrightarrow> set (map ch_seq records) = set seqs) \<and>
    (\<forall>r \<in> set records. seen_intact su (st_ledger (wd_stores w)) (st_ledger (wd_stores w')) r)"
  using assms(2) unfolding rollback_select_def
proof (cases rule: tr_bind_cases)
  case (went seqs w1)
  have u: "untouched su w w1" using only_readsD [OF only_reads_seqs] went(1) by blast
  have seqs: "\<exists>xs. seqs = remdups_adj (sort xs) \<and> (\<forall>named. selection = RollSeqs named \<longrightarrow> xs = named)"
  proof (cases selection)
    case (RollSeqs xs)
    then show ?thesis using went(1) by (auto simp: tr_served_def sv_ret_def)
  next
    case (RollWeek week revision)
    with went(1) have "tr_bind (service_history su (FilterWeek week)) (\<lambda>records.
        tr_served (sv_ret (remdups_adj (sort (map ch_seq (changes_for_week records week revision)))))) w = Some (Ok seqs, w1)" by simp
    then show ?thesis by (cases rule: tr_bind_cases) (auto simp: tr_served_def sv_ret_def RollWeek)
  next
    case (RollActor who since)
    with went(1) have "tr_bind (service_history su (FilterActor who)) (\<lambda>records.
        tr_served (sv_ret (remdups_adj (sort (map ch_seq (changes_by_actor records who since)))))) w = Some (Ok seqs, w1)" by simp
    then show ?thesis by (cases rule: tr_bind_cases) (auto simp: tr_served_def sv_ret_def RollActor)
  qed
  then obtain xs where xs: "seqs = remdups_adj (sort xs)" "\<forall>named. selection = RollSeqs named \<longrightarrow> xs = named" by blast
  have "load_selected su (rev seqs) w1 = (Ok records, w')"
    using went(2) by (auto simp: tr_served_def sv_fail_def split: if_splits)
  note loaded = load_selected_intact [OF fine this]
  have "sorted_wrt (<) seqs" unfolding xs(1) by (simp add: strict_sorted_iff sorted_remdups_adj_distinct)
  then have "sorted_wrt (>) (rev seqs)" by (simp add: sorted_wrt_rev)
  then show ?thesis
    using loaded xs seen_intact_earlier [OF untouched_ledger [OF fine u]] by auto
qed simp

lemma apply_revert_uncommitted:
  "apply_revert records scope mode policy held now (d, ids) = Ok (Reverted a b c e f rows n, d', ids') \<Longrightarrow> n = None"
  by (drule apply_revert_cases) (auto split: if_splits)

definition committed_outcome :: "scheduler_error + revert_outcome \<times> id_source \<Rightarrow> bool" where
  "committed_outcome r \<longleftrightarrow> (\<exists>a b c d e rows n ids. r = Ok (Reverted a b c d e rows (Some n), ids))"

text \<open>One new record, by the administrator, of the revert of these records on the rows before it.\<close>

definition rolled_back_on ::
  "service \<Rightarrow> change_meta \<Rightarrow> rollback \<Rightarrow> reminder_policy \<Rightarrow> change_record list \<Rightarrow> ledger
    \<Rightarrow> scheduler_error + revert_outcome \<times> id_source \<Rightarrow> world \<Rightarrow> bool" where
  "rolled_back_on sv meta rb policy records lg r w' \<longleftrightarrow>
     (\<exists>kept unproven ids0 d c ident meta' seqs cancelled overridden skipped notices rows n ids'.
        let base = draft_new (load_scope unproven ScopeAll (lg_db lg)) in
        apply_revert records (rb_scope rb) (rb_mode rb) policy kept (sv_now sv) (base, ids0) =
          Ok (Reverted seqs cancelled overridden skipped notices rows n, d, ids') \<and>
        cm_origin meta' = cm_origin meta \<and> cm_refs meta' = map record_reference records \<and> \<not> ct_replayed c \<and>
        ledger_commit (su_codec (sv_around sv)) ident (db_revision (lg_db lg)) (into_changes d) meta' lg =
          Ok (Some c, st_ledger (wd_stores w')) \<and>
        r = Ok (Reverted seqs cancelled overridden skipped notices (changed_rows base d (into_changes d)) (Some (ct_seq c)), ids'))"

definition rolled_back ::
  "service \<Rightarrow> change_meta \<Rightarrow> rollback \<Rightarrow> reminder_policy \<Rightarrow> world
    \<Rightarrow> scheduler_error + revert_outcome \<times> id_source \<Rightarrow> world \<Rightarrow> bool" where
  "rolled_back sv meta rb policy w r w' \<longleftrightarrow>
     (\<exists>lg records. ledger_steps (su_codec (sv_around sv)) (st_ledger (wd_stores w)) lg \<and>
        sorted_wrt (>) (map ch_seq records) \<and>
        (\<forall>named. rb_selection rb = RollSeqs named \<longrightarrow> set (map ch_seq records) = set named) \<and>
        (\<forall>x \<in> set records. seen_intact (sv_around sv) (st_ledger (wd_stores w)) lg x) \<and>
        rolled_back_on sv meta rb policy records lg r w')"

definition rollback_ends ::
  "service \<Rightarrow> change_meta \<Rightarrow> rollback \<Rightarrow> reminder_policy \<Rightarrow> world
    \<Rightarrow> scheduler_error + revert_outcome \<times> id_source \<Rightarrow> world \<Rightarrow> bool" where
  "rollback_ends sv meta rb policy w r w' \<longleftrightarrow>
     untouched (sv_around sv) w w' \<and> \<not> committed_outcome r \<or> \<not> rb_preview rb \<and> rolled_back sv meta rb policy w r w'"

lemma rolled_back_later:
  assumes fine: "well_behaved (sv_around sv)" and u: "untouched (sv_around sv) w w1" and "rolled_back sv meta rb policy w1 r w'"
  shows "rolled_back sv meta rb policy w r w'"
proof -
  note steps = untouched_ledger [OF fine u]
  from assms(3) obtain lg records where "ledger_steps (su_codec (sv_around sv)) (st_ledger (wd_stores w1)) lg"
    "sorted_wrt (>) (map ch_seq records)" "\<forall>named. rb_selection rb = RollSeqs named \<longrightarrow> set (map ch_seq records) = set named"
    "\<forall>x \<in> set records. seen_intact (sv_around sv) (st_ledger (wd_stores w1)) lg x" "rolled_back_on sv meta rb policy records lg r w'"
    unfolding rolled_back_def by blast
  then show ?thesis
    unfolding rolled_back_def using rtranclp_trans [OF steps] seen_intact_earlier [OF steps] by blast
qed

lemma rollback_ends_later:
  assumes "well_behaved (sv_around sv)" "untouched (sv_around sv) w w1" "rollback_ends sv meta rb policy w1 r w'"
  shows "rollback_ends sv meta rb policy w r w'"
  using assms(3) rolled_back_later [OF assms(1,2)] untouched_trans [OF assms(2)] unfolding rollback_ends_def by blast

lemma rollback_ends_refused: "untouched (sv_around sv) w w' \<Longrightarrow> rollback_ends sv meta rb policy w (Inl e) w'"
  by (simp add: rollback_ends_def committed_outcome_def)

lemma store_failed_ends:
  assumes "tr_served (store_failed e) w = Some (r, w')"
  shows "rollback_ends sv meta rb policy w r w'"
  using assms rollback_ends_refused untouched_refl by (auto simp: tr_served_def store_failed_def sv_fail_def)

lemma rollback_commit_effect:
  assumes fine: "well_behaved (sv_around sv)"
    and "rollback_commit sv meta (rb_preview rb) retry records (db_revision (lg_db (st_ledger st))) base d out ids' \<lparr>wd_stores = st, wd_calls = n\<rparr> =
      Some (r, w')"
    and base: "base = draft_new (load_scope unproven ScopeAll (lg_db (st_ledger st)))"
    and planned: "apply_revert records (rb_scope rb) (rb_mode rb) policy kept (sv_now sv) (base, ids0) = Ok (out, d, ids')"
    and retry: "\<And>e w1. retry e ids' w1 = Some (r, w') \<Longrightarrow> rollback_ends sv meta rb policy w1 r w'"
    and before: "ledger_steps (su_codec (sv_around sv)) (st_ledger (wd_stores w)) (st_ledger st)"
      "untouched (sv_around sv) w \<lparr>wd_stores = st, wd_calls = n\<rparr>"
      "sorted_wrt (>) (map ch_seq records)" "\<forall>named. rb_selection rb = RollSeqs named \<longrightarrow> set (map ch_seq records) = set named"
      "\<forall>x \<in> set records. seen_intact (sv_around sv) (st_ledger (wd_stores w)) (st_ledger st) x"
  shows "rollback_ends sv meta rb policy w r w'"
proof (cases out)
  case (Reverted seqs cancelled overridden skipped notices rows seq')
  note none = apply_revert_uncommitted [OF planned [unfolded Reverted]]
  let ?changes = "into_changes d" and ?su = "sv_around sv"
  show ?thesis
  proof (cases "?changes = [] \<or> rb_preview rb")
    case True
    then have "w' = \<lparr>wd_stores = st, wd_calls = n\<rparr> \<and> \<not> committed_outcome r"
      using assms(2) none
      by (auto simp: rollback_commit_def Reverted tr_served_def sv_ret_def Let_def committed_outcome_def split: if_splits)
    then show ?thesis using before(2) by (simp add: rollback_ends_def)
  next
    case False
    let ?meta = "meta\<lparr>cm_notices := map (\<lambda>n. effect_kind (no_change n)) notices, cm_outbox := notices,
        cm_refs := map record_reference records\<rparr>"
    obtain r1 w1 where c: "call_commit_with ?su (db_revision (lg_db (st_ledger st))) ?changes ?meta [] [] \<lparr>wd_stores = st, wd_calls = n\<rparr> = (r1, w1)"
      by (metis surj_pair)
    have after: "(case r1 of
        Inr (Some c) \<Rightarrow>
          if ct_replayed c then Some (Err (already_applied c), w1)
          else Some (Ok (Reverted seqs cancelled overridden skipped notices (changed_rows base d ?changes) (Some (ct_seq c)), ids'), w1)
      | Inr None \<Rightarrow> Some (Ok (Reverted seqs cancelled overridden skipped notices (changed_rows base d ?changes) None, ids'), w1)
      | Inl e \<Rightarrow> retry e ids' w1) = Some (r, w')"
      using assms(2) False c by (simp add: rollback_commit_def Reverted Let_def call_commit_def)
    from c have "?changes \<noteq> []" using False by simp
    with c show ?thesis
    proof (cases rule: call_commit_cases)
      case (failed e)
      then show ?thesis
        using after retry [of e w1] rollback_ends_later [OF fine untouched_trans [OF before(2)]] by simp
    next
      case (earlier c')
      then show ?thesis
        using after untouched_trans [OF before(2)] rollback_ends_refused by auto
    next
      case (written c')
      then have r: "r = Ok (Reverted seqs cancelled overridden skipped notices (changed_rows base d ?changes) (Some (ct_seq c')), ids')"
        "w1 = w'" using after by simp_all
      obtain c1 lg ns where w: "commit_with_decline_notices (su_codec ?su) (su_ident ?su n) (db_revision (lg_db (st_ledger st)))
          ?changes ?meta [] [] (st_ledger (su_between ?su n st), st_declines (su_between ?su n st)) = Ok (Some c1, lg, ns)"
          "w1 = \<lparr>wd_stores = \<lparr>st_ledger = lg, st_declines = ns\<rparr>, wd_calls = Suc n\<rparr>"
        using written(3) by (auto simp: wrote_def found_def)
      have "r1 = Ok (Some c1)"
        using c w(1) written(1) by (auto simp: call_commit_with_def store_call_def Let_def res_bind_def split: if_splits)
      then have "c1 = c'" using written(1) by simp
      let ?lg = "st_ledger (su_between ?su n st)"
      note plain = commit_with_plain [OF w(1)]
      have steps: "ledger_steps (su_codec ?su) (st_ledger st) ?lg" using fine by (simp add: well_behaved_def store_steps_ledger)
      have "db_revision (lg_db ?lg) = db_revision (lg_db (st_ledger st))"
        using commit_fresh [OF plain] written(2) \<open>c1 = c'\<close> by simp
      then have same: "lg_db ?lg = lg_db (st_ledger st)" using steps_revision [OF steps] by auto
      have "rolled_back_on sv meta rb policy records ?lg r w'"
        unfolding rolled_back_on_def Let_def same base [symmetric]
      proof (intro exI conjI)
        show "apply_revert records (rb_scope rb) (rb_mode rb) policy kept (sv_now sv)
            (draft_new (load_scope unproven ScopeAll (lg_db (st_ledger st))), ids0) =
            Ok (Reverted seqs cancelled overridden skipped notices rows seq', d, ids')"
          using planned unfolding Reverted base .
        show "r = Ok (Reverted seqs cancelled overridden skipped notices
            (changed_rows (draft_new (load_scope unproven ScopeAll (lg_db (st_ledger st)))) d ?changes) (Some (ct_seq c')), ids')"
          using r(1) unfolding base .
        show "ledger_commit (su_codec ?su) (su_ident ?su n) (db_revision (lg_db (st_ledger st))) ?changes ?meta ?lg =
            Ok (Some c', st_ledger (wd_stores w'))"
          using plain w(2) \<open>c1 = c'\<close> r(2) by simp
        show "\<not> ct_replayed c'" by (rule written(2))
      qed simp_all
      moreover have "\<forall>x \<in> set records. seen_intact ?su (st_ledger (wd_stores w)) ?lg x"
        using before(5) seen_intact_later [OF _ steps] by blast
      ultimately have "rolled_back sv meta rb policy w r w'"
        unfolding rolled_back_def using rtranclp_trans [OF before(1) steps] before(3,4) by blast
      then show ?thesis using False by (simp add: rollback_ends_def)
    qed
  qed
qed (use assms(2) before(2) in \<open>auto simp: rollback_commit_def tr_served_def sv_ret_def rollback_ends_def committed_outcome_def\<close>)

end
