(* ===== verification/RollbackProperties.thy ===== *)
theory RollbackProperties
  imports RollbackRuns ServiceSamples LedgerProperties
begin

text \<open>
  What rolling back guarantees: reading the history ends with every record that matches, and a
  rollback is one new change - the revert of records that were read intact, planned on the rows stored
  directly before it - or it changes nothing.
\<close>

section \<open>One attempt and the next\<close>

lemma rollback_attempt_effect:
  assumes fine: "well_behaved (sv_around sv)"
    and "rollback_attempt sv meta rb policy held retry ids w = Some (r, w')"
    and retry: "\<And>e ids' w1. retry e ids' w1 = Some (r, w') \<Longrightarrow> rollback_ends sv meta rb policy w1 r w'"
  shows "rollback_ends sv meta rb policy w r w'"
  using assms(2) unfolding rollback_attempt_def
proof (cases rule: tr_bind_cases)
  case (failed e)
  then show ?thesis using only_readsD [OF only_reads_select failed(1)] rollback_ends_refused by simp
next
  case (went records w1)
  let ?su = "sv_around sv"
  note u1 = only_readsD [OF only_reads_select went(1)]
  note chosen = select_records [OF fine went(1)]
  from went(2) show ?thesis
  proof (cases rule: tr_bind_cases)
    case (failed e)
    then show ?thesis
      using untouched_trans [OF u1 only_readsD [OF only_reads_served failed(1)]] harmless rollback_ends_refused by metis
  next
    case (went kept w2)
    have u2: "untouched ?su w w2"
      by (rule untouched_trans [OF u1 only_readsD [OF only_reads_served went(1)]]) (intro harmless)
    from went(2) show ?thesis
    proof (cases rule: tr_bind_cases)
      case (failed e)
      then show ?thesis
        using untouched_trans [OF u2 only_readsD [OF only_reads_served failed(1)]] harmless rollback_ends_refused by metis
    next
      case (went snapshot w3)
      let ?st = "found ?su w2"
      have read: "snapshot = load_scope (su_unproven ?su (wd_calls w2)) ScopeAll (lg_db (st_ledger ?st))"
        "w3 = \<lparr>wd_stores = ?st, wd_calls = Suc (wd_calls w2)\<rparr>"
        using went(1) by (auto simp: tr_served_def sv_call_def sv_match_def sv_ret_def sv_fail_def call_load_def
            store_call_def found_def Let_def split: if_splits sum.splits)
      have u3: "untouched ?su w2 w3" by (simp add: read(2) untouched_def found_def)
      have steps: "ledger_steps (su_codec ?su) (st_ledger (wd_stores w1)) (st_ledger ?st)"
      proof -
        have "untouched ?su w1 w2"
          using \<open>tr_served _ w1 = Some (Inr kept, w2)\<close> only_readsD [OF only_reads_served] harmless by metis
        from untouched_ledger [OF fine untouched_trans [OF this u3]] show ?thesis by (simp add: read(2))
      qed
      show ?thesis
      proof (cases "apply_revert records (rb_scope rb) (rb_mode rb) policy kept (sv_now sv) (draft_new snapshot, ids)")
        case (Inl e)
        then show ?thesis
          using went(2) rollback_ends_refused untouched_trans [OF u2 u3]
          by (auto simp: tr_served_def sv_fail_def Let_def)
      next
        case (Inr planned)
        obtain out d ids' where planned: "planned = (out, d, ids')" by (rule prod_cases3)
        show ?thesis
        proof (rule rollback_commit_effect [OF fine])
          show "rollback_commit sv meta (rb_preview rb) retry records (db_revision (lg_db (st_ledger ?st))) (draft_new snapshot) d out ids'
              \<lparr>wd_stores = ?st, wd_calls = Suc (wd_calls w2)\<rparr> = Some (r, w')"
            using went(2) Inr by (simp add: planned read Let_def)
          show "draft_new snapshot = draft_new (load_scope (su_unproven ?su (wd_calls w2)) ScopeAll (lg_db (st_ledger ?st)))"
            by (simp only: read(1))
          show "apply_revert records (rb_scope rb) (rb_mode rb) policy kept (sv_now sv) (draft_new snapshot, ids) = Ok (out, d, ids')"
            using Inr by (simp only: planned)
          show "\<And>e w1. retry e ids' w1 = Some (r, w') \<Longrightarrow> rollback_ends sv meta rb policy w1 r w'" by (rule retry)
          show "ledger_steps (su_codec ?su) (st_ledger (wd_stores w)) (st_ledger ?st)"
            using rtranclp_trans [OF untouched_ledger [OF fine u1] steps] .
          show "untouched ?su w \<lparr>wd_stores = ?st, wd_calls = Suc (wd_calls w2)\<rparr>"
            using untouched_trans [OF u2 u3] by (simp only: read(2))
          show "\<forall>x \<in> set records. seen_intact ?su (st_ledger (wd_stores w)) (st_ledger ?st) x"
            using chosen seen_intact_later [OF _ steps] by blast
        qed (use chosen in blast)+
      qed
    qed
  qed
qed

lemma rollback_loop_effect:
  assumes "well_behaved (sv_around sv)"
  shows "rollback_loop spare sv meta rb policy held ids w = Some (r, w') \<Longrightarrow> rollback_ends sv meta rb policy w r w'"
proof (induction spare arbitrary: ids w)
  case 0
  then show ?case by (simp add: rollback_attempt_effect [OF assms] store_failed_ends)
next
  case (Suc spare)
  show ?case
  proof (rule rollback_attempt_effect [OF assms Suc.prems [unfolded rollback_loop.simps]])
    fix e ids' w1
    assume "(if is_conflict e then rollback_loop spare sv meta rb policy held ids' else tr_served (store_failed e)) w1 = Some (r, w')"
    then show "rollback_ends sv meta rb policy w1 r w'" using Suc.IH store_failed_ends by (cases "is_conflict e") auto
  qed
qed

section \<open>Properties\<close>

text \<open>C13. Reading the history ends, however many records other writers append meanwhile: the cursor moves
  forward at every page, so the loop returns - with every recorded change that matches, each once
  and in order, as the log stands when the last page was read, unless the store could not be
  reached or the filter cannot be asked of it - and it changes nothing.\<close>

theorem history_reads_end:
  assumes "well_behaved su" "codec_ok (su_codec su)" "db_sound db" "reached (su_codec su) db (st_ledger (wd_stores w))"
  shows "\<exists>r w'. service_history su f w = Some (r, w') \<and> untouched su w w' \<and>
    (case r of
       Inr records \<Rightarrow> \<exists>all. decode_rows (su_codec su) (lg_log (st_ledger (wd_stores w'))) = Ok all \<and>
         records = filter (matches f) all
     | Inl _ \<Rightarrow> (\<exists>n \<ge> wd_calls w. su_down su n) \<or> \<not> askable f)"
proof -
  obtain hist ss where "holds (su_codec su) (st_ledger (wd_stores w)) hist ss" "checkpoints_ok (st_ledger (wd_stores w))"
    using assms(4,3) by (rule reached_holds)
  then obtain r w' where r: "history_loop su (change_query_new f) [] w = Some (r, w')" "untouched su w w'"
    "\<forall>rs. r = Ok rs \<longrightarrow> (\<exists>hist' ss'. holds (su_codec su) (st_ledger (wd_stores w')) hist' ss' \<and>
       rs = filter (matches f) (map fst hist'))"
    "\<forall>e. r = Err e \<longrightarrow> (\<exists>n \<ge> wd_calls w. su_down su n) \<or> \<not> askable f"
    using history_loop_ends [OF assms(1,2), of w hist ss "change_query_new f" 0 "[]"]
    by (auto simp: starts_at_def change_query_new_def)
  have "decode_rows (su_codec su) (lg_log lg) = Ok (map fst hist')" if "holds (su_codec su) lg hist' ss'" for lg hist' ss'
  proof (rule decode_logged [OF assms(2)])
    show "logged (lg_log lg) hist'" using that by (simp only: holds_def)
    show "\<forall>(r, body) \<in> set hist'. record_storable r \<and> record_canonical (su_codec su) r = Ok body"
      using holds_in(1,4) [OF that] by blast
  qed
  then have "case r of
       Inr records \<Rightarrow> \<exists>all. decode_rows (su_codec su) (lg_log (st_ledger (wd_stores w'))) = Ok all \<and> records = filter (matches f) all
     | Inl _ \<Rightarrow> (\<exists>n \<ge> wd_calls w. su_down su n) \<or> \<not> askable f"
    using r(3,4) by (cases r) auto
  then show ?thesis using r(1,2) unfolding service_history_def by blast
qed

text \<open>C8. A rollback is one change or none: whatever other writers do between its calls, a rollback that
  commits selected records that were each intact when read, newest first and exactly the named
  ones, and wrote in one commit, referring to them, what reverting them makes of the rows stored
  directly before it; a preview, a refusal or a failure leaves the store as the others made it.\<close>

theorem rollbacks_are_one_change:
  assumes "well_behaved (sv_around sv)"
    and "service_rollback sv admin request_id request policy held w = Some (r, w')"
  shows "untouched (sv_around sv) w w' \<and> \<not> committed_outcome r \<or>
    \<not> rq_preview request \<and>
      rolled_back sv (rollback_meta sv admin request_id request) (rollback_new request) policy w r w'"
proof -
  let ?su = "sv_around sv" and ?meta = "rollback_meta sv admin request_id request" and ?rb = "rollback_new request"
  have "rollback_ends sv ?meta ?rb policy w r w'"
    using assms(2) unfolding service_rollback_def Let_def
  proof (cases rule: tr_bind_cases)
    case (failed e)
    have "untouched ?su w w'"
      by (rule only_readsD [OF only_reads_served failed(1)]) (auto intro!: harmless)
    then show ?thesis using failed(2) rollback_ends_refused by simp
  next
    case (went a w1)
    have "untouched ?su w w1"
      by (rule only_readsD [OF only_reads_served went(1)]) (auto intro!: harmless)
    then show ?thesis by (rule rollback_ends_later [OF assms(1) _ rollback_loop_effect [OF assms(1) went(2)]])
  qed
  then show ?thesis by (simp add: rollback_ends_def rollback_new_def)
qed

section \<open>Witnesses\<close>

text \<open>A weekly timing gets a note, and an administrator rolls that change back.\<close>

definition noted_db :: database where
  "noted_db = sample_db 2 (Some (lit ''n''))"

definition noted_rows :: "row_change list" where
  "noted_rows =
     [\<lparr>rc_key = KFixedRun (lit ''f1''), rc_before = Some (VFixedRun sample_fixed),
       rc_after = Some (VFixedRun (sample_fixed\<lparr>f_note := Some (lit ''n'')\<rparr>))\<rparr>]"

definition undo_note :: rollback_request where
  "undo_note = \<lparr>rq_selection = RollSeqs [1], rq_mode = Strict, rq_preview = False\<rparr>"

lemma noted_only:
  assumes "describes rows (db_row (sample_db 1 None)) (db_row noted_db)"
    and "distinct (map rc_key rows)" "\<forall>row \<in> set rows. rc_before row \<noteq> rc_after row"
  shows "rows = noted_rows"
proof -
  let ?k = "KFixedRun (lit ''f1'')"
  have same: "db_row (sample_db 1 None) k = db_row noted_db k" if "k \<noteq> ?k" for k
    using that by (cases k) (simp_all add: sample_db_def noted_db_def empty_db_def t_get_def)
  have at: "db_row (sample_db 1 None) ?k = Some (VFixedRun sample_fixed)"
    "db_row noted_db ?k = Some (VFixedRun (sample_fixed\<lparr>f_note := Some (lit ''n'')\<rparr>))"
    using sample_row [of 1 None] sample_row [of 2 "Some (lit ''n'')"] by (simp_all add: sample_fixed_note noted_db_def)
  have differ: "sample_fixed \<noteq> sample_fixed\<lparr>f_note := Some (lit ''n'')\<rparr>" by (simp add: sample_fixed_def)
  have key: "rc_key row = ?k" if "row \<in> set rows" for row
    using that assms(1,3) same [of "rc_key row"] unfolding describes_def by metis
  have "?k \<in> rc_key ` set rows" using assms(1) at differ unfolding describes_def by (metis option.inject row_value.inject(1))
  then obtain row where "row \<in> set rows" by blast
  then have "rows = [row]" using key assms(2)
    by (cases rows) (auto, metis image_eqI list.set_intros(1) neq_Nil_conv list.set_intros(2))
  then have "rows = [row]" "rc_key row = ?k" using key by simp_all
  then show ?thesis using assms(1) at unfolding describes_def noted_rows_def by (cases row) auto
qed

lemma noted_store:
  obtains lg hist ss r body where "reached unary_codec (sample_db 1 None) lg" "holds unary_codec lg (hist @ [(r, body)]) ss"
    "length hist = 1" "lg_db lg = noted_db" "ch_rows r = noted_rows" "ch_seq r = 1"
    "lit ''c1'' \<notin> lr_id ` set (t_values (lg_log lg))"
proof -
  obtain lgs where s: "reached unary_codec empty_db lgs" "lg_db lgs = sample_db 1 None"
    using sample_history unfolding sample_stores_def by (meson reached_steps rtranclp.rtrancl_into_rtrancl rtranclp.rtrancl_refl)
  obtain hs sss where "holds unary_codec lgs hs sss" using s(1) empty_db_sound(1) by (rule reached_holds)
  then have ok: "db_ok (sample_db 1 None)" "db_storable (sample_db 1 None)" using s(2) unfolding holds_def by metis+
  have rev: "db_revision (sample_db 1 None) < i64_limit" by (simp add: sample_db_def i64_limit_def)
  obtain lg0 where lg0: "ensure_genesis unary_codec (unrecorded (sample_db 1 None)) = Ok lg0"
    using ensure_genesis_holds(1) [OF rev] by blast
  obtain g b where g: "record_genesis unary_codec (db_revision (sample_db 1 None)) = Ok g"
    "holds unary_codec lg0 [(g, b)] [db_row (sample_db 1 None)]" "lg_db lg0 = sample_db 1 None"
    using ensure_genesis_holds(2) [OF rev lg0 ok] by blast
  have gp: "ch_id g = lit ''genesis''" "og_request_id (ch_origin g) = None"
    using g(1) by (auto elim!: genesis_parts simp: origin_new_def)
  have "logged (lg_log lg0) [(g, b)]" using g(2) by (simp only: holds_def)
  then obtain dg where log0: "lg_log lg0 = [(ch_seq g, log_row_of g b dg)]" by (auto simp: logged_def list_all2_Cons2)
  note facts = t_values_def log_row_of_def gp sample_meta_def
  show thesis
  proof (rule sample_commit [OF g(2), of "lit ''q1''" None "lit ''c7''" "Some (lit ''n'')" 1])
    show "replayed lg0 (sample_meta (lit ''q1'') None) = Ok None" by (rule no_request) (simp add: log0 facts)
    show "check_expect lg0 (sample_meta (lit ''q1'') None) = Ok ()"
      by (simp add: check_expect_def sample_meta_def validate_fields_def check_override_actor_def)
    show "store_write (collapse [PutFixedRun (sample_fixed\<lparr>f_note := Some (lit ''n'')\<rparr>)]) (lg_db lg0) = Ok (sample_db (1 + 1) (Some (lit ''n'')))"
      using sample_writes(2) g(3) by (simp add: numeral_2_eq_2)
    show "lit ''c7'' \<notin> lr_id ` set (t_values (lg_log lg0))" by (simp add: log0 facts)
  next
    fix lg r body
    assume n: "holds unary_codec lg ([(g, b)] @ [(r, body)]) ([db_row (sample_db 1 None)] @ [db_row (sample_db (1 + 1) (Some (lit ''n'')))])"
      "lg_db lg = sample_db (1 + 1) (Some (lit ''n''))" "ch_id r = lit ''c7''"
      "lg_log lg = lg_log lg0 @ [(length [(g, b)], log_row_of r body (Some (lit ''d'')))]" "ledger_step unary_codec lg0 lg"
    have two: "sample_db (1 + 1) (Some (lit ''n'')) = noted_db" by (simp add: noted_db_def numeral_2_eq_2)
    have "describes (ch_rows r) (db_row (sample_db 1 None)) (db_row noted_db)" "rows_ok r" "ch_seq r = 1"
      using holds_parts [OF n(1)] unfolding two by (simp_all add: upt_rec)
    then have "ch_rows r = noted_rows" by (intro noted_only) (simp_all add: rows_ok_def)
    moreover have "reached unary_codec (sample_db 1 None) lg" using lg0 n(5) by (auto simp: reached_def)
    ultimately show thesis
      using that [OF _ n(1)] n(2) \<open>ch_seq r = 1\<close> unfolding two by (simp add: n(3,4) log0 facts)
  qed (use g(3) in \<open>simp_all add: sample_db_def\<close>)
qed

lemma undone_note:
  "is_ok_and (\<lambda>(out, d, _). into_changes d = [PutFixedRun (sample_fixed\<lparr>f_note := None\<rparr>)] \<and>
      (case out of Reverted seqs _ _ _ _ _ _ \<Rightarrow> seqs = [1] | _ \<Rightarrow> False))
    (apply_revert [sample_record noted_rows] Whole Strict (sp_reminders sample_policy) [] 0
       (draft_new (load_scope (\<lambda>_. False) ScopeAll noted_db), ids))"
  by code_simp

lemma undone_writes: "store_write (collapse [PutFixedRun (sample_fixed\<lparr>f_note := None\<rparr>)]) noted_db = Ok (sample_db 3 None)"
  using sample_writes(3) by (simp add: noted_db_def)

lemma checked_intact:
  assumes h: "holds cd lg hist ss" and codec: "codec_ok cd" and r: "(r, body) \<in> set hist"
  shows "checked_in cd lg (ch_seq r) = IntactChange r"
proof -
  obtain digest where "t_get (lg_log lg) (ch_seq r) = Some (log_row_of r body digest)"
    using log_at [OF _ r] h seqs_of [OF h] by (auto simp: holds_def)
  moreover have "check_stored cd r body = Ok ()" using holds_in(4,5) [OF h r] check_stored_Ok_iff by blast
  ultimately show ?thesis
    using holds_in(3) [OF h r] stored_row_logged [OF codec holds_in(1,4) [OF h r], of None digest] by (simp add: checked_in_def)
qed

text \<open>Without other writers the store stays as it is.\<close>

lemma quiet_others: "others quiet_around a b st = st"
proof -
  have "fold (\<lambda>n st. su_between quiet_around n st) ns st = st" for ns
    by (induction ns) (simp_all add: quiet_around_def)
  then show ?thesis by (simp add: others_def)
qed

theorem history_reads_end_witness:
  "\<exists>lg records w'. lg_db lg = sample_db 1 None \<and>
     service_history quiet_around (FilterWeek 0) (sample_world lg 0) = Some (Ok records, w') \<and>
     st_ledger (wd_stores w') = lg \<and>
     (\<exists>all. decode_rows unary_codec (lg_log lg) = Ok all \<and> records = filter (matches (FilterWeek 0)) all)"
proof -
  obtain lg where s: "reached unary_codec empty_db lg" "lg_db lg = sample_db 1 None"
    using sample_history unfolding sample_stores_def by (meson reached_steps rtranclp.rtrancl_into_rtrancl rtranclp.rtrancl_refl)
  have quiet: "su_codec quiet_around = unary_codec" "\<not> su_down quiet_around n" for n by (simp_all add: quiet_around_def)
  have "\<not> isl (col_instant 0)" by code_simp
  then have ask: "askable (FilterWeek 0)" by simp
  obtain r w' where r: "service_history quiet_around (FilterWeek 0) (sample_world lg 0) = Some (r, w')"
    "untouched quiet_around (sample_world lg 0) w'"
    "case r of
       Inr records \<Rightarrow> \<exists>all. decode_rows unary_codec (lg_log (st_ledger (wd_stores w'))) = Ok all \<and>
         records = filter (matches (FilterWeek 0)) all
     | Inl _ \<Rightarrow> (\<exists>n \<ge> wd_calls (sample_world lg 0). su_down quiet_around n) \<or> \<not> askable (FilterWeek 0)"
    using history_reads_end [OF quiet_well_behaved, of empty_db "sample_world lg 0" "FilterWeek 0"] codec_ok_unary
      empty_db_sound(1) s(1) unfolding quiet(1) by auto
  have "st_ledger (wd_stores w') = lg" using r(2) by (simp add: untouched_def quiet_others)
  moreover obtain records where "r = Ok records" using r(3) ask quiet(2) by (cases r) auto
  ultimately show ?thesis using r(1,3) s(2) by auto
qed

theorem rollbacks_are_one_change_witness:
  "\<exists>lg out ids lg' r.
     lg_db lg = noted_db \<and>
     service_rollback (sample_service quiet_around) (lit ''a'') None undo_note (sp_reminders sample_policy) (\<lambda>_. [])
       (sample_world lg 0) = Some (Ok (out, ids), sample_world lg' r) \<and>
     lg_db lg' = sample_db 3 None \<and>
     rolled_back (sample_service quiet_around) (rollback_meta (sample_service quiet_around) (lit ''a'') None undo_note)
       (rollback_new undo_note) (sp_reminders sample_policy) (sample_world lg 0) (Ok (out, ids)) (sample_world lg' r)"
proof -
  let ?su = quiet_around and ?sv = "sample_service quiet_around" and ?policy = "sp_reminders sample_policy"
  obtain lg hist ss r body where s: "holds unary_codec lg (hist @ [(r, body)]) ss" "length hist = 1" "lg_db lg = noted_db"
    "ch_rows r = noted_rows" "ch_seq r = 1" "lit ''c1'' \<notin> lr_id ` set (t_values (lg_log lg))"
    by (rule noted_store)
  let ?meta = "rollback_meta ?sv (lit ''a'') None undo_note" and ?snapshot = "load_scope (\<lambda>_. False) ScopeAll noted_db"
  have around: "sv_around ?sv = ?su" "sv_now ?sv = 0" by (simp_all add: sample_service_def)
  have same: "apply_revert [r] Whole Strict ?policy [] 0 = apply_revert [sample_record noted_rows] Whole Strict ?policy [] 0"
  proof -
    have seq: "ch_seq (sample_record noted_rows) = 1" "ch_rows (sample_record noted_rows) = noted_rows"
      by (simp_all add: sample_record_def)
    have "revert_row Whole r = revert_row Whole (sample_record noted_rows)"
      by (intro ext) (simp add: revert_row_def s(5) seq(1) Let_def)
    then have "revert_records Whole [r] = revert_records Whole [sample_record noted_rows]"
      by (intro ext) (simp add: revert_records_def s(4) seq(2))
    then show ?thesis by (simp add: apply_revert_def s(5) seq(1))
  qed
  obtain seqs cancelled overridden skipped notices rows n d ids' where plan:
    "apply_revert [r] Whole Strict ?policy [] 0 (draft_new ?snapshot, sv_ids ?sv) =
       Ok (Reverted seqs cancelled overridden skipped notices rows n, d, ids')"
    "into_changes d = [PutFixedRun (sample_fixed\<lparr>f_note := None\<rparr>)]"
    using undone_note [of "sv_ids ?sv"] unfolding same
    by (auto simp: is_ok_and_def split: sum.splits revert_outcome.splits)
  let ?full = "?meta\<lparr>cm_notices := map (\<lambda>n. effect_kind (no_change n)) notices, cm_outbox := notices, cm_refs := map record_reference [r]\<rparr>"
  have meta: "?meta = \<lparr>cm_origin = \<lparr>og_actor = ActAdmin (lit ''a''), og_surface = Rollback, og_request_id = None\<rparr>,
       cm_at = 0, cm_notices = [], cm_refs = [], cm_request_digest = None, cm_expect = expect_none, cm_outbox = []\<rparr>"
    by (simp add: rollback_meta_def undo_note_def around)
  have new: "replayed lg ?full = Ok None" "check_expect lg ?full = Ok ()"
    by (simp_all add: meta replayed_def check_expect_def expect_none_def validate_fields_def check_override_actor_def)
  have rev: "db_revision noted_db = 2" by (simp add: noted_db_def sample_db_def)
  obtain lg' where c: "ledger_commit unary_codec (lit ''c1'') 2 [PutFixedRun (sample_fixed\<lparr>f_note := None\<rparr>)] ?full lg =
      Ok (Some \<lparr>ct_seq = length (hist @ [(r, body)]), ct_revision = 2 + 1, ct_replayed = False\<rparr>, lg')"
    using commit_written [OF s(1) codec_ok_unary new _ _ undone_writes [folded s(3)] sample_references sample_clocked, of 2 "lit ''c1''"]
      s(2,3,5,6) rev unary_no_second [OF s(1)] year_1970
    by (auto simp: meta meta_u64_def record_reference_def expect_none_def i64_limit_def)
  have "lg_db lg' = sample_db 3 None"
    using c
  proof (cases rule: ledger_commitE)
    case (new db c)
    then show ?thesis using append_holds [OF s(1) new(5) sample_clocked _ new(6)] undone_writes s(3,5)
      by (auto simp: meta meta_u64_def record_reference_def)
  qed (use new in auto)
  have commit: "call_commit ?su 2 [PutFixedRun (sample_fixed\<lparr>f_note := None\<rparr>)] ?full (sample_world lg (Suc (Suc (Suc 0)))) =
      (Ok (Some \<lparr>ct_seq = length (hist @ [(r, body)]), ct_revision = 2 + 1, ct_replayed = False\<rparr>), sample_world lg' 4)"
    using c by (simp add: call_commit_def call_commit_with_def store_call_def quiet_around_def commit_with_none)
  have calls: "call_checked ?su 1 (sample_world lg 0) = (Ok (IntactChange r), sample_world lg 1)"
    "call_held ?su (\<lambda>_. []) (sample_world lg 1) = (Ok [], sample_world lg (Suc (Suc 0)))"
    "call_load ?su ScopeAll (sample_world lg (Suc (Suc 0))) = (Ok ?snapshot, sample_world lg (Suc (Suc (Suc 0))))"
    using checked_intact [OF s(1) codec_ok_unary, of r body] s(3,5)
    by (simp_all add: call_checked_def call_held_def call_load_def store_call_def quiet_around_def)
  have select: "rollback_select ?su (RollSeqs [1]) (sample_world lg 0) = Some (Ok [r], sample_world lg 1)"
    using calls(1) s(5)
    by (simp add: rollback_select_def tr_bind_def tr_served_def sv_ret_def sv_call_def sv_match_def sv_bind_def)
  have request: "rollback_new undo_note = \<lparr>rb_selection = RollSeqs [1], rb_scope = Whole, rb_mode = Strict, rb_preview = False\<rparr>"
    "rq_preview undo_note = False"
    by (simp_all add: rollback_new_def undo_note_def)
  have passed: "check_request ?su ?meta (sample_world lg 0) = (Ok (), sample_world lg 0)"
    by (simp add: check_request_def meta sv_ret_def)
  let ?r = "Ok (Reverted seqs cancelled overridden skipped notices
      (changed_rows (draft_new ?snapshot) d [PutFixedRun (sample_fixed\<lparr>f_note := None\<rparr>)])
      (Some (length (hist @ [(r, body)]))), ids')"
  have attempt: "rollback_attempt ?sv ?meta (rollback_new undo_note) ?policy (\<lambda>_. []) retry (sv_ids ?sv) (sample_world lg 0) =
      Some (?r, sample_world lg' 4)" for retry
    using plan commit
    by (simp add: rollback_attempt_def request around tr_bind_def tr_served_def select [unfolded One_nat_def] sv_call_def sv_match_def sv_ret_def
        calls(2,3) [unfolded One_nat_def] rev rollback_commit_def Let_def)
  have run: "service_rollback ?sv (lit ''a'') None undo_note ?policy (\<lambda>_. []) (sample_world lg 0) = Some (?r, sample_world lg' 4)"
    by (simp add: service_rollback_def request(2) tr_bind_def tr_served_def around passed commit_attempts_def numeral_2_eq_2 attempt Let_def)
  have "committed_outcome ?r" by (auto simp: committed_outcome_def)
  then have "rolled_back ?sv ?meta (rollback_new undo_note) ?policy (sample_world lg 0) ?r (sample_world lg' 4)"
    using rollbacks_are_one_change [OF _ run] quiet_well_behaved around(1) by simp
  then show ?thesis using s(3) run \<open>lg_db lg' = sample_db 3 None\<close> by blast
qed

end
