(* ===== verification/DraftOps.thy ===== *)
theory DraftOps
  imports Op Json
begin

text \<open>
  Staged drafts: the mutations a draft holds as values (\<open>drafts/op.rs\<close>) and their replay on a snapshot
  (\<open>drafts/replay.rs\<close>), which logs the id of every row each operation creates so that two replays can be
  compared. A rejected operation leaves the working copy as it was before it. The source keeps what it
  partly wrote, of which a merge reads only the names of rows it created; no listing holds those.
\<close>

section \<open>Operations\<close>

datatype draft_target = Existing str | Created nat

datatype draft_op =
    DrAddFixedRun new_fixed_run
  | DrApplyFixedEdit draft_target fixed_edit fixed_edit_choices
  | DrFixedParticipants draft_target (dr_add: "str list") (dr_gone: "str list")
  | DrRetireFixedRun draft_target (dr_weeks: "instant list")
  | DrCreateRun "draft_target option" "str option" (dr_week: instant) (dr_slot: instant) "str list" "str list"
      run_status run_source
  | DrAmendRun draft_target instant
  | DrSetStatus draft_target status_change
  | DrSwapParticipants draft_target "str list" "str list" bool
  | DrSetRsvp draft_target str rsvp_state rsvp_source
  | DrResetToFixed draft_target
  | DrSetRunBosses draft_target "str list"
  | DrEnsureReminders draft_target
  | DrRecountRun draft_target
  | DrReviveRun draft_target

datatype replay_error =
    ReSchedule schedule_error
  | ReUnresolved nat
  | ReWeekMismatch instant instant

fun resolve_target :: "draft_target \<Rightarrow> str option list \<Rightarrow> replay_error + str" where
  "resolve_target (Existing i) created = Ok i"
| "resolve_target (Created ord) created =
     (if ord < length created then ok_or (ReUnresolved ord) (created ! ord) else Err (ReUnresolved ord))"

fun to_op :: "str option list \<Rightarrow> schedule_policy \<Rightarrow> directory \<Rightarrow> draft_op \<Rightarrow> replay_error + op" where
  "to_op created policy dir (DrAddFixedRun new) = Ok (AddFixedRun new)"
| "to_op created policy dir (DrFixedParticipants fixed added gone) =
     res_bind (resolve_target fixed created) (\<lambda>i. Ok (FixedParticipants i added gone dir policy))"
| "to_op created policy dir (DrApplyFixedEdit fixed edit' choices) =
     res_bind (resolve_target fixed created) (\<lambda>i.
     Ok (ApplyFixedEdit \<lparr>er_fixed_id = i, er_edit = edit', er_choices = choices\<rparr> dir policy))"
| "to_op created policy dir (DrRetireFixedRun fixed weeks) =
     res_bind (resolve_target fixed created) (\<lambda>i.
     res_bind (res_map_err (\<lambda>e. ReSchedule (DateError e))
       (res_list (\<lambda>week. week_start_new (AtInstant week) (sp_zone policy)) weeks)) (\<lambda>starts.
     Ok (RetireFixedRun i starts (sp_reminders policy))))"
| "to_op created policy dir (DrCreateRun fixed channel_id week slot bosses participants status source) =
     res_bind (case fixed of None \<Rightarrow> Ok None | Some t \<Rightarrow> res_bind (resolve_target t created) (\<lambda>i. Ok (Some i))) (\<lambda>fixed_run.
     Ok (CreateRun \<lparr>nr_fixed_run_id = fixed_run, nr_channel_id = channel_id, nr_week_start = week, nr_datetime = slot,
       nr_bosses = bosses, nr_participants = participants, nr_status = status, nr_source = source\<rparr>))"
| "to_op created policy dir (DrAmendRun run slot) =
     res_bind (resolve_target run created) (\<lambda>i. Ok (AmendRun i slot policy))"
| "to_op created policy dir (DrSetStatus run change) =
     res_bind (resolve_target run created) (\<lambda>i. Ok (SetStatus i change (sp_reminders policy)))"
| "to_op created policy dir (DrSwapParticipants run gone added via_portal) =
     res_bind (resolve_target run created) (\<lambda>i. Ok (SwapParticipants i gone added via_portal dir))"
| "to_op created policy dir (DrSetRsvp run user state source) =
     res_bind (resolve_target run created) (\<lambda>i. Ok (SetRsvp i user state source))"
| "to_op created policy dir (DrResetToFixed run) =
     res_bind (resolve_target run created) (\<lambda>i. Ok (ResetToFixed i policy))"
| "to_op created policy dir (DrSetRunBosses run bosses) =
     res_bind (resolve_target run created) (\<lambda>i. Ok (SetRunBosses i bosses (sp_reminders policy)))"
| "to_op created policy dir (DrEnsureReminders run) =
     res_bind (resolve_target run created) (\<lambda>i. Ok (EnsureReminders i False (sp_reminders policy)))"
| "to_op created policy dir (DrRecountRun run) =
     res_bind (resolve_target run created) (\<lambda>i. Ok (RecountRun i))"
| "to_op created policy dir (DrReviveRun run) =
     res_bind (resolve_target run created) (\<lambda>i. Ok (ReviveRun i))"

fun is_proposal_only :: "draft_op \<Rightarrow> bool" where
  "is_proposal_only (DrSetRunBosses _ _) \<longleftrightarrow> True"
| "is_proposal_only (DrEnsureReminders _) \<longleftrightarrow> True"
| "is_proposal_only (DrRecountRun _) \<longleftrightarrow> True"
| "is_proposal_only (DrReviveRun _) \<longleftrightarrow> True"
| "is_proposal_only _ \<longleftrightarrow> False"

fun draft_op_kind :: "draft_op \<Rightarrow> str" where
  "draft_op_kind (DrAddFixedRun _) = lit ''add_fixed_run''"
| "draft_op_kind (DrApplyFixedEdit _ _ _) = lit ''apply_fixed_edit''"
| "draft_op_kind (DrFixedParticipants _ _ _) = lit ''fixed_participants''"
| "draft_op_kind (DrRetireFixedRun _ _) = lit ''retire_fixed_run''"
| "draft_op_kind (DrCreateRun _ _ _ _ _ _ _ _) = lit ''create_run''"
| "draft_op_kind (DrAmendRun _ _) = lit ''amend_run''"
| "draft_op_kind (DrSetStatus _ _) = lit ''set_status''"
| "draft_op_kind (DrSwapParticipants _ _ _ _) = lit ''swap_participants''"
| "draft_op_kind (DrSetRsvp _ _ _ _) = lit ''set_rsvp''"
| "draft_op_kind (DrResetToFixed _) = lit ''reset_to_fixed''"
| "draft_op_kind (DrSetRunBosses _ _) = lit ''set_run_bosses''"
| "draft_op_kind (DrEnsureReminders _) = lit ''ensure_reminders''"
| "draft_op_kind (DrRecountRun _) = lit ''recount_run''"
| "draft_op_kind (DrReviveRun _) = lit ''revive_run''"

section \<open>Ids and their owners\<close>

definition preview_id_prefix :: str where
  "preview_id_prefix = lit ''preview-''"

text \<open>\<open>PreviewGen\<close>: \<open>preview-1\<close>, \<open>preview-2\<close> and so on.\<close>

definition preview_gen :: id_source where
  "preview_gen = \<lparr>id_supply = (\<lambda>n. preview_id_prefix @ dec (n + 1)), id_drawn = 0\<rparr>"

text \<open>\<open>PreviewIds\<close>, the owner log: which operation drew an id, and as which draw.\<close>

record preview_ids =
  pi_next :: nat
  pi_ord :: nat
  pi_owners :: "(str, nat \<times> nat) table"

definition owner_of :: "preview_ids \<Rightarrow> str \<Rightarrow> (nat \<times> nat) option" where
  "owner_of log i = t_get (pi_owners log) i"

definition note_id :: "str \<Rightarrow> preview_ids \<Rightarrow> preview_ids" where
  "note_id i log = log\<lparr>pi_next := pi_next log + 1, pi_owners := t_insert i (pi_ord log, pi_next log + 1) (pi_owners log)\<rparr>"

text \<open>\<open>Recorder\<close>: the ids drawn between two states of a source, noted in order.\<close>

definition note_drawn :: "id_source \<Rightarrow> id_source \<Rightarrow> preview_ids \<Rightarrow> preview_ids" where
  "note_drawn ids ids' log = fold (\<lambda>n. note_id (id_supply ids n)) [id_drawn ids ..< id_drawn ids'] log"

section \<open>Staging checks\<close>

datatype staged_error =
    StPreviewTarget
  | StMissingTiming str
  | StWeekMismatch instant instant
  | StSchedule schedule_error

definition usize_max :: nat where
  "usize_max = 2 ^ 64 - 1"

fun replay_error_of :: "staged_error \<Rightarrow> replay_error" where
  "replay_error_of (StSchedule e) = ReSchedule e"
| "replay_error_of (StMissingTiming i) = ReSchedule (UnknownFixedRun i)"
| "replay_error_of StPreviewTarget = ReUnresolved usize_max"
| "replay_error_of (StWeekMismatch week slot_week) = ReWeekMismatch week slot_week"

definition resolve_staged :: "draft_target \<Rightarrow> str option list \<Rightarrow> staged_error + str" where
  "resolve_staged t created =
     (if (case t of Existing i \<Rightarrow> starts_with i preview_id_prefix | Created _ \<Rightarrow> False) then Err StPreviewTarget
      else res_map_err (\<lambda>_. StPreviewTarget) (resolve_target t created))"

fun targets_of :: "draft_op \<Rightarrow> draft_target list" where
  "targets_of (DrAddFixedRun _) = []"
| "targets_of (DrApplyFixedEdit fixed _ _) = [fixed]"
| "targets_of (DrFixedParticipants fixed _ _) = [fixed]"
| "targets_of (DrRetireFixedRun fixed _) = [fixed]"
| "targets_of (DrCreateRun fixed _ _ _ _ _ _ _) = (case fixed of None \<Rightarrow> [] | Some t \<Rightarrow> [t])"
| "targets_of (DrAmendRun run _) = [run]"
| "targets_of (DrSetStatus run _) = [run]"
| "targets_of (DrSwapParticipants run _ _ _) = [run]"
| "targets_of (DrSetRsvp run _ _ _) = [run]"
| "targets_of (DrResetToFixed run) = [run]"
| "targets_of (DrSetRunBosses run _) = [run]"
| "targets_of (DrEnsureReminders run) = [run]"
| "targets_of (DrRecountRun run) = [run]"
| "targets_of (DrReviveRun run) = [run]"

text \<open>A staged run joins a weekly timing that exists, in the boss week of its slot.\<close>

definition check_new_run :: "draft \<Rightarrow> str option list \<Rightarrow> draft_op \<Rightarrow> schedule_policy \<Rightarrow> staged_error + unit" where
  "check_new_run d created a policy =
     (case a of
        DrCreateRun fixed _ week slot _ _ _ _ \<Rightarrow>
          res_bind (case fixed of
              None \<Rightarrow> Ok ()
            | Some t \<Rightarrow>
                res_bind (resolve_staged t created) (\<lambda>i.
                if draft_fixed_run d i = None then Err (StMissingTiming i) else Ok ())) (\<lambda>_.
          res_bind (res_map_err (\<lambda>e. StSchedule (DateError e))
              (res_bind (week_of policy (AtInstant slot)) (\<lambda>start. utc_instant (AtZoned start)))) (\<lambda>slot_week.
          if week \<noteq> slot_week then Err (StWeekMismatch week slot_week) else Ok ()))
      | _ \<Rightarrow> Ok ())"

definition check_staged ::
  "(str \<Rightarrow> str) \<Rightarrow> draft \<Rightarrow> str option list \<Rightarrow> draft_op \<Rightarrow> schedule_policy \<Rightarrow> directory \<Rightarrow> instant \<Rightarrow> staged_error + unit" where
  "check_staged lower d created a policy dir now =
     res_bind (res_list (\<lambda>t. resolve_staged t created) (targets_of a)) (\<lambda>_.
     res_bind (check_new_run d created a policy) (\<lambda>_.
     res_bind (res_map_err (\<lambda>e. case e of ReSchedule e \<Rightarrow> StSchedule e | _ \<Rightarrow> StPreviewTarget)
       (to_op created policy dir a)) (\<lambda>a'.
     res_bind (res_map_err StSchedule (apply_op lower a' now (d, preview_gen))) (\<lambda>_.
     Ok ()))))"

section \<open>Replay\<close>

record replay =
  re_draft :: draft
  re_ids :: preview_ids
  re_created :: "str option list"
  re_results :: "op_result list"
  re_amended :: "str list option list"
  re_notices :: "notice list"

record rejected =
  rj_ord :: nat
  rj_error :: replay_error

text \<open>The amended runs a per-run choice was made for, listed right before the edit applies.\<close>

definition amended_listing ::
  "draft \<Rightarrow> str option list \<Rightarrow> draft_op \<Rightarrow> schedule_policy \<Rightarrow> instant \<Rightarrow> replay_error + str list option" where
  "amended_listing d created a policy now =
     (case a of
        DrApplyFixedEdit fixed edit' (PerRun _) \<Rightarrow>
          res_bind (res_map_err replay_error_of (resolve_staged fixed created)) (\<lambda>i.
          res_bind (res_map_err ReSchedule (preview_fixed_edit d i edit' policy now)) (\<lambda>listed.
          Ok (Some (map am_run_id listed))))
      | _ \<Rightarrow> Ok None)"

definition created_row :: "draft_op \<Rightarrow> op_result \<Rightarrow> str option" where
  "created_row a result =
     (case (a, result) of
        (DrAddFixedRun _, OCreated i) \<Rightarrow> Some i
      | (DrCreateRun _ _ _ _ _ _ _ _, OCreated i) \<Rightarrow> Some i
      | _ \<Rightarrow> None)"

text \<open>\<open>replay_one\<close>: the state after it and, when it failed, why.\<close>

definition replay_one ::
  "(str \<Rightarrow> str) \<Rightarrow> draft_op \<Rightarrow> schedule_policy \<Rightarrow> directory \<Rightarrow> instant \<Rightarrow> replay \<times> id_source
    \<Rightarrow> replay_error option \<times> replay \<times> id_source" where
  "replay_one lower a policy dir now s =
     (case s of (st, ids) \<Rightarrow>
        (case amended_listing (re_draft st) (re_created st) a policy now of
           Inl e \<Rightarrow> (Some e, st, ids)
         | Inr amended \<Rightarrow>
             let st = st\<lparr>re_amended := re_amended st @ [amended]\<rparr> in
             (case res_bind (res_map_err replay_error_of
                       (check_staged lower (re_draft st) (re_created st) a policy dir now)) (\<lambda>_.
                     res_bind (to_op (re_created st) policy dir a) (\<lambda>a'.
                     res_map_err ReSchedule (apply_op lower a' now (re_draft st, ids)))) of
                Inl e \<Rightarrow> (Some e, st, ids)
              | Inr (applied, d, ids') \<Rightarrow>
                  (None,
                   st\<lparr>re_draft := d, re_ids := note_drawn ids ids' (re_ids st),
                      re_created := re_created st @ [created_row a (oc_value applied)],
                      re_results := re_results st @ [oc_value applied],
                      re_notices := re_notices st @ oc_notices applied\<rparr>, ids'))))"

fun run_from ::
  "(str \<Rightarrow> str) \<Rightarrow> nat \<Rightarrow> draft_op list \<Rightarrow> schedule_policy \<Rightarrow> directory \<Rightarrow> instant \<Rightarrow> replay \<times> id_source
    \<Rightarrow> replay \<times> rejected option" where
  "run_from lower ord [] policy dir now (st, ids) = (st, None)"
| "run_from lower ord (a # ops) policy dir now (st, ids) =
     (case replay_one lower a policy dir now (st\<lparr>re_ids := (re_ids st)\<lparr>pi_ord := ord\<rparr>\<rparr>, ids) of
        (Some e, st', _) \<Rightarrow> (st', Some \<lparr>rj_ord = ord, rj_error = e\<rparr>)
      | (None, s') \<Rightarrow> run_from lower (ord + 1) ops policy dir now s')"

definition run_all ::
  "(str \<Rightarrow> str) \<Rightarrow> snapshot \<Rightarrow> draft_op list \<Rightarrow> schedule_policy \<Rightarrow> run_ends option \<Rightarrow> directory \<Rightarrow> instant \<Rightarrow> id_source
    \<Rightarrow> replay \<times> rejected option" where
  "run_all lower snapshot ops policy ends dir now ids =
     run_from lower 0 ops policy dir now
       (\<lparr>re_draft = with_run_ends ends (with_attendance (sp_attendance policy) (draft_new snapshot)),
         re_ids = \<lparr>pi_next = 0, pi_ord = 0, pi_owners = []\<rparr>, re_created = [], re_results = [], re_amended = [],
         re_notices = []\<rparr>, ids)"

definition replay_partial ::
  "(str \<Rightarrow> str) \<Rightarrow> snapshot \<Rightarrow> draft_op list \<Rightarrow> schedule_policy \<Rightarrow> run_ends option \<Rightarrow> directory \<Rightarrow> instant
    \<Rightarrow> replay \<times> rejected option" where
  "replay_partial lower snapshot ops policy ends dir now = run_all lower snapshot ops policy ends dir now preview_gen"

definition replay_real ::
  "(str \<Rightarrow> str) \<Rightarrow> snapshot \<Rightarrow> draft_op list \<Rightarrow> schedule_policy \<Rightarrow> run_ends option \<Rightarrow> directory \<Rightarrow> instant \<Rightarrow> id_source
    \<Rightarrow> rejected + replay" where
  "replay_real lower snapshot ops policy ends dir now ids =
     (case run_all lower snapshot ops policy ends dir now ids of
        (st, None) \<Rightarrow> Ok st
      | (_, Some rejected) \<Rightarrow> Err rejected)"

definition replay_ops ::
  "(str \<Rightarrow> str) \<Rightarrow> snapshot \<Rightarrow> draft_op list \<Rightarrow> schedule_policy \<Rightarrow> run_ends option \<Rightarrow> directory \<Rightarrow> instant
    \<Rightarrow> rejected + replay" where
  "replay_ops lower snapshot ops policy ends dir now = replay_real lower snapshot ops policy ends dir now preview_gen"

end
