(* ===== verification/DraftMerge.thy ===== *)
theory DraftMerge
  imports DraftOps ChangeRecord
begin

text \<open>
  The three-way merge of a draft into the current schedule (\<open>drafts/merge.rs\<close>, \<open>drafts/conflict.rs\<close>): the
  schedule the draft was based on, the draft replayed on it, the current schedule and the draft replayed
  on that are compared field by field. A merge without conflicts is the replay on the current schedule;
  it holds exactly what both sides' changes call for.
\<close>

section \<open>What a merge compares\<close>

datatype entity = EFixed str | ERun str | ERsvp str str

datatype merge_field =
  FSlot | FDayTime | FBosses | FParticipants | FChannel | FStatus | FFixedRun | FNote | FOwner | FAnswer

fun merge_field_str :: "merge_field \<Rightarrow> str" where
  "merge_field_str FSlot = lit ''slot''"
| "merge_field_str FDayTime = lit ''day_time''"
| "merge_field_str FBosses = lit ''bosses''"
| "merge_field_str FParticipants = lit ''participants''"
| "merge_field_str FChannel = lit ''channel''"
| "merge_field_str FStatus = lit ''status''"
| "merge_field_str FFixedRun = lit ''fixed_run''"
| "merge_field_str FNote = lit ''note''"
| "merge_field_str FOwner = lit ''owner''"
| "merge_field_str FAnswer = lit ''answer''"

datatype merge_value = FText "str option" | FSet "str list"

datatype removal = RmDeleted | RmRetired | RmCancelled | RmDone | RmLeftRun

datatype merge_conflict =
    BothChanged entity merge_field "merge_value option" "merge_value option" "merge_value option"
  | UpstreamRemoved entity removal
  | OpRejected nat replay_error bool
  | ChoicesStale nat "str list" "str list"
  | StaleWeeks nat "instant list" "instant list"
  | Divergent entity merge_field

fun entity_display :: "entity \<Rightarrow> str" where
  "entity_display (EFixed i) = lit ''weekly timing '' @ i"
| "entity_display (ERun i) = lit ''run '' @ i"
| "entity_display (ERsvp run_id user_id) = lit ''answer of '' @ user_id @ lit '' on run '' @ run_id"

text \<open>The order of their constructors, as derived.\<close>

fun entity_rank :: "entity \<Rightarrow> nat \<times> str \<times> str" where
  "entity_rank (EFixed i) = (0, i, [])"
| "entity_rank (ERun i) = (1, i, [])"
| "entity_rank (ERsvp r u) = (2, r, u)"

fun field_rank :: "merge_field \<Rightarrow> nat" where
  "field_rank FSlot = 0"
| "field_rank FDayTime = 1"
| "field_rank FBosses = 2"
| "field_rank FParticipants = 3"
| "field_rank FChannel = 4"
| "field_rank FStatus = 5"
| "field_rank FFixedRun = 6"
| "field_rank FNote = 7"
| "field_rank FOwner = 8"
| "field_rank FAnswer = 9"

lemma entity_rank_inject: "entity_rank a = entity_rank b \<longleftrightarrow> a = b"
  by (cases a; cases b) auto

lemma field_rank_inject: "field_rank a = field_rank b \<longleftrightarrow> a = b"
  by (cases a; cases b) auto

instantiation entity :: linorder
begin

definition less_eq_entity :: "entity \<Rightarrow> entity \<Rightarrow> bool" where
  "less_eq_entity a b \<longleftrightarrow> entity_rank a \<le> entity_rank b"

definition less_entity :: "entity \<Rightarrow> entity \<Rightarrow> bool" where
  "less_entity a b \<longleftrightarrow> entity_rank a < entity_rank b"

instance
proof
  fix a b :: entity
  assume "a \<le> b" "b \<le> a"
  then show "a = b" using entity_rank_inject by (auto simp: less_eq_entity_def)
qed (auto simp: less_eq_entity_def less_entity_def)

end

instantiation merge_field :: linorder
begin

definition less_eq_merge_field :: "merge_field \<Rightarrow> merge_field \<Rightarrow> bool" where
  "less_eq_merge_field a b \<longleftrightarrow> field_rank a \<le> field_rank b"

definition less_merge_field :: "merge_field \<Rightarrow> merge_field \<Rightarrow> bool" where
  "less_merge_field a b \<longleftrightarrow> field_rank a < field_rank b"

instance
proof
  fix a b :: merge_field
  assume "a \<le> b" "b \<le> a"
  then show "a = b" using field_rank_inject by (auto simp: less_eq_merge_field_def)
qed (auto simp: less_eq_merge_field_def less_merge_field_def)

end

type_synonym merge_key = "entity \<times> merge_field"
type_synonym merge_fields = "(merge_key, merge_value) table"

section \<open>Rows as fields\<close>

text \<open>\<open>BTreeSet\<close> of a list, in order.\<close>

definition sorted_set :: "'a::linorder list \<Rightarrow> 'a list" where
  "sorted_set xs = remdups_adj (sort xs)"

definition set_value :: "str list \<Rightarrow> merge_value" where
  "set_value xs = FSet (sorted_set xs)"

text \<open>\<open>NaiveTime\<close> as \<open>chrono\<close> displays it, and an instant outside the years of ISO texts in debug form.\<close>

definition time_display :: "clock \<Rightarrow> str" where
  "time_display t =
     wall_text t @
     (let nano = nat (t mod 1000000000) in
      if nano = 0 then []
      else if nano mod 1000000 = 0 then lit ''.'' @ dec_pad 3 (nano div 1000000)
      else if nano mod 1000 = 0 then lit ''.'' @ dec_pad 6 (nano div 1000)
      else lit ''.'' @ dec_pad 9 nano)"

definition debug_instant :: "instant \<Rightarrow> str" where
  "debug_instant at =
     (let (year, month, day) = civil_of_date (wall_date at) in
      (if 0 \<le> year \<and> year \<le> 9999 then dec_pad 4 (nat year)
       else (if year < 0 then lit ''-'' else lit ''+'') @ dec_pad 4 (nat \<bar>year\<bar>)) @
      lit ''-'' @ dec2 (nat month) @ lit ''-'' @ dec2 (nat day) @ lit ''T'' @ time_display (wall_time at) @ lit ''Z'')"

definition instant_value :: "instant \<Rightarrow> merge_value" where
  "instant_value at = FText (Some (case to_iso at of Inr s \<Rightarrow> s | Inl _ \<Rightarrow> debug_instant at))"

definition rename :: "(str, str) table \<Rightarrow> str \<Rightarrow> str" where
  "rename names i = (case t_get names i of Some n \<Rightarrow> n | None \<Rightarrow> i)"

definition bosses_value :: "str list \<Rightarrow> merge_value" where
  "bosses_value bosses = FText (Some (join [31] bosses))"

definition fixed_values :: "fixed_run \<Rightarrow> (merge_field \<times> merge_value) list" where
  "fixed_values row =
     [(FDayTime, FText (Some (weekday_names ! num_days_from_monday (f_weekday row) @ lit '' '' @ time_display (f_time row)))),
      (FBosses, bosses_value (f_bosses row)),
      (FParticipants, set_value (f_participants row)),
      (FChannel, FText (f_channel_id row)),
      (FNote, FText (f_note row)),
      (FOwner, FText (Some (f_owner_id row @ (if f_owner_pinned row then 31 # lit ''pinned'' else []))))]"

definition run_values :: "(str, str) table \<Rightarrow> run \<Rightarrow> (merge_field \<times> merge_value) list" where
  "run_values names row =
     [(FSlot, instant_value (r_datetime row)),
      (FBosses, bosses_value (r_bosses row)),
      (FParticipants, set_value (r_participants row)),
      (FChannel, FText (r_channel_id row)),
      (FStatus, FText (Some (run_status_str (r_status row)))),
      (FFixedRun, FText (map_option (rename names) (r_fixed_run_id row)))]"

definition answer_value :: "rsvp \<Rightarrow> str" where
  "answer_value row = rsvp_state_str (a_state row) @ lit ''/'' @ rsvp_source_str (a_source row)"

definition insert_values :: "entity \<Rightarrow> (merge_field \<times> merge_value) list \<Rightarrow> merge_fields \<Rightarrow> merge_fields" where
  "insert_values entity values' out = fold (\<lambda>(field, v). t_insert (entity, field) v) values' out"

definition fields_of :: "snapshot \<Rightarrow> (str, str) table \<Rightarrow> merge_fields" where
  "fields_of s names =
     (let out = fold (\<lambda>row. insert_values (EFixed (rename names (f_id row))) (fixed_values row)) (sn_fixed_runs s) [];
          out = fold (\<lambda>row. insert_values (ERun (rename names (r_id row))) (run_values names row)) (sn_runs s) out
      in fold (\<lambda>row. insert_values (ERsvp (rename names (a_run_id row)) (a_user_id row))
           [(FAnswer, FText (Some (answer_value row)))]) (sn_rsvps s) out)"

text \<open>Rows a replay created are named by the operation that drew their id and the order of the draws.\<close>

definition created_names :: "replay \<Rightarrow> (str, str) table" where
  "created_names re =
     (let s = to_snapshot (re_draft re);
          ids = map f_id (sn_fixed_runs s) @ map r_id (sn_runs s);
          drawn = List.map_filter (\<lambda>i. map_option (\<lambda>(ord, draw). (ord, draw, i)) (owner_of (re_ids re) i)) ids;
          named = (\<lambda>ord names. fold (\<lambda>(n, _, i). t_insert i (lit ''created:'' @ dec ord @ lit ''.'' @ dec n))
             (enumerate 0 (sort (map snd (filter (\<lambda>e. fst e = ord) drawn)))) names)
      in fold named (sorted_set (map fst drawn)) [])"

section \<open>Stale listings\<close>

definition canonical_ids :: "(str, str) table \<Rightarrow> str list \<Rightarrow> str list" where
  "canonical_ids names ids = sorted_set (map (rename names) ids)"

definition stale_choices ::
  "replay \<Rightarrow> replay \<Rightarrow> (str, str) table \<Rightarrow> (str, str) table \<Rightarrow> merge_conflict list" where
  "stale_choices drafted merged drafted_names merged_names =
     concat (map (\<lambda>(ord, on_base, on_current).
       case (on_base, on_current) of
         (Some on_base, Some on_current) \<Rightarrow>
           let base = canonical_ids drafted_names on_base; cur = canonical_ids merged_names on_current
           in if base \<noteq> cur then [ChoicesStale ord base cur] else []
       | _ \<Rightarrow> [])
     (enumerate 0 (zip (re_amended drafted) (re_amended merged))))"

definition current_weeks :: "schedule_policy \<Rightarrow> instant \<Rightarrow> instant list" where
  "current_weeks policy now =
     (case res_bind (materialised_weeks policy now) (res_list (\<lambda>week. utc_instant (AtZoned week))) of
        Inr weeks \<Rightarrow> weeks | Inl _ \<Rightarrow> [])"

definition stale_weeks :: "draft_op list \<Rightarrow> schedule_policy \<Rightarrow> instant \<Rightarrow> merge_conflict list" where
  "stale_weeks ops policy now =
     concat (map (\<lambda>(ord, a).
       case a of
         DrRetireFixedRun _ weeks \<Rightarrow>
           let staged = sorted_set weeks; cur = current_weeks policy now
           in if staged \<noteq> sorted_set cur then [StaleWeeks ord staged cur] else []
       | _ \<Rightarrow> [])
     (enumerate 0 ops))"

section \<open>What upstream took away\<close>

text \<open>The first key at or after the entity's smallest one is the entity's.\<close>

definition entity_exists :: "merge_fields \<Rightarrow> entity \<Rightarrow> bool" where
  "entity_exists t entity \<longleftrightarrow>
     (case find (\<lambda>key. (entity, FSlot) \<le> key) (t_keys t) of Some key \<Rightarrow> fst key = entity | None \<Rightarrow> False)"

definition status_among :: "merge_fields \<Rightarrow> entity \<Rightarrow> str list \<Rightarrow> str option" where
  "status_among t run statuses =
     (case t_get t (run, FStatus) of
        Some (FText (Some status)) \<Rightarrow> if contains statuses status then Some status else None
      | _ \<Rightarrow> None)"

definition run_removal :: "merge_fields \<Rightarrow> merge_fields \<Rightarrow> str \<Rightarrow> removal option" where
  "run_removal b t i =
     (let terminal = [lit ''cancelled'', lit ''done''] in
      if entity_exists b (ERun i) \<and> \<not> entity_exists t (ERun i) then Some RmDeleted
      else if status_among b (ERun i) terminal \<noteq> None then None
      else map_option (\<lambda>status. if status = lit ''done'' then RmDone else RmCancelled) (status_among t (ERun i) terminal))"

fun upstream_removal :: "merge_fields \<Rightarrow> merge_fields \<Rightarrow> entity \<Rightarrow> removal option" where
  "upstream_removal b t (EFixed i) =
     (if entity_exists b (EFixed i) \<and> \<not> entity_exists t (EFixed i) then Some RmRetired else None)"
| "upstream_removal b t (ERun i) = run_removal b t i"
| "upstream_removal b t (ERsvp run_id u) =
     (if entity_exists b (ERsvp run_id u) \<and> \<not> entity_exists t (ERsvp run_id u) then Some RmDeleted
      else run_removal b t run_id)"

fun retired_timing :: "merge_fields \<Rightarrow> merge_fields \<Rightarrow> merge_fields \<Rightarrow> entity \<Rightarrow> entity option" where
  "retired_timing b d t (ERun i) =
     (if t_get b (ERun i, FFixedRun) = t_get d (ERun i, FFixedRun) then None
      else case t_get d (ERun i, FFixedRun) of
        Some (FText (Some f)) \<Rightarrow>
          if entity_exists b (EFixed f) \<and> \<not> entity_exists t (EFixed f) then Some (EFixed f) else None
      | _ \<Rightarrow> None)"
| "retired_timing b d t _ = None"

definition on_run :: "merge_fields \<Rightarrow> str \<Rightarrow> str \<Rightarrow> bool option" where
  "on_run t run_id user_id =
     (case t_get t (ERun run_id, FParticipants) of
        Some (FSet members) \<Rightarrow> Some (contains members user_id)
      | _ \<Rightarrow> None)"

fun left_run :: "merge_fields \<Rightarrow> merge_fields \<Rightarrow> entity \<Rightarrow> bool" where
  "left_run d r (ERsvp run_id user_id) \<longleftrightarrow>
     t_has d (ERsvp run_id user_id, FAnswer) \<and> on_run d run_id user_id = Some True \<and> on_run r run_id user_id = Some False"
| "left_run d r _ \<longleftrightarrow> False"

section \<open>Three ways\<close>

fun merge_sets :: "merge_value option \<Rightarrow> merge_value option \<Rightarrow> merge_value option \<Rightarrow> merge_value option" where
  "merge_sets (Some (FSet b)) (Some (FSet d)) (Some (FSet t)) =
     Some (FSet (sorted_set
       (filter (\<lambda>m. contains d m \<and> contains t m) b @ filter (\<lambda>m. \<not> contains b m) d @ filter (\<lambda>m. \<not> contains b m) t)))"
| "merge_sets _ _ _ = None"

text \<open>The value a field the draft changed is to have; \<open>None\<close> when both sides changed it.\<close>

definition merged_value :: "merge_fields \<Rightarrow> merge_fields \<Rightarrow> merge_fields \<Rightarrow> merge_key \<Rightarrow> merge_value option option" where
  "merged_value b d t key =
     (let bv = t_get b key; dv = t_get d key; tv = t_get t key in
      if tv = bv \<or> tv = dv then Some dv
      else if snd key = FParticipants then map_option Some (merge_sets bv dv tv)
      else None)"

definition drafted_keys :: "merge_fields \<Rightarrow> merge_fields \<Rightarrow> merge_fields \<Rightarrow> merge_key list" where
  "drafted_keys b d t =
     filter (\<lambda>key. t_get b key \<noteq> t_get d key) (sorted_set (t_keys b @ t_keys d @ t_keys t))"

definition converged :: "merge_fields \<Rightarrow> merge_fields \<Rightarrow> merge_key list \<Rightarrow> entity \<Rightarrow> bool" where
  "converged d t drafted entity \<longleftrightarrow> list_all (\<lambda>key. t_get d key = t_get t key) (filter (\<lambda>key. fst key = entity) drafted)"

text \<open>Conflicts, the entities left out, and the retired timings named.\<close>

type_synonym entity_state = "merge_conflict list \<times> entity list \<times> entity list"

definition check_entity ::
  "merge_fields \<Rightarrow> merge_fields \<Rightarrow> merge_fields \<Rightarrow> merge_fields \<Rightarrow> merge_key list \<Rightarrow> entity \<Rightarrow> entity_state \<Rightarrow> entity_state"
where
  "check_entity b d t r drafted entity s =
     (case s of (conflicts, skipped, retired) \<Rightarrow>
        if converged d t drafted entity then s
        else (case upstream_removal b t entity of
          Some rm \<Rightarrow> (conflicts @ [UpstreamRemoved entity rm], entity # skipped, retired)
        | None \<Rightarrow>
            (case retired_timing b d t entity of
               Some fixed \<Rightarrow>
                 (if contains retired fixed then conflicts else conflicts @ [UpstreamRemoved fixed RmRetired],
                  entity # skipped, fixed # retired)
             | None \<Rightarrow>
                 if left_run d r entity then (conflicts @ [UpstreamRemoved entity RmLeftRun], entity # skipped, retired)
                 else s)))"

text \<open>Conflicts, the values expected, and the keys left out.\<close>

type_synonym key_state = "merge_conflict list \<times> (merge_key, merge_value option) table \<times> merge_key list"

definition check_key ::
  "merge_fields \<Rightarrow> merge_fields \<Rightarrow> merge_fields \<Rightarrow> entity list \<Rightarrow> merge_key list \<Rightarrow> merge_key \<Rightarrow> key_state \<Rightarrow> key_state"
where
  "check_key b d t skipped applied key s =
     (case s of (conflicts, expected, skip_keys) \<Rightarrow>
        if contains skipped (fst key) \<or> contains applied key then s
        else (case merged_value b d t key of
          Some v \<Rightarrow> (conflicts, t_insert key v expected, skip_keys)
        | None \<Rightarrow>
            (conflicts @ [BothChanged (fst key) (snd key) (t_get b key) (t_get d key) (t_get t key)], expected,
             key # skip_keys)))"

definition divergent ::
  "merge_fields \<Rightarrow> merge_fields \<Rightarrow> entity list \<Rightarrow> merge_key list \<Rightarrow> (merge_key, merge_value option) table
    \<Rightarrow> merge_key list \<Rightarrow> merge_conflict list" where
  "divergent t r skipped applied expected skip_keys =
     map (\<lambda>key. Divergent (fst key) (snd key))
       (filter (\<lambda>key.
          \<not> (contains skipped (fst key) \<or> contains skip_keys key \<or> contains applied key) \<and>
          t_get r key \<noteq> (case t_get expected key of Some v \<Rightarrow> v | None \<Rightarrow> t_get t key))
        (sorted_set (t_keys t @ t_keys r @ t_keys expected)))"

definition three_way ::
  "merge_fields \<Rightarrow> merge_fields \<Rightarrow> merge_fields \<Rightarrow> merge_fields \<Rightarrow> merge_key list \<Rightarrow> merge_conflict list" where
  "three_way b d t r applied =
     (let drafted = drafted_keys b d t;
          (removed, skipped, _) = fold (check_entity b d t r drafted) (sorted_set (map fst drafted)) ([], [], []);
          (changed', expected, skip_keys) = fold (check_key b d t skipped applied) drafted ([], [], [])
      in removed @ changed' @ divergent t r skipped applied expected skip_keys)"

section \<open>The analysis\<close>

text \<open>Boss weeks of runs, or answers on runs, that differ.\<close>

definition changed_weeks :: "snapshot \<Rightarrow> snapshot \<Rightarrow> instant list" where
  "changed_weeks before after =
     (let old = keyed (sn_runs before) r_id; new = keyed (sn_runs after) r_id;
          answers = (\<lambda>s. map (\<lambda>row. (a_run_id row, a_user_id row, answer_value row)) (sn_rsvps s));
          moved = filter (\<lambda>a. \<not> contains (answers after) a) (answers before) @
                  filter (\<lambda>a. \<not> contains (answers before) a) (answers after)
      in sorted_set
        (map r_week_start (filter (\<lambda>run. t_get old (r_id run) \<noteq> Some run) (t_values new)) @
         map r_week_start (filter (\<lambda>run. t_get new (r_id run) \<noteq> Some run) (t_values old)) @
         List.map_filter (\<lambda>(run_id, _). map_option r_week_start
           (case t_get new run_id of Some run \<Rightarrow> Some run | None \<Rightarrow> t_get old run_id)) moved))"

record merge_analysis =
  an_conflicts :: "merge_conflict list"
  an_result_changes :: "change list option"
  an_notices_preview :: "notice list"
  an_preview :: "snapshot option"
  an_weeks :: "instant list"

definition is_clean :: "merge_analysis \<Rightarrow> bool" where
  "is_clean a \<longleftrightarrow> an_conflicts a = [] \<and> an_result_changes a \<noteq> None"

definition op_rejected :: "bool \<Rightarrow> rejected option \<Rightarrow> merge_conflict list" where
  "op_rejected on_base rejected =
     (case rejected of Some rj \<Rightarrow> [OpRejected (rj_ord rj) (rj_error rj) on_base] | None \<Rightarrow> [])"

definition analyze_merge_applying ::
  "(str \<Rightarrow> str) \<Rightarrow> snapshot \<Rightarrow> snapshot \<Rightarrow> draft_op list \<Rightarrow> schedule_policy \<Rightarrow> run_ends option \<Rightarrow> directory \<Rightarrow> instant
    \<Rightarrow> str list \<Rightarrow> merge_analysis" where
  "analyze_merge_applying lower base cur ops policy ends dir now status_at_apply =
     (let (drafted, drafted_rejected) = replay_partial lower base ops policy ends dir now;
          (merged, merged_rejected) = replay_partial lower cur ops policy ends dir now;
          drafted_names = created_names drafted; merged_names = created_names merged;
          conflicts = op_rejected True drafted_rejected @ op_rejected False merged_rejected @
            stale_choices drafted merged drafted_names merged_names @ stale_weeks ops policy now
      in if drafted_rejected \<noteq> None \<or> merged_rejected \<noteq> None then
           \<lparr>an_conflicts = conflicts, an_result_changes = None, an_notices_preview = [], an_preview = None, an_weeks = []\<rparr>
         else
           let preview = to_snapshot (re_draft merged) in
           \<lparr>an_conflicts = conflicts @ three_way (fields_of base []) (fields_of (to_snapshot (re_draft drafted)) drafted_names)
              (fields_of cur []) (fields_of preview merged_names) (map (\<lambda>run. (ERun run, FStatus)) status_at_apply),
            an_result_changes = Some (into_changes (re_draft merged)), an_notices_preview = re_notices merged,
            an_preview = Some preview, an_weeks = changed_weeks cur preview\<rparr>)"

definition analyze_merge ::
  "(str \<Rightarrow> str) \<Rightarrow> snapshot \<Rightarrow> snapshot \<Rightarrow> draft_op list \<Rightarrow> schedule_policy \<Rightarrow> run_ends option \<Rightarrow> directory \<Rightarrow> instant
    \<Rightarrow> merge_analysis" where
  "analyze_merge lower base cur ops policy ends dir now = analyze_merge_applying lower base cur ops policy ends dir now []"

text \<open>Fields in which two replays of the same operations differ.\<close>

definition replay_equivalent :: "replay \<Rightarrow> replay \<Rightarrow> merge_conflict list" where
  "replay_equivalent first second =
     (let a = fields_of (to_snapshot (re_draft first)) (created_names first);
          b = fields_of (to_snapshot (re_draft second)) (created_names second)
      in map (\<lambda>key. Divergent (fst key) (snd key))
           (filter (\<lambda>key. t_get a key \<noteq> t_get b key) (sorted_set (t_keys a @ t_keys b))))"

end
