(* ===== verification/MergeProperties.thy ===== *)
theory MergeProperties
  imports DraftMerge Store
begin

text \<open>
  What a merge without conflicts gives: every field has the value both sides call for, a schedule that
  did not move since the draft was based on it takes the draft as it is, and what the merge wants
  written is what the store then holds.
\<close>

section \<open>A replay performs operations\<close>

lemma replay_one_performs:
  assumes "replay_one lower a policy dir now (st, ids) = (None, st', ids')"
  obtains a' where "\<exists>created. to_op created policy dir a = Ok a'"
    "apply_ops lower [(a', now)] (re_draft st, ids) = Ok ((), re_draft st', ids')"
proof -
  obtain a' applied d where "to_op (re_created st) policy dir a = Ok a'"
    "apply_op lower a' now (re_draft st, ids) = Ok (applied, d, ids')" "re_draft st' = d"
    using assms
    by (auto simp: replay_one_def Let_def res_bind_Ok_iff res_map_err_Ok_iff split: sum.splits prod.splits)
  then show thesis using that [of a'] by (auto simp: bnd_def ret_def)
qed

lemma run_from_performs:
  "run_from lower ord ops policy dir now (st, ids) = (st', None) \<Longrightarrow>
    \<exists>performed ids'. apply_ops lower performed (re_draft st, ids) = Ok ((), re_draft st', ids') \<and> length performed = length ops"
proof (induction ops arbitrary: ord st ids)
  case Nil
  then show ?case by (auto simp: ret_def intro!: exI [of _ "[]"])
next
  case (Cons a ops)
  let ?st = "st\<lparr>re_ids := (re_ids st)\<lparr>pi_ord := ord\<rparr>\<rparr>"
  obtain st1 ids1 where one: "replay_one lower a policy dir now (?st, ids) = (None, st1, ids1)"
    "run_from lower (ord + 1) ops policy dir now (st1, ids1) = (st', None)"
    using Cons.prems by (auto split: prod.splits option.splits)
  obtain a' where first: "apply_ops lower [(a', now)] (re_draft st, ids) = Ok ((), re_draft st1, ids1)"
    using one(1) by (rule replay_one_performs) simp
  obtain after' ids' where rest: "apply_ops lower after' (re_draft st1, ids1) = Ok ((), re_draft st', ids')"
    "length after' = length ops"
    using Cons.IH [OF one(2)] by blast
  have "apply_ops lower ((a', now) # after') (re_draft st, ids) = Ok ((), re_draft st', ids')"
    using first rest(1) by (auto simp: bnd_def ret_def split: sum.splits)
  then show ?case using rest(2) by (intro exI [of _ "(a', now) # after'"]) auto
qed

lemma replay_performs:
  assumes "replay_partial lower base ops policy ends dir now = (st, None)"
  obtains performed ids' where
    "apply_ops lower performed (start_draft base (sp_attendance policy) ends, preview_gen) = Ok ((), re_draft st, ids')"
    "length performed = length ops"
  using assms run_from_performs by (fastforce simp: replay_partial_def run_all_def start_draft_def)

section \<open>No conflicts\<close>

lemma no_conflicts_checked:
  assumes "fold (check_entity b d t r drafted) es (cs, sk, rt) = ([], sk', rt')" "cs = [] \<Longrightarrow> sk = [] \<and> rt = []"
  shows "sk' = []"
  using assms
proof (induction es arbitrary: cs sk rt)
  case (Cons e es)
  obtain cs1 sk1 rt1 where s: "check_entity b d t r drafted e (cs, sk, rt) = (cs1, sk1, rt1)" by (rule prod_cases3)
  then have "cs1 = [] \<Longrightarrow> cs = [] \<and> sk1 = sk \<and> rt1 = rt"
    using Cons.prems(2) by (auto simp: check_entity_def split: if_splits option.splits)
  then show ?case using Cons.IH [of cs1 sk1 rt1] Cons.prems s by simp
qed simp

lemma no_conflicts_merged:
  assumes "fold (check_key b d t skipped applied) ks (cs, expected, skip_keys) = ([], expected', skip_keys')"
  shows "cs = [] \<and> skip_keys' = skip_keys \<and>
    (\<forall>key. \<not> contains skipped (fst key) \<and> \<not> contains applied key \<longrightarrow>
       t_get expected' key = (if key \<in> set ks then merged_value b d t key else t_get expected key) \<and>
       (key \<in> set ks \<longrightarrow> merged_value b d t key \<noteq> None))"
  using assms
proof (induction ks arbitrary: cs expected skip_keys)
  case (Cons k ks)
  obtain cs1 expected1 skip1 where s: "check_key b d t skipped applied k (cs, expected, skip_keys) = (cs1, expected1, skip1)"
    by (rule prod_cases3)
  then have rest: "fold (check_key b d t skipped applied) ks (cs1, expected1, skip1) = ([], expected', skip_keys')"
    using Cons.prems by simp
  note ih = Cons.IH [OF rest]
  show ?case
  proof (cases "contains skipped (fst k) \<or> contains applied k")
    case True
    then have "(cs1, expected1, skip1) = (cs, expected, skip_keys)" using s by (simp add: check_key_def)
    then show ?thesis using ih True by auto
  next
    case False
    then obtain v where "merged_value b d t k = Some v" "cs1 = cs" "expected1 = t_insert k v expected" "skip1 = skip_keys"
      using s ih by (auto simp: check_key_def split: option.splits)
    then show ?thesis using ih by auto
  qed
qed simp

text \<open>The value both sides call for: the side that changed a field has its way; members that both
  changed are those both kept and those either added; anything else both changed to the same.\<close>

definition both_kept :: "merge_fields \<Rightarrow> merge_fields \<Rightarrow> merge_fields \<Rightarrow> merge_fields \<Rightarrow> merge_key \<Rightarrow> bool" where
  "both_kept b d t r key \<longleftrightarrow>
     (let bv = t_get b key; dv = t_get d key; tv = t_get t key; rv = t_get r key in
      if dv = bv then rv = tv
      else if tv = bv \<or> tv = dv then rv = dv
      else snd key = FParticipants \<and>
        (case (bv, dv, tv, rv) of
           (Some (FSet bs), Some (FSet ds), Some (FSet ts), Some (FSet rs)) \<Rightarrow>
             set rs = set bs \<inter> set ds \<inter> set ts \<union> (set ds - set bs) \<union> (set ts - set bs)
         | _ \<Rightarrow> False))"

lemma contains_set [simp]: "contains xs x \<longleftrightarrow> x \<in> set xs"
  by (induction xs) (auto simp: contains_def)

lemma set_sorted_set [simp]: "set (sorted_set xs) = set xs"
  by (simp add: sorted_set_def)

lemma t_keys_get: "key \<notin> set (t_keys t) \<longleftrightarrow> t_get t key = None"
  using t_has_iff [of t key] unfolding t_has_def by blast

lemma merged_both_kept:
  assumes "t_get d key \<noteq> t_get b key" "merged_value b d t key = Some (t_get r key)"
  shows "both_kept b d t r key"
  using assms
  by (auto simp: merged_value_def both_kept_def Let_def eq_commute [of "Some (FSet _)" "t_get r key"]
      split: if_splits elim!: merge_sets.elims)

lemma no_conflicts_both_kept:
  assumes "three_way b d t r applied = []" "key \<notin> set applied"
  shows "both_kept b d t r key"
proof -
  let ?drafted = "drafted_keys b d t"
  obtain removed skipped retired where e: "fold (check_entity b d t r ?drafted) (sorted_set (map fst ?drafted)) ([], [], []) =
      (removed, skipped, retired)" by (rule prod_cases3)
  obtain cs expected skip_keys where k: "fold (check_key b d t skipped applied) ?drafted ([], [], []) = (cs, expected, skip_keys)"
    by (rule prod_cases3)
  have none: "removed = []" "cs = []" "divergent t r skipped applied expected skip_keys = []"
    using assms(1) e k by (simp_all add: three_way_def Let_def)
  have skipped: "skipped = []" using no_conflicts_checked e none(1) by blast
  have merged: "skip_keys = []"
      "t_get expected key = (if key \<in> set ?drafted then merged_value b d t key else None)"
      "key \<in> set ?drafted \<Longrightarrow> merged_value b d t key \<noteq> None"
    using no_conflicts_merged [OF k [unfolded none(2)]] skipped assms(2) by (cases key, simp)+
  have want: "t_get r key = (case t_get expected key of Some v \<Rightarrow> v | None \<Rightarrow> t_get t key)"
  proof (cases "key \<in> set (t_keys t @ t_keys r @ t_keys expected)")
    case True
    then show ?thesis using none(3) merged(1) assms(2) skipped by (auto simp: divergent_def filter_empty_conv)
  next
    case False
    then show ?thesis by (simp add: t_keys_get)
  qed
  show ?thesis
  proof (cases "key \<in> set ?drafted")
    case True
    then have "t_get d key \<noteq> t_get b key" by (auto simp: drafted_keys_def)
    moreover obtain v where "merged_value b d t key = Some v" "t_get expected key = Some v"
      using merged(2,3) True by auto
    ultimately show ?thesis using merged_both_kept [of d key b t r] want by simp
  next
    case False
    then have "t_get d key = t_get b key"
      using t_keys_get [of key b] t_keys_get [of key d] by (auto simp: drafted_keys_def)
    moreover have "t_get expected key = None" using merged(2) False by simp
    ultimately show ?thesis using want by (simp add: both_kept_def)
  qed
qed

section \<open>Nothing moved\<close>

lemma unmoved_removal: "upstream_removal b b entity = None"
  by (cases entity) (auto simp: run_removal_def Let_def)

lemma unmoved_retired: "retired_timing b d b entity = None"
  by (cases entity) (auto split: option.splits merge_value.splits)

lemma same_replay_stays: "\<not> left_run d d entity"
  by (cases entity) auto

lemma unmoved_entities: "fold (check_entity b d b d drafted) es s = s"
  by (induction es) (simp_all add: check_entity_def unmoved_removal unmoved_retired same_replay_stays case_prod_unfold)

lemma unmoved_keys:
  "fold (check_key b d b [] applied) ks (cs, expected, skip_keys) =
     (cs, fold (\<lambda>key. if key \<in> set applied then (\<lambda>e. e) else t_insert key (t_get d key)) ks expected, skip_keys)"
  by (induction ks arbitrary: expected) (simp_all add: check_key_def merged_value_def)

lemma unmoved_expected:
  "t_get (fold (\<lambda>key. if key \<in> set applied then (\<lambda>e. e) else t_insert key (t_get d key)) ks expected) key =
     (if key \<in> set ks \<and> key \<notin> set applied then Some (t_get d key) else t_get expected key)"
  by (induction ks arbitrary: expected) auto

lemma unmoved_merges: "three_way b d b d applied = []"
proof -
  have "t_get d key = t_get b key" if "key \<notin> set (drafted_keys b d b)" for key
    using that t_keys_get [of key b] t_keys_get [of key d] by (auto simp: drafted_keys_def)
  then show ?thesis
    by (auto simp: three_way_def Let_def unmoved_entities unmoved_keys divergent_def filter_empty_conv unmoved_expected)
qed

lemma same_listings: "stale_choices re re names names = []"
proof -
  have "a = b" if "(ord, a, b) \<in> set (enumerate n (zip xs xs))" for ord n a b and xs :: "str list option list"
    using that by (auto simp: in_set_enumerate_eq in_set_zip)
  then show ?thesis unfolding stale_choices_def by (fastforce split: option.splits)
qed

section \<open>Properties\<close>

text \<open>C7. A merge without conflicts loses neither side's work: the draft replays in full on the schedule
  it was based on and on the current one, the merge proposes exactly the rows of the second replay,
  and there every field has the value both sides call for - what the current schedule has where the
  draft did not touch it, what the draft wants where only the draft changed it, and of members that
  both changed those both kept and those either added.\<close>

theorem clean_merges_keep_both_sides:
  assumes "is_clean (analyze_merge_applying lower base cur ops policy ends dir now applying)"
  shows "\<exists>drafted merged.
    replay_partial lower base ops policy ends dir now = (drafted, None) \<and>
    replay_partial lower cur ops policy ends dir now = (merged, None) \<and>
    an_preview (analyze_merge_applying lower base cur ops policy ends dir now applying) = Some (to_snapshot (re_draft merged)) \<and>
    (\<forall>key \<in> - set (map (\<lambda>run. (ERun run, FStatus)) applying).
       both_kept (fields_of base []) (fields_of (to_snapshot (re_draft drafted)) (created_names drafted))
         (fields_of cur []) (fields_of (to_snapshot (re_draft merged)) (created_names merged)) key)"
proof -
  obtain drafted merged where r: "replay_partial lower base ops policy ends dir now = (drafted, None)"
    "replay_partial lower cur ops policy ends dir now = (merged, None)"
    "three_way (fields_of base []) (fields_of (to_snapshot (re_draft drafted)) (created_names drafted))
       (fields_of cur []) (fields_of (to_snapshot (re_draft merged)) (created_names merged))
       (map (\<lambda>run. (ERun run, FStatus)) applying) = []"
    "an_preview (analyze_merge_applying lower base cur ops policy ends dir now applying) = Some (to_snapshot (re_draft merged))"
    using assms by (auto simp: is_clean_def analyze_merge_applying_def Let_def split: prod.splits if_splits)
  show ?thesis
    using r(1,2,4) no_conflicts_both_kept [OF r(3)] by blast
qed

text \<open>C26. When the schedule did not move since the draft was based on it, the draft merges as it is: no
  conflict is reported but a week that has left the horizon, and what is proposed is the draft.\<close>

theorem unmoved_schedules_take_the_draft:
  assumes "replay_partial lower base ops policy ends dir now = (st, None)"
  shows "analyze_merge lower base base ops policy ends dir now =
    \<lparr>an_conflicts = stale_weeks ops policy now, an_result_changes = Some (into_changes (re_draft st)),
      an_notices_preview = re_notices st, an_preview = Some (to_snapshot (re_draft st)),
      an_weeks = changed_weeks base (to_snapshot (re_draft st))\<rparr>"
  by (simp add: analyze_merge_def analyze_merge_applying_def assms same_listings unmoved_merges op_rejected_def Let_def)


section \<open>Witnesses\<close>

text \<open>A draft takes a member off a run; meanwhile the run gained another.\<close>

definition staged_swap :: "draft_op list" where
  "staged_swap = [DrSwapParticipants (Existing (lit ''r1'')) [lit ''12''] [] False]"

definition nobody :: directory where
  "nobody = \<lparr>dir_member = (\<lambda>_. None), dir_is_watched = (\<lambda>_. False)\<rparr>"

definition small_base :: snapshot where
  "small_base =
     \<lparr>sn_revision = 1, sn_fixed_runs = [], sn_runs = [sample_run\<lparr>r_fixed_run_id := None\<rparr>],
      sn_reminders = [], sn_rsvps = [], sn_unproven_retired = []\<rparr>"

definition small_moved :: snapshot where
  "small_moved = small_base\<lparr>sn_revision := 2,
     sn_runs := [sample_run\<lparr>r_fixed_run_id := None, r_participants := [lit ''11'', lit ''12'', lit ''14'']\<rparr>]\<rparr>"

definition swapped :: "snapshot \<Rightarrow> replay \<times> rejected option" where
  "swapped s = replay_partial (\<lambda>s. s) s staged_swap sample_policy None nobody 0"

definition swapped_fields :: "snapshot \<Rightarrow> merge_fields" where
  "swapped_fields s = fields_of (to_snapshot (re_draft (fst (swapped s)))) []"

lemma swaps_replay:
  "case swapped small_base of (st, None) \<Rightarrow> created_names st = [] \<and> re_amended st = [None] | _ \<Rightarrow> False"
  "case swapped small_moved of (st, None) \<Rightarrow> created_names st = [] \<and> re_amended st = [None] | _ \<Rightarrow> False"
  by code_simp+

lemma swap_merges:
  "three_way (fields_of small_base []) (swapped_fields small_base) (fields_of small_moved []) (swapped_fields small_moved) [] = []"
  by code_simp

lemma swap_weeks: "stale_weeks staged_swap sample_policy 0 = []"
  by code_simp

lemma swap_clean:
  obtains drafted merged where "swapped small_base = (drafted, None)" "swapped small_moved = (merged, None)"
    "is_clean (analyze_merge (\<lambda>s. s) small_base small_moved staged_swap sample_policy None nobody 0)"
    "an_preview (analyze_merge (\<lambda>s. s) small_base small_moved staged_swap sample_policy None nobody 0) =
       Some (to_snapshot (re_draft merged))"
    "an_result_changes (analyze_merge (\<lambda>s. s) small_base small_moved staged_swap sample_policy None nobody 0) =
       Some (into_changes (re_draft merged))"
    "created_names drafted = []" "created_names merged = []"
proof -
  obtain drafted merged where r: "swapped small_base = (drafted, None)" "swapped small_moved = (merged, None)"
    "created_names drafted = []" "created_names merged = []" "re_amended drafted = [None]" "re_amended merged = [None]"
    using swaps_replay by (auto split: prod.splits option.splits)
  note analysis = analyze_merge_def analyze_merge_applying_def r(1,2) [unfolded swapped_def]
  have "stale_choices drafted merged [] [] = []" using r(5,6) by (simp add: stale_choices_def)
  then show thesis
    using that [OF r(1,2)] r(3,4) swap_merges swap_weeks
    by (simp add: analysis is_clean_def op_rejected_def Let_def swapped_fields_def r(1,2))
qed

theorem clean_merges_keep_both_sides_witness:
  "\<exists>drafted merged. swapped small_base = (drafted, None) \<and> swapped small_moved = (merged, None) \<and>
     both_kept (fields_of small_base []) (fields_of (to_snapshot (re_draft drafted)) [])
       (fields_of small_moved []) (fields_of (to_snapshot (re_draft merged)) []) (ERun (lit ''r1''), FParticipants) \<and>
     map r_participants (sn_runs (to_snapshot (re_draft merged))) = [[lit ''11'', lit ''14'']]"
proof -
  obtain drafted merged where r: "swapped small_base = (drafted, None)" "swapped small_moved = (merged, None)"
    "is_clean (analyze_merge (\<lambda>s. s) small_base small_moved staged_swap sample_policy None nobody 0)"
    "created_names drafted = []" "created_names merged = []" by (rule swap_clean) blast
  have "case swapped small_moved of (st, _) \<Rightarrow> map r_participants (sn_runs (to_snapshot (re_draft st))) = [[lit ''11'', lit ''14'']]"
    by code_simp
  then show ?thesis
    using clean_merges_keep_both_sides [OF r(3) [unfolded analyze_merge_def]] r(1,2,4,5) by (auto simp: swapped_def)
qed

theorem unmoved_schedules_take_the_draft_witness:
  "\<exists>st. swapped small_base = (st, None) \<and>
     an_conflicts (analyze_merge (\<lambda>s. s) small_base small_base staged_swap sample_policy None nobody 0) = [] \<and>
     an_preview (analyze_merge (\<lambda>s. s) small_base small_base staged_swap sample_policy None nobody 0) =
       Some (to_snapshot (re_draft st))"
proof -
  obtain st where "swapped small_base = (st, None)" by (rule swap_clean) blast
  then show ?thesis using unmoved_schedules_take_the_draft [of "\<lambda>s. s"] swap_weeks by (simp add: swapped_def)
qed


end
