(* ===== verification/Spec2Isabelle.thy ===== *)
theory Spec2Isabelle
  imports RunProperties LedgerProperties WeekProperties Catalog ServiceProperties RollbackProperties MergeProperties
begin

text \<open>
  The scheduler of kanade, a bot that keeps the boss runs of a guild. Paths are below
  \<open>src/crates/kanade-domain/src/\<close> unless they name the store, \<open>src/crates/kanade-store/src/\<close>.

  The program and how it is put together. A weekly timing (\<open>FixedRun\<close>) gives a run in each boss week; members
  answer a run, the answers and who answers by default decide its status, reminders are rows of a run.
  Every change is one operation (\<open>Op\<close>): the scheduler service loads a snapshot of a scope, runs the operation's
  planner on a working copy (\<open>Draft\<close>), and commits the difference at the revision it read, retrying when
  another writer came between. The SQLite store writes the rows and, in the same transaction, a change
  record sealed into a hash chain, whose indexes serve blame and edit preconditions. Older states are
  rebuilt by rewinding records, and recorded changes are taken back by reverting them. Staged drafts hold
  operations as values; merging one replays them on the schedule it was based on, rebuilt by rewinding,
  and on the current one, and compares.

  The theories, from the ground up.

  \<^item> Values: \<open>Prelude\<close> (texts, results, fact collections, shared lemmas), \<open>Calendar\<close> (\<open>chrono\<close> dates and
    instants, in nanoseconds), \<open>Zoned\<close> (\<open>time/zoned.rs\<close>), \<open>Pytext\<close> (\<open>pytext.rs\<close>, \<open>ids.rs\<close>), \<open>Weeks\<close> (\<open>weeks/\<close>),
    \<open>Tables\<close> (\<open>BTreeMap\<close> as a sorted association list, with the laws of an ordered map as a locale),
    \<open>Rows\<close> (\<open>schedule/run.rs\<close>, \<open>state.rs\<close>, \<open>error.rs\<close>, \<open>ownership/\<close>, \<open>members.rs\<close>), \<open>Catalog\<close> (\<open>catalog/table.rs\<close>).
  \<^item> Rules: \<open>Attendance\<close> (\<open>attendance/mod.rs\<close>), \<open>Completion\<close> (\<open>schedule/policy.rs\<close>, \<open>completion/\<close>, run lengths of
    \<open>settings/model.rs\<close>).
  \<^item> Planners: \<open>Planner\<close> (drafts and ids threaded through \<open>?\<close>, with a rule for each primitive), \<open>WorkingDraft\<close>
    (\<open>schedule/draft.rs\<close>, one definition per method), \<open>DraftLaws\<close> (the interfaces), \<open>Rsvp\<close>, \<open>Reminders\<close>, \<open>Notice\<close>,
    \<open>Mutate\<close>, \<open>Lifecycle\<close>, \<open>FixedEdit\<close> (the files of \<open>schedule/\<close> with those names), \<open>Op\<close> (\<open>schedule/op.rs\<close>).
  \<^item> Laws of planners: \<open>Preservation\<close> proves once that every operation keeps what the methods of the working
    copy keep; \<open>Invariants\<close> interprets that for keys, weeks, reminder kinds, standing answers, attendance and
    pins; \<open>Locality\<close> and \<open>RunProperties\<close> say what an operation leaves alone and what it refuses.
  \<^item> Rows in the store: \<open>Store\<close> (\<open>sqlite/schedule.rs\<close>: collapsing a change set, columns, indexes, foreign keys).
  \<^item> Records: \<open>Iso\<close> (\<open>time/iso_parse.rs\<close>), \<open>Json\<close>, \<open>ChangeRecord\<close> (\<open>history/record.rs\<close>, \<open>origin.rs\<close>), \<open>History\<close>
    (\<open>history/port.rs\<close>), \<open>Rewind\<close>, \<open>Revert\<close>, \<open>Blame\<close> (\<open>history/blame.rs\<close>, \<open>precondition.rs\<close>).
  \<^item> The store with its history: \<open>Ledger\<close> (\<open>commit_on\<close> and \<open>sqlite/history.rs\<close>), \<open>Checkpoints\<close>, \<open>LedgerRead\<close>;
    \<open>LedgerRows\<close> says what a write does to the tables, \<open>LedgerSound\<close> what the log and its indexes are after any
    commit, \<open>LedgerHistory\<close> follows a store through any sequence of commits and checkpoints, \<open>LedgerProgress\<close>
    shows commits succeed, \<open>LedgerEdits\<close> that a field keeps its value while no record sets it, and
    \<open>LedgerProperties\<close> draws the consequences.
  \<^item> The service: \<open>Declines\<close> (\<open>notify/decline.rs\<close>, \<open>sqlite/decline_notices.rs\<close>), \<open>Service\<close> and \<open>ServiceOps\<close>
    (\<open>scheduler/service.rs\<close>, \<open>service/fixed_patch.rs\<close>); \<open>ServiceRuns\<close> says what an operation does to a store that
    other writers share, \<open>ServiceLaws\<close> and \<open>ServiceDeclines\<close> what follows from the revision check, and
    \<open>ServiceProperties\<close> states it for the operations; \<open>ServiceSamples\<close> holds services at work.
  \<^item> Rolling back: \<open>Rollbacks\<close> (\<open>history\<close>, \<open>select\<close> and \<open>rollback\<close> of the service), \<open>RollbackRuns\<close> (its pages and its
    attempts), \<open>RollbackProperties\<close>.
  \<^item> Drafts: \<open>DraftOps\<close> (\<open>drafts/op.rs\<close>, \<open>drafts/replay.rs\<close>), \<open>DraftMerge\<close> (\<open>drafts/merge.rs\<close>, \<open>conflict.rs\<close>),
    \<open>MergeProperties\<close>: staged operations replayed on two schedules and compared field by field.

  How the model stands to the code. A struct is a record, an enum a datatype, a \<open>BTreeMap\<close> a table, a
  \<open>Result\<close> a sum with \<open>Ok\<close> and \<open>Err\<close>. A method with \<open>&mut self\<close> returns the new state; a planner is a function
  from a draft and an id source, and an error drops both, as every caller does. \<open>u64\<close> counters are
  naturals, with the limits of \<open>u64\<close> and of an SQLite integer (\<open>i64_limit\<close>) written where a value is bound or
  read; \<open>u32\<close> minutes are 32-bit words. A service operation is a function from a world, the store as the
  last call left it and the number of calls made, and each call lets the other writers act first.
  Loops over data are structural. The retry loops of the service count the attempts left, two after the
  first, the \<open>COMMIT_ATTEMPTS\<close> of the code. Only reading the history is a partial function, since other
  writers may append while it pages: \<open>history_reads_end\<close> shows that it returns, its measure the distance of
  the cursor from the limit of a position.

  Parameters. The time zone database (a function from instants and wall times, with the coherence a zone
  has), lower-casing of scalar values, the id generator, the JSON writer and reader with SHA-256 (\<open>codec\<close>, its
  round trip the hypothesis \<open>codec_ok\<close>), request digests over Rust's debug form, row ids of records, the order
  in which a run counts as unproven, the other writers and failing calls. Where a property assumes
  something of a parameter, a witness instantiates it. Collision freedom of SHA-256 is never assumed:
  a property either exhibits two texts with one hash or holds.

  Not modelled, and why. The services of drafts, proposals and member requests are sequences of port calls
  around the planners and the merge here; the JSON form of staged operations and the expiry of drafts are
  not written out. A replay that meets a rejected operation keeps the working copy as it was before it,
  where the code keeps what the operation had partly written; a rejected replay is never merged, and a
  merge reads of it only the names of rows that its listings held before. Notification delivery, the bot, the HTTP API, the language model client, chat,
  character data, logging and voice are input and output around this core; the catalog's and the
  settings' builders read JSON files into the tables modelled here. The SQL text of other tables, migrations
  and the backfill of stores older than the change log are database scripts. The web client is not Rust.
\<close>

end
